(* ===== verification/Prelude.thy ===== *)
theory Prelude
  imports
    "HOL-Library.Word"
    "HOL-Library.AList"
    "HOL-Library.Multiset"
    "HOL-Library.List_Lexorder"
    "HOL-Library.Char_ord"
begin

text \<open>
  Shared vocabulary of the development: Go's error results, byte strings and the big-endian
  integers of \<open>encoding/binary\<close>, the readers of \<open>bytes.Reader\<close>/\<open>io.ReadFull\<close>, and Go maps as
  association lists. The generic lemmas are \<open>[simp]\<close> or members of the two collections
  \<open>result_simps\<close> (error plumbing) and \<open>wire_simps\<close> (byte-level round trips), which carry the
  component proofs.
\<close>

named_theorems result_simps \<open>elimination of error plumbing\<close>
named_theorems wire_simps \<open>byte-level round trips\<close>

section \<open>Errors as values\<close>

text \<open>
  A Go \<open>error\<close>: \<open>io.EOF\<close> and \<open>io.ErrUnexpectedEOF\<close> are sentinels, \<open>Errorf\<close> is a fresh message
  with the integers it prints, \<open>Wrapf\<close> is \<open>fmt.Errorf("...: %w", err)\<close>. A function returning
  \<open>(T, error)\<close> has type \<open>gerr + 'a\<close>.
\<close>

datatype gerr =
    ErrEOF
  | ErrUnexpectedEOF
  | Errorf string "nat list"
  | Wrapf string "nat list" gerr

type_synonym 'a result = "gerr + 'a"

definition rbind :: "'a result \<Rightarrow> ('a \<Rightarrow> 'b result) \<Rightarrow> 'b result" where
  "rbind m f = (case m of Inl e \<Rightarrow> Inl e | Inr x \<Rightarrow> f x)"

definition wrapf :: "string \<Rightarrow> nat list \<Rightarrow> 'a result \<Rightarrow> 'a result" where
  "wrapf s ns m = (case m of Inl e \<Rightarrow> Inl (Wrapf s ns e) | Inr x \<Rightarrow> Inr x)"

lemma rbind_Inl [simp]: "rbind (Inl e) f = Inl e"
  and rbind_Inr [simp]: "rbind (Inr x) f = f x"
  by (simp_all add: rbind_def)

lemma wrapf_Inl [simp]: "wrapf s ns (Inl e) = Inl (Wrapf s ns e)"
  and wrapf_Inr [simp]: "wrapf s ns (Inr x) = Inr x"
  by (simp_all add: wrapf_def)

lemma rbind_eq_Inr [result_simps]: "rbind m f = Inr y \<longleftrightarrow> (\<exists>x. m = Inr x \<and> f x = Inr y)"
  by (cases m) auto

lemma wrapf_eq_Inr [result_simps]: "wrapf s ns m = Inr y \<longleftrightarrow> m = Inr y"
  by (cases m) auto

lemma rbind_cong [fundef_cong]:
  "m = m' \<Longrightarrow> (\<And>x. m' = Inr x \<Longrightarrow> f x = f' x) \<Longrightarrow> rbind m f = rbind m' f'"
  by (cases m') auto

section \<open>Bytes and strings\<close>

type_synonym byte = "8 word"
type_synonym bytes = "byte list"

text \<open>A Go string is a byte sequence; \<open>string\<close> is a list of 8-bit characters.\<close>

definition str_bytes :: "string \<Rightarrow> bytes" where
  "str_bytes s = map (\<lambda>c. word_of_nat (of_char c)) s"

definition bytes_str :: "bytes \<Rightarrow> string" where
  "bytes_str bs = map (\<lambda>b. char_of (unat b)) bs"

lemma length_str_bytes [simp]: "length (str_bytes s) = length s"
  by (simp add: str_bytes_def)

lemma length_bytes_str [simp]: "length (bytes_str s) = length s"
  by (simp add: bytes_str_def)

lemma unat_byte_of_char [simp]: "unat (word_of_nat (of_char c) :: byte) = of_char c"
  by (simp add: unat_of_nat)

lemma bytes_str_str_bytes [simp, wire_simps]: "bytes_str (str_bytes s) = s"
  by (induction s) (auto simp: str_bytes_def bytes_str_def)

lemma str_bytes_bytes_str [simp]: "str_bytes (bytes_str bs) = bs"
proof (induction bs)
  case (Cons b bs)
  have "unat b < 256" using unsigned_less [of b, where 'a = nat] by simp
  then have "word_of_nat (of_char (char_of (unat b))) = b" by simp
  with Cons show ?case by (simp add: str_bytes_def bytes_str_def)
qed (simp add: str_bytes_def bytes_str_def)

lemma str_bytes_inj [simp]: "str_bytes s = str_bytes t \<longleftrightarrow> s = t"
  by (metis bytes_str_str_bytes)

lemma str_bytes_append [simp]: "str_bytes (s @ t) = str_bytes s @ str_bytes t"
  by (simp add: str_bytes_def)

section \<open>Big-endian integers (encoding/binary)\<close>

fun be_bytes :: "nat \<Rightarrow> nat \<Rightarrow> bytes" where
  "be_bytes 0 v = []"
| "be_bytes (Suc n) v = be_bytes n (v div 256) @ [word_of_nat (v mod 256)]"

definition be_nat :: "bytes \<Rightarrow> nat" where
  "be_nat bs = foldl (\<lambda>a b. a * 256 + unat b) 0 bs"

lemma length_be_bytes [simp]: "length (be_bytes n v) = n"
  by (induction n arbitrary: v) auto

lemma be_nat_Nil [simp]: "be_nat [] = 0"
  and be_nat_snoc [simp]: "be_nat (bs @ [b]) = be_nat bs * 256 + unat b"
  by (simp_all add: be_nat_def)

lemma be_nat_be_bytes [simp]: "be_nat (be_bytes n v) = v mod 256 ^ n"
proof (induction n arbitrary: v)
  case (Suc n)
  have "unat (word_of_nat (v mod 256) :: byte) = v mod 256"
    by (simp add: unat_of_nat)
  then show ?case
    by (simp add: Suc mod_mult2_eq [of v 256] algebra_simps)
qed simp

lemma be_nat_less: "be_nat bs < 256 ^ length bs"
proof (induction bs rule: rev_induct)
  case (snoc b bs)
  have "unat b < 256" using unsigned_less [of b, where 'a = nat] by simp
  with snoc show ?case by simp
qed simp

lemma be_bytes_be_nat [simp]: "be_bytes (length bs) (be_nat bs) = bs"
proof (induction bs rule: rev_induct)
  case (snoc b bs)
  have b: "unat b < 256" using unsigned_less [of b, where 'a = nat] by simp
  then have "(be_nat bs * 256 + unat b) div 256 = be_nat bs"
    and "(be_nat bs * 256 + unat b) mod 256 = unat b"
    by simp_all
  with snoc show ?case by simp
qed simp

definition PutUint16 :: "16 word \<Rightarrow> bytes" where "PutUint16 w = be_bytes 2 (unat w)"
definition PutUint32 :: "32 word \<Rightarrow> bytes" where "PutUint32 w = be_bytes 4 (unat w)"
definition PutUint64 :: "64 word \<Rightarrow> bytes" where "PutUint64 w = be_bytes 8 (unat w)"
definition Uint16 :: "bytes \<Rightarrow> 16 word" where "Uint16 bs = word_of_nat (be_nat bs)"
definition Uint32 :: "bytes \<Rightarrow> 32 word" where "Uint32 bs = word_of_nat (be_nat bs)"
definition Uint64 :: "bytes \<Rightarrow> 64 word" where "Uint64 bs = word_of_nat (be_nat bs)"

lemma length_PutUint [simp]:
  "length (PutUint16 a) = 2" "length (PutUint32 b) = 4" "length (PutUint64 c) = 8"
  by (simp_all add: PutUint16_def PutUint32_def PutUint64_def)

lemma Uint16_PutUint16 [simp, wire_simps]: "Uint16 (PutUint16 w) = w"
  and Uint32_PutUint32 [simp, wire_simps]: "Uint32 (PutUint32 v) = v"
  and Uint64_PutUint64 [simp, wire_simps]: "Uint64 (PutUint64 u) = u"
  using unsigned_less [of w, where 'a = nat] unsigned_less [of v, where 'a = nat]
    unsigned_less [of u, where 'a = nat]
  by (simp_all add: Uint16_def PutUint16_def Uint32_def PutUint32_def Uint64_def PutUint64_def)

lemma PutUint_inj [simp]:
  "PutUint16 a = PutUint16 a' \<longleftrightarrow> a = a'" "PutUint32 b = PutUint32 b' \<longleftrightarrow> b = b'"
  "PutUint64 c = PutUint64 c' \<longleftrightarrow> c = c'"
  by (metis Uint16_PutUint16 Uint32_PutUint32 Uint64_PutUint64)+

section \<open>Readers\<close>

text \<open>
  A \<open>bytes.Reader\<close> is the list of its unread bytes. \<open>io.ReadFull\<close> fills a buffer of \<open>n\<close> bytes:
  \<open>io.EOF\<close> when nothing could be read, \<open>io.ErrUnexpectedEOF\<close> when the input ends inside it.
\<close>

type_synonym 'a reader = "bytes \<Rightarrow> ('a \<times> bytes) result"

definition readFull :: "nat \<Rightarrow> bytes reader" where
  "readFull n r =
     (if n \<le> length r then Inr (take n r, drop n r)
      else if r = [] then Inl ErrEOF else Inl ErrUnexpectedEOF)"

definition readByte :: "byte reader" where
  "readByte r = (case r of [] \<Rightarrow> Inl ErrEOF | b # bs \<Rightarrow> Inr (b, bs))"

lemma readByte_Cons [simp, wire_simps]: "readByte (b # bs) = Inr (b, bs)"
  and readByte_Nil [simp]: "readByte [] = Inl ErrEOF"
  by (simp_all add: readByte_def)

lemma readFull_append [wire_simps]: "length xs = n \<Longrightarrow> readFull n (xs @ ys) = Inr (xs, ys)"
  by (simp add: readFull_def)

lemma readFull_exact [wire_simps]: "length xs = n \<Longrightarrow> readFull n xs = Inr (xs, [])"
  by (simp add: readFull_def)

lemma readFull_eq_Inr [result_simps]:
  "readFull n r = Inr (a, b) \<longleftrightarrow> n \<le> length r \<and> a = take n r \<and> b = drop n r"
  by (auto simp: readFull_def)

section \<open>Go maps\<close>

text \<open>
  A Go map is an association list, so that \<open>range\<close> can walk it: the list order is the (arbitrary)
  iteration order, and a theorem about every association list is a theorem about every order.
  \<open>mgetd\<close> is the indexing expression \<open>m[k]\<close>, which yields the zero value on a missing key.
\<close>

type_synonym ('k, 'v) gomap = "('k \<times> 'v) list"

abbreviation mget :: "('k, 'v) gomap \<Rightarrow> 'k \<Rightarrow> 'v option" where "mget \<equiv> map_of"
abbreviation mput :: "'k \<Rightarrow> 'v \<Rightarrow> ('k, 'v) gomap \<Rightarrow> ('k, 'v) gomap" where "mput \<equiv> AList.update"
abbreviation mdel :: "'k \<Rightarrow> ('k, 'v) gomap \<Rightarrow> ('k, 'v) gomap" where "mdel \<equiv> AList.delete"

definition mgetd :: "'v \<Rightarrow> ('k, 'v) gomap \<Rightarrow> 'k \<Rightarrow> 'v" where
  "mgetd d m k = (case mget m k of None \<Rightarrow> d | Some v \<Rightarrow> v)"

definition mhas :: "('k, 'v) gomap \<Rightarrow> 'k \<Rightarrow> bool" where
  "mhas m k \<longleftrightarrow> mget m k \<noteq> None"

definition wf_map :: "('k, 'v) gomap \<Rightarrow> bool" where
  "wf_map m \<longleftrightarrow> distinct (map fst m)"

lemma mget_mput [simp]: "mget (mput k v m) j = (if j = k then Some v else mget m j)"
  by (simp add: update_conv')

lemma mget_mdel [simp]: "mget (mdel k m) j = (if j = k then None else mget m j)"
  by (simp add: delete_conv')

lemma mgetd_mput [simp]: "mgetd d (mput k v m) j = (if j = k then v else mgetd d m j)"
  by (simp add: mgetd_def)

lemma mgetd_mdel [simp]: "mgetd d (mdel k m) j = (if j = k then d else mgetd d m j)"
  by (simp add: mgetd_def)

lemma mgetd_Nil [simp]: "mgetd d [] k = d"
  by (simp add: mgetd_def)

lemma mhas_mput [simp]: "mhas (mput k v m) j \<longleftrightarrow> j = k \<or> mhas m j"
  by (simp add: mhas_def)

lemma mhas_mdel [simp]: "mhas (mdel k m) j \<longleftrightarrow> j \<noteq> k \<and> mhas m j"
  by (simp add: mhas_def)

lemma mhas_Nil [simp]: "\<not> mhas [] k"
  by (simp add: mhas_def)

lemma wf_map_Nil [simp]: "wf_map []"
  and wf_map_mput [simp]: "wf_map m \<Longrightarrow> wf_map (mput k v m)"
  and wf_map_mdel [simp]: "wf_map m \<Longrightarrow> wf_map (mdel k m)"
  by (simp_all add: wf_map_def distinct_update distinct_delete)

end
