(* ===== verification/GoStd.thy ===== *)
theory GoStd
  imports Prelude
begin

text \<open>
  The pieces of Go's standard library that the program's own functions are built from:
  \<open>crypto/sha256\<close> (message ids), \<open>hash/crc32\<close> with the Castagnoli table (checkpoint records),
  \<open>hash/fnv\<close> (sharding), \<open>strings.Cut\<close> and the decimal rendering of \<open>fmt.Sprintf("%d")\<close>.
  Each is an executable function on byte lists.
\<close>

unbundle bit_operations_syntax

section \<open>crypto/sha256\<close>

definition sha_K :: "32 word list" where
  "sha_K =
    [1116352408, 1899447441, 3049323471, 3921009573, 961987163, 1508970993, 2453635748, 2870763221,
     3624381080, 310598401, 607225278, 1426881987, 1925078388, 2162078206, 2614888103, 3248222580,
     3835390401, 4022224774, 264347078, 604807628, 770255983, 1249150122, 1555081692, 1996064986,
     2554220882, 2821834349, 2952996808, 3210313671, 3336571891, 3584528711, 113926993, 338241895,
     666307205, 773529912, 1294757372, 1396182291, 1695183700, 1986661051, 2177026350, 2456956037,
     2730485921, 2820302411, 3259730800, 3345764771, 3516065817, 3600352804, 4094571909, 275423344,
     430227734, 506948616, 659060556, 883997877, 958139571, 1322822218, 1537002063, 1747873779,
     1955562222, 2024104815, 2227730452, 2361852424, 2428436474, 2756734187, 3204031479, 3329325298]"

type_synonym sha_state =
  "32 word \<times> 32 word \<times> 32 word \<times> 32 word \<times> 32 word \<times> 32 word \<times> 32 word \<times> 32 word"

definition sha_init :: sha_state where
  "sha_init = (1779033703, 3144134277, 1013904242, 2773480762,
               1359893119, 2600822924, 528734635, 1541459225)"

definition sha_pad :: "bytes \<Rightarrow> bytes" where
  "sha_pad m = m @ [0x80] @ replicate ((119 - length m mod 64) mod 64) 0 @ be_bytes 8 (8 * length m)"

fun sha_words :: "bytes \<Rightarrow> 32 word list" where
  "sha_words (a # b # c # d # r) = Uint32 [a, b, c, d] # sha_words r"
| "sha_words _ = []"

text \<open>The message schedule, built newest word first.\<close>

fun sha_extend :: "nat \<Rightarrow> 32 word list \<Rightarrow> 32 word list" where
  "sha_extend 0 w = w"
| "sha_extend (Suc n) w =
     (let x = w ! 14; y = w ! 1;
          s0 = word_rotr 7 x XOR word_rotr 18 x XOR drop_bit 3 x;
          s1 = word_rotr 17 y XOR word_rotr 19 y XOR drop_bit 10 y
      in sha_extend n ((s1 + w ! 6 + s0 + w ! 15) # w))"

fun sha_round :: "32 word \<times> 32 word \<Rightarrow> sha_state \<Rightarrow> sha_state" where
  "sha_round (k, w) (a, b, c, d, e, f, g, h) =
     (let S1 = word_rotr 6 e XOR word_rotr 11 e XOR word_rotr 25 e;
          ch = (e AND f) XOR (NOT e AND g);
          t1 = h + S1 + ch + k + w;
          S0 = word_rotr 2 a XOR word_rotr 13 a XOR word_rotr 22 a;
          maj = (a AND b) XOR (a AND c) XOR (b AND c)
      in (t1 + S0 + maj, a, b, c, d + t1, e, f, g))"

fun sha_add :: "sha_state \<Rightarrow> sha_state \<Rightarrow> sha_state" where
  "sha_add (a, b, c, d, e, f, g, h) (a', b', c', d', e', f', g', h') =
     (a + a', b + b', c + c', d + d', e + e', f + f', g + g', h + h')"

definition sha_block :: "sha_state \<Rightarrow> bytes \<Rightarrow> sha_state" where
  "sha_block st blk =
     sha_add st (fold sha_round (zip sha_K (rev (sha_extend 48 (rev (sha_words blk))))) st)"

function sha_blocks :: "sha_state \<Rightarrow> bytes \<Rightarrow> sha_state" where
  "sha_blocks st m =
     (if length m < 64 then st else sha_blocks (sha_block st (take 64 m)) (drop 64 m))"
  by pat_completeness auto
termination by (relation "measure (\<lambda>(st, m). length m)") auto

declare sha_blocks.simps [simp del]

fun sha_digest :: "sha_state \<Rightarrow> bytes" where
  "sha_digest (a, b, c, d, e, f, g, h) = concat (map PutUint32 [a, b, c, d, e, f, g, h])"

definition sha256 :: "bytes \<Rightarrow> bytes" where
  "sha256 m = sha_digest (sha_blocks sha_init (sha_pad m))"

lemma length_sha256 [simp]: "length (sha256 m) = 32"
proof -
  obtain a b c d e f g h where "sha_blocks sha_init (sha_pad m) = (a, b, c, d, e, f, g, h)"
    by (metis surj_pair)
  then show ?thesis by (simp add: sha256_def)
qed

section \<open>hash/crc32 (Castagnoli)\<close>

text \<open>One table entry is eight steps of the reflected polynomial \<open>0x82f63b78\<close>.\<close>

fun crc_shift :: "nat \<Rightarrow> 32 word \<Rightarrow> 32 word" where
  "crc_shift 0 c = c"
| "crc_shift (Suc n) c =
     crc_shift n (if c AND 1 = 1 then drop_bit 1 c XOR 0x82f63b78 else drop_bit 1 c)"

definition crc_byte :: "32 word \<Rightarrow> byte \<Rightarrow> 32 word" where
  "crc_byte c b = crc_shift 8 ((c XOR ucast b) AND 0xff) XOR drop_bit 8 c"

definition crc32_Update :: "32 word \<Rightarrow> bytes \<Rightarrow> 32 word" where
  "crc32_Update c p = NOT (foldl crc_byte (NOT c) p)"

lemma crc32_Update_append [simp]:
  "crc32_Update (crc32_Update c p) q = crc32_Update c (p @ q)"
  by (simp add: crc32_Update_def)

section \<open>hash/fnv (32-bit FNV-1a)\<close>

definition fnv32a :: "bytes \<Rightarrow> 32 word" where
  "fnv32a bs = foldl (\<lambda>h b. (h XOR ucast b) * 16777619) 2166136261 bs"

section \<open>strings.Cut and decimal numerals\<close>

text \<open>\<open>strings.Cut(s, sep)\<close> for the one-character separator the program uses.\<close>

fun cutAt :: "char \<Rightarrow> string \<Rightarrow> string \<times> string \<times> bool" where
  "cutAt c [] = ([], [], False)"
| "cutAt c (x # xs) =
     (if x = c then ([], xs, True)
      else case cutAt c xs of (a, b, ok) \<Rightarrow> (x # a, b, ok))"

lemma cutAt_append: "c \<notin> set a \<Longrightarrow> cutAt c (a @ c # b) = (a, b, True)"
  by (induction a) auto

fun itoa :: "nat \<Rightarrow> string" where
  "itoa n = (if n < 10 then [char_of (48 + n)] else itoa (n div 10) @ [char_of (48 + n mod 10)])"

declare itoa.simps [simp del]

fun atoi_acc :: "nat \<Rightarrow> string \<Rightarrow> nat" where
  "atoi_acc a [] = a"
| "atoi_acc a (c # cs) = atoi_acc (10 * a + (of_char c - 48)) cs"

lemma atoi_acc_append [simp]: "atoi_acc a (s @ t) = atoi_acc (atoi_acc a s) t"
  by (induction s arbitrary: a) auto

lemma atoi_itoa: "atoi_acc 0 (itoa n) = n"
proof (induction n rule: itoa.induct)
  case (1 n)
  have m: "(48 + n mod 10) mod 256 = 48 + n mod 10"
    by (simp add: mod_less)
  show ?case
  proof (cases "n < 10")
    case True
    then show ?thesis by (subst itoa.simps) simp
  next
    case False
    with 1 m show ?thesis by (subst itoa.simps) simp
  qed
qed

lemma itoa_inj [simp]: "itoa m = itoa n \<longleftrightarrow> m = n"
  by (metis atoi_itoa)

end
