(* ===== verification/Models.thy ===== *)
theory Models
  imports GoStd
begin

text \<open>
  The data model: \<open>common/protocol/models.go\<close>, \<open>common/domain\<close> and the routing keys of
  \<open>common/broker\<close>. Go's 64-bit \<open>int\<close> is \<open>goint\<close>, so that sums wrap as they do in the program; a
  \<open>float64\<close> is its IEEE-754 bit pattern (\<open>math.Float64bits\<close>). A nil pointer is \<open>None\<close>, and a
  method that dereferences one returns \<open>None\<close> where Go panics.
\<close>

type_synonym goint = "64 word"
type_synonym float64 = "64 word"
type_synonym uuid = bytes
type_synonym MsgID = bytes
type_synonym KeyType = string

definition uuid_Nil :: uuid where "uuid_Nil = replicate 16 0"
definition zeroMsgID :: MsgID where "zeroMsgID = replicate 16 0"

lemma length_zero_ids [simp]: "length uuid_Nil = 16" "length zeroMsgID = 16"
  by (simp_all add: uuid_Nil_def zeroMsgID_def)

section \<open>Message types (protocol/models.go)\<close>

type_synonym MsgType = byte

definition MsgTypeInvalid :: MsgType where "MsgTypeInvalid = 0"
definition MsgAccountsBatch :: MsgType where "MsgAccountsBatch = 1"
definition MsgAccountsEOF :: MsgType where "MsgAccountsEOF = 2"
definition MsgTransactionsBatch :: MsgType where "MsgTransactionsBatch = 3"
definition MsgTransactionsEOF :: MsgType where "MsgTransactionsEOF = 4"
definition MsgTxQ4 :: MsgType where "MsgTxQ4 = 5"
definition MsgTxAccounts :: MsgType where "MsgTxAccounts = 6"
definition MsgQuery1Result :: MsgType where "MsgQuery1Result = 7"
definition MsgQuery2Result :: MsgType where "MsgQuery2Result = 8"
definition MsgQuery3Result :: MsgType where "MsgQuery3Result = 9"
definition MsgQuery4Result :: MsgType where "MsgQuery4Result = 10"
definition MsgQuery5Result :: MsgType where "MsgQuery5Result = 11"
definition MsgQuery1ResultEOF :: MsgType where "MsgQuery1ResultEOF = 12"
definition MsgQuery2ResultEOF :: MsgType where "MsgQuery2ResultEOF = 13"
definition MsgQuery3ResultEOF :: MsgType where "MsgQuery3ResultEOF = 14"
definition MsgQuery4ResultEOF :: MsgType where "MsgQuery4ResultEOF = 15"
definition MsgQuery5ResultEOF :: MsgType where "MsgQuery5ResultEOF = 16"
definition MsgQ4HeavyBatch :: MsgType where "MsgQ4HeavyBatch = 17"
definition MsgQ4HeavyDone :: MsgType where "MsgQ4HeavyDone = 18"

lemmas MsgType_defs =
  MsgTypeInvalid_def MsgAccountsBatch_def MsgAccountsEOF_def MsgTransactionsBatch_def
  MsgTransactionsEOF_def MsgTxQ4_def MsgTxAccounts_def MsgQuery1Result_def MsgQuery2Result_def
  MsgQuery3Result_def MsgQuery4Result_def MsgQuery5Result_def MsgQuery1ResultEOF_def
  MsgQuery2ResultEOF_def MsgQuery3ResultEOF_def MsgQuery4ResultEOF_def MsgQuery5ResultEOF_def
  MsgQ4HeavyBatch_def MsgQ4HeavyDone_def

definition Q4HeavyRoleSource :: byte where "Q4HeavyRoleSource = 0"
definition Q4HeavyRoleSink :: byte where "Q4HeavyRoleSink = 1"

definition MsgType_String :: "MsgType \<Rightarrow> string" where
  "MsgType_String m =
     (if m = MsgAccountsBatch then ''MsgAccountsBatch''
      else if m = MsgAccountsEOF then ''MsgAccountsEOF''
      else if m = MsgTransactionsBatch then ''MsgTransactionsBatch''
      else if m = MsgTransactionsEOF then ''MsgTransactionsEOF''
      else if m = MsgTxQ4 then ''MsgTxQ4''
      else if m = MsgTxAccounts then ''MsgTxAccounts''
      else if m = MsgQuery1Result then ''MsgQuery1Result''
      else if m = MsgQuery2Result then ''MsgQuery2Result''
      else if m = MsgQuery3Result then ''MsgQuery3Result''
      else if m = MsgQuery4Result then ''MsgQuery4Result''
      else if m = MsgQuery5Result then ''MsgQuery5Result''
      else if m = MsgQuery1ResultEOF then ''MsgQuery1ResultEOF''
      else if m = MsgQuery2ResultEOF then ''MsgQuery2ResultEOF''
      else if m = MsgQuery3ResultEOF then ''MsgQuery3ResultEOF''
      else if m = MsgQuery4ResultEOF then ''MsgQuery4ResultEOF''
      else if m = MsgQuery5ResultEOF then ''MsgQuery5ResultEOF''
      else if m = MsgQ4HeavyBatch then ''MsgQ4HeavyBatch''
      else if m = MsgQ4HeavyDone then ''MsgQ4HeavyDone''
      else ''MsgTypeInvalid'')"

section \<open>Envelopes and records (protocol/models.go)\<close>

record ExternalEnvelope =
  eMsgType :: MsgType
  ePayload :: bytes

record InternalEnvelope =
  MsgType :: MsgType
  ClientId :: uuid
  MsgID :: MsgID
  Payload :: bytes

record Transaction =
  Timestamp :: string
  FromBank :: string
  FromAccount :: string
  ToBank :: string
  ToAccount :: string
  AmountReceived :: float64
  ReceivingCurrency :: string
  AmountPaid :: float64
  PaymentCurrency :: string
  PaymentFormat :: string
  IsLaundering :: bool

record AccountData =
  adBankName :: string
  adBankID :: string
  adAccountNumber :: string
  adEntityID :: string
  adEntityName :: string

record Query1Result =
  q1FromBank :: string
  q1FromAccount :: string
  q1ToBank :: string
  q1ToAccount :: string
  q1AmountPaid :: float64

record Query2Result =
  q2FromBank :: string
  q2FromAccount :: string
  q2BankName :: string
  q2AmountPaid :: float64

record Query3Result =
  q3FromBank :: string
  q3FromAccount :: string
  q3PaymentFormat :: string
  q3AmountPaid :: float64

record Query4Result =
  q4BankID :: string
  q4ID :: string

record Query5Result =
  q5Count :: "64 word"

definition GetOriginId :: "Transaction \<Rightarrow> string" where
  "GetOriginId t = FromAccount t @ ''-'' @ FromBank t"

definition GetDestId :: "Transaction \<Rightarrow> string" where
  "GetDestId t = ToAccount t @ ''-'' @ ToBank t"

definition GetTransactionId :: "Transaction \<Rightarrow> string" where
  "GetTransactionId t = GetOriginId t @ ''-'' @ GetDestId t @ ''-'' @ Timestamp t"

definition GetTransactionField :: "Transaction \<Rightarrow> string \<Rightarrow> string" where
  "GetTransactionField t field =
     (if field = ''origin'' then
        (if FromAccount t \<noteq> '''' \<and> FromBank t \<noteq> '''' then GetOriginId t else '''')
      else if field = ''dest'' then
        (if ToAccount t \<noteq> '''' \<and> ToBank t \<noteq> '''' then GetDestId t else '''')
      else if field = ''BankID'' then (if FromBank t \<noteq> '''' then FromBank t else '''')
      else if field = ''ID'' then (if FromAccount t \<noteq> '''' then FromAccount t else '''')
      else '''')"

section \<open>Domain types (common/domain)\<close>

record Account =
  BankID :: string
  ID :: string

definition GetID :: "Account \<Rightarrow> string" where
  "GetID a = BankID a @ ''-'' @ ID a"

record Money =
  Amount :: float64
  Currency :: string

record DomTransaction =
  dTimestamp :: string
  dOrigin :: "Account option"
  dDest :: "Account option"
  dPaid :: "Money option"
  dFormat :: string

definition IsUSDTransaction :: "DomTransaction \<Rightarrow> bool option" where
  "IsUSDTransaction t = map_option (\<lambda>p. Currency p = ''US Dollar'') (dPaid t)"

definition dGetOriginId :: "DomTransaction \<Rightarrow> string option" where
  "dGetOriginId t = map_option GetID (dOrigin t)"

definition dGetDestId :: "DomTransaction \<Rightarrow> string option" where
  "dGetDestId t = map_option GetID (dDest t)"

definition dGetTransactionId :: "DomTransaction \<Rightarrow> string option" where
  "dGetTransactionId t =
     (case (dGetOriginId t, dGetDestId t) of
        (Some a, Some b) \<Rightarrow> Some (a @ ''-'' @ b @ ''-'' @ dTimestamp t)
      | _ \<Rightarrow> None)"

definition dGetTransactionField :: "DomTransaction \<Rightarrow> string \<Rightarrow> string" where
  "dGetTransactionField t field =
     (let pick = (\<lambda>p f. case p of Some a \<Rightarrow> f a | None \<Rightarrow> '''') in
      if field = ''origin'' then pick (dOrigin t) GetID
      else if field = ''dest'' then pick (dDest t) GetID
      else if field = ''BankID'' then pick (dOrigin t) BankID
      else if field = ''ID'' then pick (dOrigin t) ID
      else '''')"

definition CutColumn :: "string \<Rightarrow> DomTransaction \<Rightarrow> DomTransaction" where
  "CutColumn column t =
     (if column = ''timestamp'' then t\<lparr>dTimestamp := ''''\<rparr>
      else if column = ''origin'' then t\<lparr>dOrigin := None\<rparr>
      else if column = ''dest'' then t\<lparr>dDest := None\<rparr>
      else if column = ''paid'' then t\<lparr>dPaid := None\<rparr>
      else if column = ''format'' then t\<lparr>dFormat := ''''\<rparr>
      else t)"

type_synonym TypeTxQ4 = string

definition TxQ4Scatter :: TypeTxQ4 where "TxQ4Scatter = ''scatter''"
definition TxQ4Gather :: TypeTxQ4 where "TxQ4Gather = ''gather''"

record TxQ4PairKey =
  Src :: string
  Dst :: string

record TxQ4PairEntry =
  peCount :: goint
  SrcAccount :: Account
  DstAccount :: Account

record TxQ4PairCount =
  pcKey :: TxQ4PairKey
  pcCount :: goint

definition PairEntry_Merge :: "TxQ4PairEntry \<Rightarrow> TxQ4PairEntry \<Rightarrow> TxQ4PairEntry" where
  "PairEntry_Merge e other = e\<lparr>peCount := peCount e + peCount other\<rparr>"

definition PairKey_Key :: "TxQ4PairKey \<Rightarrow> string" where
  "PairKey_Key k = Src k @ ''::'' @ Dst k"

definition GetTypeTxQ4ByField :: "string \<Rightarrow> TypeTxQ4" where
  "GetTypeTxQ4ByField field =
     (if field = ''origin'' then TxQ4Scatter
      else if field = ''dest'' then TxQ4Gather
      else '''')"

section \<open>Routing keys (common/broker)\<close>

definition KeyDollarTransaction :: KeyType where "KeyDollarTransaction = ''tx.usd''"
definition KeyNonDollarTransaction :: KeyType where "KeyNonDollarTransaction = ''tx.non-usd''"
definition KeyAllTransaction :: KeyType where "KeyAllTransaction = ''tx.*''"
definition KeyControlEOF :: KeyType where "KeyControlEOF = ''control.eof''"
definition KeyNil :: KeyType where "KeyNil = ''''"

lemmas KeyType_defs = KeyDollarTransaction_def KeyNonDollarTransaction_def KeyAllTransaction_def
  KeyControlEOF_def KeyNil_def

definition IsInputExchangeType :: "string \<Rightarrow> bool" where
  "IsInputExchangeType b \<longleftrightarrow> b = ''e-q'' \<or> b = ''e-e''"

definition IsOutputExchangeType :: "string \<Rightarrow> bool" where
  "IsOutputExchangeType b \<longleftrightarrow> b = ''q-e'' \<or> b = ''e-e''"

section \<open>Accounts and their textual ids\<close>

text \<open>
  \<open>accountFromID\<close> (\<open>workers/aggregator/scattergather.go\<close>) recovers an account from \<open>GetID\<close> by
  cutting at the first dash.
\<close>

definition accountFromID :: "string \<Rightarrow> Account" where
  "accountFromID s = (case cutAt (CHR ''-'') s of (b, a, _) \<Rightarrow> \<lparr>BankID = b, ID = a\<rparr>)"

lemma accountFromID_GetID: "CHR ''-'' \<notin> set (BankID a) \<Longrightarrow> accountFromID (GetID a) = a"
  by (simp add: accountFromID_def GetID_def cutAt_append)

lemma GetID_inj:
  "CHR ''-'' \<notin> set (BankID a) \<Longrightarrow> CHR ''-'' \<notin> set (BankID b) \<Longrightarrow> GetID a = GetID b \<longleftrightarrow> a = b"
  by (metis accountFromID_GetID)

end
