(* ===== verification/Store.thy ===== *)
theory Store
  imports Models
begin

text \<open>
  \<open>common/checkpoint/checkpoint.go\<close> and \<open>store.go\<close>: the checkpoint encoding, the overwrite store
  (stage, then promote by rename) and the append-only record log. The file system is an association
  list from (directory, file name) to contents. Every primitive the stores issue (write a file with
  sync, append with sync, rename, remove, truncate, sync a directory) consumes one event of a script
  that is quantified over in the theorems: it succeeds, it fails (possibly after some bytes), or the
  process crashes in it (possibly after some bytes). A write or append torn by a crash leaves a
  prefix of its data; renames, removals and truncations are atomic and take effect in program order.
\<close>

section \<open>Checkpoint encoding (checkpoint.go)\<close>

record Checkpoint =
  cpDedup :: bytes
  cpEOF :: bytes
  cpState :: bytes

definition checkpointVersion :: byte where "checkpointVersion = 1"

definition appendField :: "bytes \<Rightarrow> bytes \<Rightarrow> bytes" where
  "appendField buf field = buf @ PutUint32 (word_of_nat (length field)) @ field"

definition Checkpoint_Encode :: "Checkpoint \<Rightarrow> bytes" where
  "Checkpoint_Encode c =
     appendField (appendField (appendField [checkpointVersion] (cpDedup c)) (cpEOF c)) (cpState c)"

definition readField :: "bytes reader" where
  "readField data =
     (if length data < 4 then Inl (Errorf ''truncated length prefix'' [])
      else let n = Uint32 (take 4 data); data' = drop 4 data in
        if (word_of_nat (length data') :: 32 word) < n
        then Inl (Errorf ''truncated field'' [unat n, length data'])
        else Inr (take (unat n) data', drop (unat n) data'))"

definition Checkpoint_Decode :: "bytes \<Rightarrow> Checkpoint result" where
  "Checkpoint_Decode data =
     (case data of
        [] \<Rightarrow> Inl (Errorf ''checkpoint: empty data'' [])
      | v # rest \<Rightarrow>
         if v \<noteq> checkpointVersion then Inl (Errorf ''checkpoint: unsupported version'' [unat v])
         else
           rbind (wrapf ''checkpoint: dedup field'' [] (readField rest)) (\<lambda>(d, rest).
           rbind (wrapf ''checkpoint: eof field'' [] (readField rest)) (\<lambda>(e, rest).
           rbind (wrapf ''checkpoint: state field'' [] (readField rest)) (\<lambda>(s, _).
           Inr \<lparr>cpDedup = d, cpEOF = e, cpState = s\<rparr>))))"

section \<open>The file system\<close>

type_synonym path = "string \<times> string"
type_synonym disk = "(path, bytes) gomap"

datatype dop =
    WriteFile path bytes
  | AppendFile path bytes
  | Rename path path
  | Remove path
  | TruncateFile path nat
  | SyncDir

datatype ioEvent = EvOk | EvErrOpen | EvErr nat | EvCrash nat

fun applyDop :: "dop \<Rightarrow> disk \<Rightarrow> disk" where
  "applyDop (WriteFile p b) d = mput p b d"
| "applyDop (AppendFile p b) d = mput p (mgetd [] d p @ b) d"
| "applyDop (Rename p q) d = (case mget d p of None \<Rightarrow> d | Some b \<Rightarrow> mput q b (mdel p d))"
| "applyDop (Remove p) d = mdel p d"
| "applyDop (TruncateFile p n) d = mput p (take n (mgetd [] d p)) d"
| "applyDop SyncDir d = d"

fun tornDop :: "nat \<Rightarrow> dop \<Rightarrow> disk \<Rightarrow> disk" where
  "tornDop n (WriteFile p b) d = mput p (take n b) d"
| "tornDop n (AppendFile p b) d = mput p (mgetd [] d p @ take n b) d"
| "tornDop n _ d = d"

text \<open>A failed \<open>writeFileSync\<close> removes the file; a failed append leaves what it wrote.\<close>

fun failDop :: "nat \<Rightarrow> dop \<Rightarrow> disk \<Rightarrow> disk" where
  "failDop n (WriteFile p b) d = mdel p d"
| "failDop n (AppendFile p b) d = mput p (mgetd [] d p @ take n b) d"
| "failDop n _ d = d"

datatype 'a io = IOk 'a | IErr gerr | ICrash

record fs =
  files :: disk
  script :: "ioEvent list"

type_synonym ('s, 'a) iom = "'s \<Rightarrow> 'a io \<times> 's"

definition iobind :: "('s, 'a) iom \<Rightarrow> ('a \<Rightarrow> ('s, 'b) iom) \<Rightarrow> ('s, 'b) iom" where
  "iobind m f s = (case m s of (IOk x, s') \<Rightarrow> f x s' | (IErr e, s') \<Rightarrow> (IErr e, s') | (ICrash, s') \<Rightarrow> (ICrash, s'))"

definition ioret :: "'a \<Rightarrow> ('s, 'a) iom" where "ioret x s = (IOk x, s)"
definition ioerr :: "gerr \<Rightarrow> ('s, 'a) iom" where "ioerr e s = (IErr e, s)"

definition ioresult :: "'a result \<Rightarrow> ('s, 'a) iom" where
  "ioresult r = (case r of Inl e \<Rightarrow> ioerr e | Inr x \<Rightarrow> ioret x)"

definition doOp :: "dop \<Rightarrow> (fs, unit) iom" where
  "doOp p s =
     (case script s of
        [] \<Rightarrow> (IOk (), s\<lparr>files := applyDop p (files s)\<rparr>)
      | ev # evs \<Rightarrow>
         (let s = s\<lparr>script := evs\<rparr> in
          case ev of
            EvOk \<Rightarrow> (IOk (), s\<lparr>files := applyDop p (files s)\<rparr>)
          | EvErrOpen \<Rightarrow> (IErr (Errorf ''io'' []), s)
          | EvErr n \<Rightarrow> (IErr (Errorf ''io'' []), s\<lparr>files := failDop n p (files s)\<rparr>)
          | EvCrash n \<Rightarrow> (ICrash, s\<lparr>files := tornDop n p (files s)\<rparr>)))"

definition getFiles :: "(fs, disk) iom" where "getFiles s = (IOk (files s), s)"

section \<open>Names (baseStore)\<close>

definition fileExt :: string where "fileExt = ''.ckpt''"
definition tmpExt :: string where "tmpExt = ''.ckpt.tmp''"
definition logExt :: string where "logExt = ''.log''"

definition storePath :: "string \<Rightarrow> string \<Rightarrow> string \<Rightarrow> path" where
  "storePath dir key ext = (dir, key @ ext)"

definition hasSuffix :: "string \<Rightarrow> string \<Rightarrow> bool" where
  "hasSuffix s suf \<longleftrightarrow> length suf \<le> length s \<and> drop (length s - length suf) s = suf"

definition trimSuffix :: "string \<Rightarrow> string \<Rightarrow> string" where
  "trimSuffix s suf = (if hasSuffix s suf then take (length s - length suf) s else s)"

definition listKeys :: "string \<Rightarrow> string \<Rightarrow> disk \<Rightarrow> string list" where
  "listKeys dir ext d =
     map (\<lambda>f. trimSuffix f ext)
       (sort (filter (\<lambda>f. hasSuffix f ext) (map (snd \<circ> fst) (filter (\<lambda>((d', _), _). d' = dir) d))))"

definition validKey :: "string \<Rightarrow> unit result" where
  "validKey key =
     (if key = '''' \<or> key = ''.'' \<or> key = ''..'' \<or> CHR ''/'' \<in> set key \<or> CHR 0x5C \<in> set key
      then Inl (Errorf ''invalid checkpoint key'' []) else Inr ())"

section \<open>OverwriteStore\<close>

definition overwriteVersion :: byte where "overwriteVersion = 1"
definition overwriteHeaderLen :: nat where "overwriteHeaderLen = 9"

definition encodeOverwrite :: "64 word \<Rightarrow> bytes \<Rightarrow> bytes" where
  "encodeOverwrite gen data = [overwriteVersion] @ PutUint64 gen @ data"

definition decodeOverwrite :: "bytes \<Rightarrow> (bytes \<times> 64 word) result" where
  "decodeOverwrite raw =
     (if length raw < overwriteHeaderLen then Inl (Errorf ''overwrite checkpoint too short'' [length raw])
      else if raw ! 0 \<noteq> overwriteVersion
      then Inl (Errorf ''unsupported overwrite checkpoint version'' [unat (raw ! 0)])
      else Inr (drop overwriteHeaderLen raw, Uint64 (take 8 (drop 1 raw))))"

text \<open>\<open>None\<close>: no staged file, or a torn or foreign header.\<close>

definition readOverwriteHeader :: "path \<Rightarrow> disk \<Rightarrow> 64 word option" where
  "readOverwriteHeader p d =
     (case mget d p of
        None \<Rightarrow> None
      | Some raw \<Rightarrow>
          if length raw < overwriteHeaderLen then None
          else if raw ! 0 \<noteq> overwriteVersion then None
          else Some (Uint64 (take 8 (drop 1 raw))))"

definition ow_Stage :: "string \<Rightarrow> string \<Rightarrow> 64 word \<Rightarrow> bytes \<Rightarrow> (fs, unit) iom" where
  "ow_Stage dir key gen data =
     iobind (ioresult (validKey key)) (\<lambda>_.
     iobind (doOp (WriteFile (storePath dir key tmpExt) (encodeOverwrite gen data))) (\<lambda>_.
     doOp SyncDir))"

definition ow_Promote :: "string \<Rightarrow> string \<Rightarrow> 64 word \<Rightarrow> (fs, unit) iom" where
  "ow_Promote dir key committedGen =
     iobind (ioresult (validKey key)) (\<lambda>_.
     iobind getFiles (\<lambda>d.
     let tmp = storePath dir key tmpExt in
     if readOverwriteHeader tmp d = Some committedGen
     then iobind (doOp (Rename tmp (storePath dir key fileExt))) (\<lambda>_. doOp SyncDir)
     else if mget d tmp = None then ioret ()
     else iobind (doOp (Remove tmp)) (\<lambda>_. doOp SyncDir)))"

definition ow_Load :: "string \<Rightarrow> string \<Rightarrow> disk \<Rightarrow> (bytes \<times> 64 word) option result" where
  "ow_Load dir key d =
     rbind (validKey key) (\<lambda>_.
     case mget d (storePath dir key fileExt) of
       None \<Rightarrow> Inr None
     | Some raw \<Rightarrow> rbind (decodeOverwrite raw) (\<lambda>x. Inr (Some x)))"

definition removeIfExists :: "path \<Rightarrow> (fs, bool) iom" where
  "removeIfExists p =
     iobind getFiles (\<lambda>d.
     if mget d p = None then ioret False else iobind (doOp (Remove p)) (\<lambda>_. ioret True))"

definition ow_Delete :: "string \<Rightarrow> string \<Rightarrow> (fs, unit) iom" where
  "ow_Delete dir key =
     iobind (ioresult (validKey key)) (\<lambda>_.
     iobind (removeIfExists (storePath dir key fileExt)) (\<lambda>a.
     iobind (removeIfExists (storePath dir key tmpExt)) (\<lambda>b.
     if a \<or> b then doOp SyncDir else ioret ())))"

definition ow_Keys :: "string \<Rightarrow> disk \<Rightarrow> string list" where
  "ow_Keys dir d = listKeys dir fileExt d"

section \<open>AppendStore\<close>

record Record =
  Gen :: "64 word"
  recPayload :: bytes

definition recordHeaderLen :: nat where "recordHeaderLen = 16"

definition recordCrc :: "bytes \<Rightarrow> bytes \<Rightarrow> 32 word" where
  "recordCrc genBytes payload = crc32_Update (crc32_Update 0 genBytes) payload"

definition encodeRecord :: "64 word \<Rightarrow> bytes \<Rightarrow> bytes" where
  "encodeRecord gen payload =
     PutUint32 (word_of_nat (length payload)) @ PutUint64 gen
       @ PutUint32 (recordCrc (PutUint64 gen) payload) @ payload"

definition decodeRecordAt :: "bytes \<Rightarrow> nat \<Rightarrow> (64 word \<times> bytes \<times> nat) option" where
  "decodeRecordAt raw off =
     (if off + recordHeaderLen > length raw then None
      else
        let plen = unat (Uint32 (take 4 (drop off raw)));
            end = off + recordHeaderLen + plen in
        if end > length raw then None
        else
          let gb = take 8 (drop (off + 4) raw);
              crc = Uint32 (take 4 (drop (off + 12) raw));
              payload = take plen (drop (off + recordHeaderLen) raw) in
          if recordCrc gb payload \<noteq> crc then None else Some (Uint64 gb, payload, end))"

lemma decodeRecordAt_progress: "decodeRecordAt raw off = Some (g, p, next) \<Longrightarrow> off < next \<and> next \<le> length raw"
  by (auto simp: decodeRecordAt_def recordHeaderLen_def Let_def split: if_splits)

function loadLoop :: "bytes \<Rightarrow> nat \<Rightarrow> Record list" where
  "loadLoop raw off =
     (case decodeRecordAt raw off of
        None \<Rightarrow> []
      | Some (g, p, next) \<Rightarrow> \<lparr>Gen = g, recPayload = p\<rparr> # loadLoop raw next)"
  by pat_completeness auto
termination
  by (relation "measure (\<lambda>(raw, off). length raw - off)") (auto dest!: decodeRecordAt_progress)

declare loadLoop.simps [simp del]

definition maxGen :: "Record list \<Rightarrow> 64 word" where
  "maxGen recs = foldl (\<lambda>m r. if Gen r > m then Gen r else m) 0 recs"

definition ap_Load :: "string \<Rightarrow> string \<Rightarrow> disk \<Rightarrow> (Record list \<times> 64 word) result" where
  "ap_Load dir key d =
     rbind (validKey key) (\<lambda>_.
     case mget d (storePath dir key logExt) of
       None \<Rightarrow> Inr ([], 0)
     | Some raw \<Rightarrow> let recs = loadLoop raw 0 in Inr (recs, maxGen recs))"

text \<open>\<open>syncDir\<close> after an append only when the log did not exist before.\<close>

definition ap_Append :: "string \<Rightarrow> string \<Rightarrow> 64 word \<Rightarrow> bytes \<Rightarrow> (fs, unit) iom" where
  "ap_Append dir key gen payload =
     iobind (ioresult (validKey key)) (\<lambda>_.
     iobind getFiles (\<lambda>d.
     let p = storePath dir key logExt in
     iobind (doOp (AppendFile p (encodeRecord gen payload))) (\<lambda>_.
     if mget d p = None then doOp SyncDir else ioret ())))"

function truncLoop :: "bytes \<Rightarrow> 64 word \<Rightarrow> nat \<Rightarrow> nat" where
  "truncLoop raw committedGen off =
     (case decodeRecordAt raw off of
        None \<Rightarrow> off
      | Some (g, p, next) \<Rightarrow> if g > committedGen then off else truncLoop raw committedGen next)"
  by pat_completeness auto
termination
  by (relation "measure (\<lambda>(raw, g, off). length raw - off)") (auto dest!: decodeRecordAt_progress)

declare truncLoop.simps [simp del]

definition ap_Truncate :: "string \<Rightarrow> string \<Rightarrow> 64 word \<Rightarrow> (fs, unit) iom" where
  "ap_Truncate dir key committedGen =
     iobind (ioresult (validKey key)) (\<lambda>_.
     iobind getFiles (\<lambda>d.
     let p = storePath dir key logExt in
     case mget d p of
       None \<Rightarrow> ioret ()
     | Some raw \<Rightarrow>
         let validEnd = truncLoop raw committedGen 0 in
         if validEnd = length raw then ioret ()
         else iobind (doOp (TruncateFile p validEnd)) (\<lambda>_. doOp SyncDir)))"

definition ap_Delete :: "string \<Rightarrow> string \<Rightarrow> (fs, unit) iom" where
  "ap_Delete dir key =
     iobind (ioresult (validKey key)) (\<lambda>_.
     iobind (removeIfExists (storePath dir key logExt)) (\<lambda>a.
     if a then doOp SyncDir else ioret ()))"

definition ap_Keys :: "string \<Rightarrow> disk \<Rightarrow> string list" where
  "ap_Keys dir d = listKeys dir logExt d"

section \<open>Lemmas: encodings\<close>

lemma readField_append:
  "length f < 2 ^ 32 \<Longrightarrow> length f + length rest < 2 ^ 32
    \<Longrightarrow> readField (PutUint32 (word_of_nat (length f)) @ f @ rest) = Inr (f, rest)"
proof -
  assume f: "length f < 2 ^ 32" and fr: "length f + length rest < 2 ^ 32"
  have n: "unat (word_of_nat (length f) :: 32 word) = length f"
    using f by (simp add: unat_of_nat)
  have "\<not> (word_of_nat (length f + length rest) :: 32 word) < word_of_nat (length f)"
    using f fr by (simp add: word_less_nat_alt unat_of_nat not_less del: of_nat_add)
  then show ?thesis by (simp add: readField_def Let_def n del: of_nat_add)
qed

lemma Checkpoint_Decode_Encode:
  assumes "length (cpDedup c) + length (cpEOF c) + length (cpState c) + 8 < 2 ^ 32"
  shows "Checkpoint_Decode (Checkpoint_Encode c) = Inr c"
  using assms readField_append [of "cpState c" "[]"]
  by (simp add: Checkpoint_Decode_def Checkpoint_Encode_def appendField_def readField_append)

lemma decodeOverwrite_encode: "decodeOverwrite (encodeOverwrite g b) = Inr (b, g)"
  by (simp add: decodeOverwrite_def encodeOverwrite_def overwriteHeaderLen_def)

lemma readOverwriteHeader_encode:
  "mget d p = Some (encodeOverwrite g b) \<Longrightarrow> readOverwriteHeader p d = Some g"
  by (simp add: readOverwriteHeader_def encodeOverwrite_def overwriteHeaderLen_def)

lemma readOverwriteHeader_torn:
  assumes "mget d p = Some (take n (encodeOverwrite g b))"
  shows "readOverwriteHeader p d = None \<or> readOverwriteHeader p d = Some g"
proof (cases "n < 9")
  case True
  with assms show ?thesis
    by (simp add: readOverwriteHeader_def encodeOverwrite_def overwriteHeaderLen_def)
next
  case False
  then have "take 8 (drop 1 (take n (encodeOverwrite g b))) = PutUint64 g"
    by (simp add: encodeOverwrite_def drop_take)
  moreover have "take n (encodeOverwrite g b) ! 0 = overwriteVersion"
    using False by (simp add: encodeOverwrite_def)
  ultimately show ?thesis using assms by (simp add: readOverwriteHeader_def)
qed

lemma length_encodeRecord [simp]: "length (encodeRecord g p) = 16 + length p"
  by (simp add: encodeRecord_def)

lemma decodeRecordAt_encode:
  assumes "length p < 2 ^ 32"
  shows "decodeRecordAt (pre @ encodeRecord g p @ rest) (length pre) = Some (g, p, length pre + 16 + length p)"
proof -
  define l where "l = PutUint32 (word_of_nat (length p))"
  define gb where "gb = PutUint64 g"
  define cb where "cb = PutUint32 (recordCrc gb p)"
  have lens: "length l = 4" "length gb = 8" "length cb = 4"
    by (simp_all add: l_def gb_def cb_def)
  have n: "unat (word_of_nat (length p) :: 32 word) = length p"
    using assms by (simp add: unat_of_nat)
  have raw: "encodeRecord g p = l @ gb @ cb @ p"
    by (simp add: encodeRecord_def l_def gb_def cb_def)
  have vals: "Uint32 l = word_of_nat (length p)" "Uint64 gb = g" "Uint32 cb = recordCrc gb p"
    by (simp_all add: l_def gb_def cb_def)
  show ?thesis
    unfolding decodeRecordAt_def raw
    by (simp add: recordHeaderLen_def Let_def lens vals n)
qed

text \<open>A record torn by a crash, whatever the number of its bytes that were written, is rejected.\<close>

lemma decodeRecordAt_torn:
  assumes "length p < 2 ^ 32" "n < length (encodeRecord g p)"
  shows "decodeRecordAt (pre @ take n (encodeRecord g p)) (length pre) = None"
proof (cases "n < 16")
  case True
  then show ?thesis by (simp add: decodeRecordAt_def recordHeaderLen_def)
next
  case False
  have n: "unat (word_of_nat (length p) :: 32 word) = length p"
    using assms(1) by (simp add: unat_of_nat)
  have "take 4 (take n (encodeRecord g p)) = PutUint32 (word_of_nat (length p))"
    using False by (simp add: encodeRecord_def)
  with False assms(2) show ?thesis
    by (simp add: decodeRecordAt_def recordHeaderLen_def Let_def n)
qed

definition logBytes :: "Record list \<Rightarrow> bytes" where
  "logBytes recs = concat (map (\<lambda>r. encodeRecord (Gen r) (recPayload r)) recs)"

definition wf_recs :: "Record list \<Rightarrow> bool" where
  "wf_recs recs \<longleftrightarrow> (\<forall>r\<in>set recs. length (recPayload r) < 2 ^ 32)"

lemma logBytes_simps [simp]:
  "logBytes [] = []" "logBytes (r # rs) = encodeRecord (Gen r) (recPayload r) @ logBytes rs"
  "logBytes (rs @ rs') = logBytes rs @ logBytes rs'"
  by (simp_all add: logBytes_def)

lemma loadLoop_log:
  "wf_recs recs \<Longrightarrow> decodeRecordAt (pre @ logBytes recs @ tail) (length pre + length (logBytes recs)) = None
    \<Longrightarrow> loadLoop (pre @ logBytes recs @ tail) (length pre) = recs"
proof (induction recs arbitrary: pre)
  case Nil
  then show ?case by (subst loadLoop.simps) simp
next
  case (Cons r recs)
  let ?pre = "pre @ encodeRecord (Gen r) (recPayload r)"
  have r: "length (recPayload r) < 2 ^ 32" and wf: "wf_recs recs"
    using Cons.prems(1) by (simp_all add: wf_recs_def)
  have "loadLoop (?pre @ logBytes recs @ tail) (length ?pre) = recs"
    using Cons.prems(2) by (intro Cons.IH wf) (simp add: ac_simps)
  then show ?case
    using decodeRecordAt_encode [OF r, of pre "Gen r" "logBytes recs @ tail"]
    by (subst loadLoop.simps) (simp add: ac_simps)
qed

lemma truncLoop_log:
  "wf_recs recs \<Longrightarrow> \<forall>r\<in>set recs. Gen r \<le> g
    \<Longrightarrow> decodeRecordAt (pre @ logBytes recs @ tail) (length pre + length (logBytes recs)) = None
    \<Longrightarrow> truncLoop (pre @ logBytes recs @ tail) g (length pre) = length pre + length (logBytes recs)"
proof (induction recs arbitrary: pre)
  case Nil
  then show ?case by (subst truncLoop.simps) simp
next
  case (Cons r recs)
  let ?pre = "pre @ encodeRecord (Gen r) (recPayload r)"
  have r: "length (recPayload r) < 2 ^ 32" and wf: "wf_recs recs" and g: "\<not> Gen r > g"
    using Cons.prems(1,2) by (simp_all add: wf_recs_def not_less)
  have "truncLoop (?pre @ logBytes recs @ tail) g (length ?pre) = length ?pre + length (logBytes recs)"
    using Cons.prems(2,3) by (intro Cons.IH wf) (simp_all add: ac_simps)
  then show ?case
    using decodeRecordAt_encode [OF r, of pre "Gen r" "logBytes recs @ tail"] g
    by (subst truncLoop.simps) (simp add: ac_simps)
qed

lemma decodeRecordAt_end: "decodeRecordAt raw (length raw) = None"
  by (simp add: decodeRecordAt_def recordHeaderLen_def)

lemma loadLoop_clean: "wf_recs recs \<Longrightarrow> loadLoop (logBytes recs) 0 = recs"
  using loadLoop_log [of recs "[]" "[]"] decodeRecordAt_end [of "logBytes recs"] by simp

lemma loadLoop_torn:
  assumes "wf_recs recs" "length p < 2 ^ 32" "n < length (encodeRecord g p)"
  shows "loadLoop (logBytes recs @ take n (encodeRecord g p)) 0 = recs"
  using loadLoop_log [OF assms(1), of "[]" "take n (encodeRecord g p)"]
    decodeRecordAt_torn [OF assms(2,3), of "logBytes recs"] by simp

lemma maxGen_snoc:
  "maxGen (recs @ [r]) = (if Gen r > maxGen recs then Gen r else maxGen recs)"
  by (simp add: maxGen_def)

lemma maxGen_ge: "r \<in> set recs \<Longrightarrow> Gen r \<le> maxGen recs"
proof (induction recs rule: rev_induct)
  case (snoc x xs)
  then show ?case by (auto simp: maxGen_snoc intro: order_trans less_imp_le)
qed simp

section \<open>Lemmas: primitives\<close>

lemma iobind_IOk: "m s = (IOk x, s') \<Longrightarrow> iobind m f s = f x s'"
  and iobind_IErr: "m s = (IErr e, s') \<Longrightarrow> iobind m f s = (IErr e, s')"
  and iobind_ICrash: "m s = (ICrash, s') \<Longrightarrow> iobind m f s = (ICrash, s')"
  by (simp_all add: iobind_def)

lemma iobind_ioret [simp]: "iobind (ioret x) f = f x"
  and iobind_ioerr [simp]: "iobind (ioerr e) f = ioerr e"
  and ioresult_Inr [simp]: "ioresult (Inr x) = ioret x"
  and ioresult_Inl [simp]: "ioresult (Inl e) = ioerr e"
  by (auto simp: iobind_def ioret_def ioerr_def ioresult_def)

lemma iobind_getFiles: "iobind getFiles f s = f (files s) s"
  by (simp add: iobind_def getFiles_def)

lemma doOp_cases:
  obtains (ok) s' where "doOp p s = (IOk (), s')" "files s' = applyDop p (files s)"
  | (open_err) e s' where "doOp p s = (IErr e, s')" "files s' = files s"
  | (err) e n s' where "doOp p s = (IErr e, s')" "files s' = failDop n p (files s)"
  | (crash) n s' where "doOp p s = (ICrash, s')" "files s' = tornDop n p (files s)"
  by (cases "script s"; cases "hd (script s)") (fastforce simp: doOp_def Let_def)+

lemma doOp_SyncDir: "files (snd (doOp SyncDir s)) = files s"
  by (cases rule: doOp_cases [of SyncDir s]) auto

lemma doOp_no_script: "script s = [] \<Longrightarrow> doOp p s = (IOk (), s\<lparr>files := applyDop p (files s)\<rparr>)"
  by (simp add: doOp_def)

lemma storePath_eq [simp]:
  "storePath d k e = storePath d' k' e' \<longleftrightarrow> d = d' \<and> k @ e = k' @ e'"
  by (simp add: storePath_def)

lemma ext_distinct [simp]:
  "fileExt \<noteq> tmpExt" "tmpExt \<noteq> fileExt" "fileExt \<noteq> logExt" "logExt \<noteq> fileExt" "tmpExt \<noteq> logExt" "logExt \<noteq> tmpExt"
  by (simp_all add: fileExt_def tmpExt_def logExt_def)

lemma key_ext_neq [simp]: "k @ fileExt \<noteq> k' @ tmpExt" "k' @ tmpExt \<noteq> k @ fileExt"
proof -
  have "last (k @ fileExt) \<noteq> last (k' @ tmpExt)" by (simp add: fileExt_def tmpExt_def)
  then show "k @ fileExt \<noteq> k' @ tmpExt" "k' @ tmpExt \<noteq> k @ fileExt" by metis+
qed

end
