(* ===== verification/Codec.thy ===== *)
theory Codec
  imports Models
begin

text \<open>
  The element codecs of \<open>common/protocol/codec/codec.go\<close>: the primitives \<open>writeString\<close>,
  \<open>writeFloat64\<close>, \<open>writeInt64\<close>, \<open>writeBool\<close> with their readers, the per-record encoders, and the
  batch framing \<open>[uint32 count]([uint16 len][body])*\<close>. An encoder returns the bytes it appends to
  its \<open>bytes.Buffer\<close>; a decoder is a reader. The locale \<open>wire_codec\<close> is the contract of an element
  codec (\<open>decode\<close> undoes \<open>encode\<close> and leaves the rest of the input alone); the batch round trip is
  proved once in it and the locale is interpreted on every record codec of the source.
\<close>

section \<open>Primitives\<close>

definition writeString :: "string \<Rightarrow> bytes result" where
  "writeString s =
     (if length s > 255 then Inl (Errorf ''string too long'' [length s])
      else Inr (word_of_nat (length s) # str_bytes s))"

definition readString :: "string reader" where
  "readString r =
     rbind (wrapf ''reading string length'' [] (readByte r)) (\<lambda>(n, r).
     rbind (wrapf ''reading string body'' [] (readFull (unat n) r)) (\<lambda>(buf, r).
     Inr (bytes_str buf, r)))"

definition writeFloat64 :: "float64 \<Rightarrow> bytes" where "writeFloat64 f = PutUint64 f"

definition readFloat64 :: "float64 reader" where
  "readFloat64 r = rbind (readFull 8 r) (\<lambda>(b, r). Inr (Uint64 b, r))"

definition writeInt64 :: "64 word \<Rightarrow> bytes" where "writeInt64 v = PutUint64 v"

definition readInt64 :: "(64 word) reader" where
  "readInt64 r = rbind (readFull 8 r) (\<lambda>(b, r). Inr (Uint64 b, r))"

definition writeBool :: "bool \<Rightarrow> bytes" where "writeBool b = (if b then [1] else [0])"

definition readBool :: "bool reader" where
  "readBool r = rbind (readByte r) (\<lambda>(b, r). Inr (b = 1, r))"

lemma writeString_eq_Inr [result_simps]:
  "writeString s = Inr bs \<longleftrightarrow> length s \<le> 255 \<and> bs = word_of_nat (length s) # str_bytes s"
  by (auto simp: writeString_def)

lemma unat_short_length: "n \<le> 255 \<Longrightarrow> unat (word_of_nat n :: byte) = n"
  by (simp add: unat_of_nat)

lemma readString_append [wire_simps]:
  "length s \<le> 255 \<Longrightarrow> readString (word_of_nat (length s) # str_bytes s @ rest) = Inr (s, rest)"
  by (simp add: readString_def unat_short_length readFull_append)

lemma readString_exact [wire_simps]:
  "length s \<le> 255 \<Longrightarrow> readString (word_of_nat (length s) # str_bytes s) = Inr (s, [])"
  using readString_append [of s "[]"] by simp

lemma readFloat64_append [wire_simps]: "readFloat64 (writeFloat64 f @ rest) = Inr (f, rest)"
  and readInt64_append [wire_simps]: "readInt64 (writeInt64 v @ rest) = Inr (v, rest)"
  and readBool_append [wire_simps]: "readBool (writeBool b @ rest) = Inr (b, rest)"
  by (simp_all add: readFloat64_def writeFloat64_def readInt64_def writeInt64_def readBool_def
      writeBool_def readFull_append)

lemma read_exact [wire_simps]:
  "readFloat64 (writeFloat64 f) = Inr (f, [])" "readInt64 (writeInt64 v) = Inr (v, [])"
  "readBool (writeBool b) = Inr (b, [])"
  using readFloat64_append [of f "[]"] readInt64_append [of v "[]"] readBool_append [of b "[]"]
  by simp_all

lemma readString_consumes: "readString r = Inr (s, r') \<Longrightarrow> length r' < length r"
  by (cases r) (auto simp: readString_def result_simps)

section \<open>Record codecs\<close>

definition encodeAccountData :: "AccountData \<Rightarrow> bytes result" where
  "encodeAccountData a =
     rbind (writeString (adBankName a)) (\<lambda>b1.
     rbind (writeString (adBankID a)) (\<lambda>b2.
     rbind (writeString (adAccountNumber a)) (\<lambda>b3.
     rbind (writeString (adEntityID a)) (\<lambda>b4.
     rbind (writeString (adEntityName a)) (\<lambda>b5.
     Inr (b1 @ b2 @ b3 @ b4 @ b5))))))"

definition decodeAccountData :: "AccountData reader" where
  "decodeAccountData r =
     rbind (wrapf ''bank name'' [] (readString r)) (\<lambda>(bn, r).
     rbind (wrapf ''bank id'' [] (readString r)) (\<lambda>(bi, r).
     rbind (wrapf ''account number'' [] (readString r)) (\<lambda>(an, r).
     rbind (wrapf ''entity id'' [] (readString r)) (\<lambda>(ei, r).
     rbind (wrapf ''entity name'' [] (readString r)) (\<lambda>(en, r).
     Inr (\<lparr>adBankName = bn, adBankID = bi, adAccountNumber = an, adEntityID = ei,
           adEntityName = en\<rparr>, r))))))"

definition encodeTransactionAccount :: "string \<Rightarrow> string \<Rightarrow> bytes result" where
  "encodeTransactionAccount bank number =
     rbind (writeString bank) (\<lambda>b1. rbind (writeString number) (\<lambda>b2. Inr (b1 @ b2)))"

definition decodeTransactionAccount :: "(string \<times> string) reader" where
  "decodeTransactionAccount r =
     rbind (readString r) (\<lambda>(bank, r). rbind (readString r) (\<lambda>(number, r). Inr ((bank, number), r)))"

definition encodeMoney :: "float64 \<Rightarrow> string \<Rightarrow> bytes result" where
  "encodeMoney amount currency = rbind (writeString currency) (\<lambda>b. Inr (writeFloat64 amount @ b))"

definition decodeMoney :: "(float64 \<times> string) reader" where
  "decodeMoney r =
     rbind (readFloat64 r) (\<lambda>(amount, r). rbind (readString r) (\<lambda>(currency, r).
     Inr ((amount, currency), r)))"

definition encodeTransaction :: "Transaction \<Rightarrow> bytes result" where
  "encodeTransaction t =
     rbind (writeString (Timestamp t)) (\<lambda>b1.
     rbind (encodeTransactionAccount (FromBank t) (FromAccount t)) (\<lambda>b2.
     rbind (encodeTransactionAccount (ToBank t) (ToAccount t)) (\<lambda>b3.
     rbind (encodeMoney (AmountReceived t) (ReceivingCurrency t)) (\<lambda>b4.
     rbind (encodeMoney (AmountPaid t) (PaymentCurrency t)) (\<lambda>b5.
     rbind (writeString (PaymentFormat t)) (\<lambda>b6.
     Inr (b1 @ b2 @ b3 @ b4 @ b5 @ b6 @ writeBool (IsLaundering t))))))))"

definition decodeTransaction :: "Transaction reader" where
  "decodeTransaction r =
     rbind (readString r) (\<lambda>(ts, r).
     rbind (decodeTransactionAccount r) (\<lambda>((fb, fa), r).
     rbind (decodeTransactionAccount r) (\<lambda>((tb, ta), r).
     rbind (decodeMoney r) (\<lambda>((ar, rc), r).
     rbind (decodeMoney r) (\<lambda>((ap, pc), r).
     rbind (readString r) (\<lambda>(pf, r).
     rbind (readBool r) (\<lambda>(il, r).
     Inr (\<lparr>Timestamp = ts, FromBank = fb, FromAccount = fa, ToBank = tb, ToAccount = ta,
           AmountReceived = ar, ReceivingCurrency = rc, AmountPaid = ap, PaymentCurrency = pc,
           PaymentFormat = pf, IsLaundering = il\<rparr>, r))))))))"

definition encodeTxQ4PairCount :: "TxQ4PairCount \<Rightarrow> bytes result" where
  "encodeTxQ4PairCount pc =
     rbind (writeString (Src (pcKey pc))) (\<lambda>b1.
     rbind (writeString (Dst (pcKey pc))) (\<lambda>b2.
     Inr (b1 @ b2 @ writeInt64 (pcCount pc))))"

definition decodeTxQ4PairCount :: "TxQ4PairCount reader" where
  "decodeTxQ4PairCount r =
     rbind (wrapf ''pair source'' [] (readString r)) (\<lambda>(s, r).
     rbind (wrapf ''pair destination'' [] (readString r)) (\<lambda>(d, r).
     rbind (wrapf ''pair count'' [] (readInt64 r)) (\<lambda>(c, r).
     Inr (\<lparr>pcKey = \<lparr>Src = s, Dst = d\<rparr>, pcCount = c\<rparr>, r))))"

definition encodeQuery1Result :: "Query1Result \<Rightarrow> bytes result" where
  "encodeQuery1Result r =
     rbind (encodeTransactionAccount (q1FromBank r) (q1FromAccount r)) (\<lambda>b1.
     rbind (encodeTransactionAccount (q1ToBank r) (q1ToAccount r)) (\<lambda>b2.
     Inr (b1 @ b2 @ writeFloat64 (q1AmountPaid r))))"

definition decodeQuery1Result :: "Query1Result reader" where
  "decodeQuery1Result r =
     rbind (wrapf ''from account'' [] (decodeTransactionAccount r)) (\<lambda>((fb, fa), r).
     rbind (wrapf ''to account'' [] (decodeTransactionAccount r)) (\<lambda>((tb, ta), r).
     rbind (wrapf ''amount paid'' [] (readFloat64 r)) (\<lambda>(ap, r).
     Inr (\<lparr>q1FromBank = fb, q1FromAccount = fa, q1ToBank = tb, q1ToAccount = ta,
           q1AmountPaid = ap\<rparr>, r))))"

text \<open>
  The encoder of query 2 discards the error of \<open>writeString(buf, r.BankName)\<close>: a bank name of
  more than 255 bytes contributes no bytes at all and the encoding succeeds.
\<close>

definition encodeQuery2Result :: "Query2Result \<Rightarrow> bytes result" where
  "encodeQuery2Result r =
     rbind (encodeTransactionAccount (q2FromBank r) (q2FromAccount r)) (\<lambda>b1.
     Inr (b1 @ (case writeString (q2BankName r) of Inl _ \<Rightarrow> [] | Inr b \<Rightarrow> b)
             @ writeFloat64 (q2AmountPaid r)))"

definition decodeQuery2Result :: "Query2Result reader" where
  "decodeQuery2Result r =
     rbind (wrapf ''from account'' [] (decodeTransactionAccount r)) (\<lambda>((fb, fa), r).
     rbind (wrapf ''bank name'' [] (readString r)) (\<lambda>(bn, r).
     rbind (wrapf ''amount paid'' [] (readFloat64 r)) (\<lambda>(ap, r).
     Inr (\<lparr>q2FromBank = fb, q2FromAccount = fa, q2BankName = bn, q2AmountPaid = ap\<rparr>, r))))"

definition encodeQuery3Result :: "Query3Result \<Rightarrow> bytes result" where
  "encodeQuery3Result r =
     rbind (encodeTransactionAccount (q3FromBank r) (q3FromAccount r)) (\<lambda>b1.
     rbind (writeString (q3PaymentFormat r)) (\<lambda>b2.
     Inr (b1 @ b2 @ writeFloat64 (q3AmountPaid r))))"

definition decodeQuery3Result :: "Query3Result reader" where
  "decodeQuery3Result r =
     rbind (wrapf ''from account'' [] (decodeTransactionAccount r)) (\<lambda>((fb, fa), r).
     rbind (wrapf ''payment format'' [] (readString r)) (\<lambda>(pf, r).
     rbind (wrapf ''amount paid'' [] (readFloat64 r)) (\<lambda>(ap, r).
     Inr (\<lparr>q3FromBank = fb, q3FromAccount = fa, q3PaymentFormat = pf, q3AmountPaid = ap\<rparr>, r))))"

definition encodeQuery4Result :: "Account \<Rightarrow> bytes result" where
  "encodeQuery4Result a =
     rbind (writeString (BankID a)) (\<lambda>b1. rbind (writeString (ID a)) (\<lambda>b2. Inr (b1 @ b2)))"

definition decodeQuery4Result :: "Query4Result reader" where
  "decodeQuery4Result r =
     rbind (wrapf ''bank id'' [] (readString r)) (\<lambda>(b, r).
     rbind (wrapf ''id'' [] (readString r)) (\<lambda>(i, r).
     Inr (\<lparr>q4BankID = b, q4ID = i\<rparr>, r)))"

definition encodeQuery5Result :: "Query5Result \<Rightarrow> bytes result" where
  "encodeQuery5Result r = Inr (writeInt64 (q5Count r))"

definition decodeQuery5Result :: "Query5Result reader" where
  "decodeQuery5Result r =
     rbind (wrapf ''count'' [] (readInt64 r)) (\<lambda>(c, r). Inr (\<lparr>q5Count = c\<rparr>, r))"

section \<open>Batch framing\<close>

definition MaxUint16 :: nat where "MaxUint16 = 65535"

fun encodeItems :: "string \<Rightarrow> ('a \<Rightarrow> bytes result) \<Rightarrow> nat \<Rightarrow> 'a list \<Rightarrow> bytes result" where
  "encodeItems what enc i [] = Inr []"
| "encodeItems what enc i (x # xs) =
     rbind (wrapf (''encoding '' @ what) [i] (enc x)) (\<lambda>b.
     if length b > MaxUint16 then Inl (Errorf (what @ '' too large'') [i, length b, MaxUint16])
     else rbind (encodeItems what enc (Suc i) xs) (\<lambda>rest.
       Inr (PutUint16 (word_of_nat (length b)) @ b @ rest)))"

definition encodeBatch :: "string \<Rightarrow> ('a \<Rightarrow> bytes result) \<Rightarrow> 'a list \<Rightarrow> bytes result" where
  "encodeBatch what enc items =
     rbind (encodeItems what enc 0 items) (\<lambda>b. Inr (PutUint32 (word_of_nat (length items)) @ b))"

text \<open>The element decoder works on its own bounded reader; bytes it leaves unread are dropped.\<close>

fun decodeItems :: "string \<Rightarrow> 'a reader \<Rightarrow> nat \<Rightarrow> nat \<Rightarrow> bytes \<Rightarrow> 'a list result" where
  "decodeItems what dec 0 i r = Inr []"
| "decodeItems what dec (Suc n) i r =
     rbind (wrapf (''reading length of '' @ what) [i] (readFull 2 r)) (\<lambda>(lb, r).
     rbind (wrapf (''reading '' @ what @ '' body'') [i] (readFull (unat (Uint16 lb)) r)) (\<lambda>(body, r).
     rbind (wrapf (''decoding '' @ what) [i] (dec body)) (\<lambda>(x, _).
     rbind (decodeItems what dec n (Suc i) r) (\<lambda>xs. Inr (x # xs)))))"

definition decodeBatch :: "string \<Rightarrow> 'a reader \<Rightarrow> bytes \<Rightarrow> 'a list result" where
  "decodeBatch what dec payload =
     rbind (wrapf ''reading batch count'' [] (readFull 4 payload)) (\<lambda>(cb, r).
     decodeItems what dec (unat (Uint32 cb)) 0 r)"

definition EncodeAccountBatch :: "AccountData list \<Rightarrow> bytes result" where
  "EncodeAccountBatch = encodeBatch ''account'' encodeAccountData"

definition DecodeAccountBatch :: "bytes \<Rightarrow> AccountData list result" where
  "DecodeAccountBatch = decodeBatch ''account'' decodeAccountData"

definition EncodeTransactionBatch :: "Transaction list \<Rightarrow> bytes result" where
  "EncodeTransactionBatch = encodeBatch ''tx'' encodeTransaction"

definition DecodeTransactionBatch :: "bytes \<Rightarrow> Transaction list result" where
  "DecodeTransactionBatch = decodeBatch ''tx'' decodeTransaction"

definition EncodeQuery1ResultBatch :: "Query1Result list \<Rightarrow> bytes result" where
  "EncodeQuery1ResultBatch = encodeBatch ''result'' encodeQuery1Result"

definition DecodeQuery1ResultBatch :: "bytes \<Rightarrow> Query1Result list result" where
  "DecodeQuery1ResultBatch = decodeBatch ''result'' decodeQuery1Result"

definition EncodeQuery2ResultBatch :: "Query2Result list \<Rightarrow> bytes result" where
  "EncodeQuery2ResultBatch = encodeBatch ''result'' encodeQuery2Result"

definition DecodeQuery2ResultBatch :: "bytes \<Rightarrow> Query2Result list result" where
  "DecodeQuery2ResultBatch = decodeBatch ''result'' decodeQuery2Result"

definition EncodeQuery3ResultBatch :: "Query3Result list \<Rightarrow> bytes result" where
  "EncodeQuery3ResultBatch = encodeBatch ''result'' encodeQuery3Result"

definition DecodeQuery3ResultBatch :: "bytes \<Rightarrow> Query3Result list result" where
  "DecodeQuery3ResultBatch = decodeBatch ''result'' decodeQuery3Result"

definition DecodeQuery4ResultPayload :: "bytes \<Rightarrow> Query4Result list result" where
  "DecodeQuery4ResultPayload = decodeBatch ''result'' decodeQuery4Result"

definition EncodeQuery5Result :: "Query5Result \<Rightarrow> bytes result" where
  "EncodeQuery5Result r = encodeBatch ''result'' encodeQuery5Result [r]"

text \<open>
  \<open>DecodeQuery5Result\<close> evaluates \<open>result[0]\<close> before it looks at the error: on a decoding error, or
  on an empty batch, the index expression panics, which is \<open>None\<close> here.
\<close>

definition DecodeQuery5Result :: "bytes \<Rightarrow> Query5Result result option" where
  "DecodeQuery5Result payload =
     (case decodeBatch ''result'' decodeQuery5Result payload of
        Inl e \<Rightarrow> None
      | Inr [] \<Rightarrow> None
      | Inr (x # _) \<Rightarrow> Some (Inr x))"

section \<open>Contract of an element codec\<close>

locale wire_codec =
  fixes enc :: "'a \<Rightarrow> bytes result"
    and dec :: "'b reader"
    and out :: "'a \<Rightarrow> 'b"
    and ok :: "'a \<Rightarrow> bool"
  assumes dec_enc: "ok x \<Longrightarrow> enc x = Inr bs \<Longrightarrow> dec (bs @ rest) = Inr (out x, rest)"
begin

lemma dec_enc_exact: "ok x \<Longrightarrow> enc x = Inr bs \<Longrightarrow> dec bs = Inr (out x, [])"
  using dec_enc [of x bs "[]"] by simp

lemma decodeItems_encodeItems:
  "\<forall>x\<in>set xs. ok x \<Longrightarrow> encodeItems w enc i xs = Inr bs
    \<Longrightarrow> decodeItems w' dec (length xs) j (bs @ rest) = Inr (map out xs)"
proof (induction xs arbitrary: i j bs)
  case (Cons x xs)
  from Cons.prems obtain b bs' where b: "enc x = Inr b" "length b \<le> MaxUint16"
    and bs': "encodeItems w enc (Suc i) xs = Inr bs'"
    and bs: "bs = PutUint16 (word_of_nat (length b)) @ b @ bs'"
    by (auto simp: result_simps split: if_splits)
  have len: "unat (word_of_nat (length b) :: 16 word) = length b"
    using b(2) by (simp add: MaxUint16_def unat_of_nat)
  from Cons.IH [OF _ bs', of "Suc j"] Cons.prems(1)
  have "decodeItems w' dec (length xs) (Suc j) (bs' @ rest) = Inr (map out xs)" by simp
  moreover have "dec b = Inr (out x, [])"
    using dec_enc_exact [OF _ b(1)] Cons.prems(1) by simp
  ultimately show ?case
    by (simp add: bs readFull_append len)
qed simp

lemma decodeBatch_encodeBatch:
  assumes "\<forall>x\<in>set xs. ok x" "length xs < 2 ^ 32" "encodeBatch w enc xs = Inr bs"
  shows "decodeBatch w' dec (bs @ rest) = Inr (map out xs)"
proof -
  from assms(3) obtain body where body: "encodeItems w enc 0 xs = Inr body"
    and bs: "bs = PutUint32 (word_of_nat (length xs)) @ body"
    by (auto simp: encodeBatch_def result_simps)
  have "unat (word_of_nat (length xs) :: 32 word) = length xs"
    using assms(2) by (simp add: unat_of_nat)
  with decodeItems_encodeItems [OF assms(1) body] show ?thesis
    by (simp add: decodeBatch_def bs readFull_append)
qed

lemma decodeBatch_encodeBatch_exact:
  assumes "\<forall>x\<in>set xs. ok x" "length xs < 2 ^ 32" "encodeBatch w enc xs = Inr bs"
  shows "decodeBatch w' dec bs = Inr (map out xs)"
  using decodeBatch_encodeBatch [OF assms, of _ "[]"] by simp

end

lemmas account_wire_defs = encodeTransactionAccount_def decodeTransactionAccount_def
  encodeMoney_def decodeMoney_def

lemma decodeTransactionAccount_append [wire_simps]:
  "encodeTransactionAccount b n = Inr bs \<Longrightarrow> decodeTransactionAccount (bs @ rest) = Inr ((b, n), rest)"
  by (auto simp: account_wire_defs result_simps wire_simps)

interpretation accountData: wire_codec encodeAccountData decodeAccountData id "\<lambda>_. True"
  by unfold_locales
    (auto simp: encodeAccountData_def decodeAccountData_def result_simps wire_simps)

interpretation transaction: wire_codec encodeTransaction decodeTransaction id "\<lambda>_. True"
  by unfold_locales
    (auto simp: encodeTransaction_def decodeTransaction_def account_wire_defs result_simps wire_simps)

interpretation pairCount: wire_codec encodeTxQ4PairCount decodeTxQ4PairCount id "\<lambda>_. True"
  by unfold_locales
    (auto simp: encodeTxQ4PairCount_def decodeTxQ4PairCount_def result_simps wire_simps)

interpretation query1: wire_codec encodeQuery1Result decodeQuery1Result id "\<lambda>_. True"
  by unfold_locales
    (auto simp: encodeQuery1Result_def decodeQuery1Result_def account_wire_defs result_simps wire_simps)

interpretation query2: wire_codec encodeQuery2Result decodeQuery2Result id
  "\<lambda>r. length (q2BankName r) \<le> 255"
  by unfold_locales
    (auto simp: encodeQuery2Result_def decodeQuery2Result_def account_wire_defs writeString_def
      result_simps wire_simps split: if_splits)

interpretation query3: wire_codec encodeQuery3Result decodeQuery3Result id "\<lambda>_. True"
  by unfold_locales
    (auto simp: encodeQuery3Result_def decodeQuery3Result_def account_wire_defs result_simps wire_simps)

interpretation query4: wire_codec encodeQuery4Result decodeQuery4Result
  "\<lambda>a. \<lparr>q4BankID = BankID a, q4ID = ID a\<rparr>" "\<lambda>_. True"
  by unfold_locales
    (auto simp: encodeQuery4Result_def decodeQuery4Result_def result_simps wire_simps)

interpretation query5: wire_codec encodeQuery5Result decodeQuery5Result id "\<lambda>_. True"
  by unfold_locales (auto simp: encodeQuery5Result_def decodeQuery5Result_def wire_simps)

end
