(* ===== verification/Envelope.thy ===== *)
theory Envelope
  imports Codec
begin

text \<open>
  The envelopes of \<open>common/protocol/codec/codec.go\<close>: the external header, the internal envelope
  with its legacy (pre-MsgID) layout, the in-place stamping of a message id, the EOF counts and the
  query-4 payloads. Fixed-size Go arrays (\<open>uuid.UUID\<close>, \<open>protocol.MsgID\<close>) are byte lists whose
  length 16 is part of \<open>wf_envelope\<close>.
\<close>

section \<open>Headers and envelopes\<close>

definition InternalHeaderSize :: nat where "InternalHeaderSize = 37"
definition oldInternalHeaderSize :: nat where "oldInternalHeaderSize = 21"
definition ExternalHeaderSize :: nat where "ExternalHeaderSize = 5"

lemmas header_size_defs = InternalHeaderSize_def oldInternalHeaderSize_def ExternalHeaderSize_def

definition slice :: "nat \<Rightarrow> nat \<Rightarrow> bytes \<Rightarrow> bytes" where
  "slice a b xs = take (b - a) (drop a xs)"

definition EncodeExternalEnvelope :: "ExternalEnvelope \<Rightarrow> bytes" where
  "EncodeExternalEnvelope e =
     [eMsgType e] @ PutUint32 (word_of_nat (length (ePayload e))) @ ePayload e"

text \<open>\<open>DecodeExternalHeader\<close> indexes its argument: a header of fewer than 5 bytes panics.\<close>

definition DecodeExternalHeader :: "bytes \<Rightarrow> (MsgType \<times> 32 word) option" where
  "DecodeExternalHeader header =
     (if length header < 5 then None else Some (header ! 0, Uint32 (slice 1 5 header)))"

definition EncodeInternalEnvelope :: "InternalEnvelope \<Rightarrow> bytes" where
  "EncodeInternalEnvelope e =
     [MsgType e] @ ClientId e @ MsgID e @ PutUint32 (word_of_nat (length (Payload e))) @ Payload e"

text \<open>\<open>uuid.FromBytes\<close> fails only on a slice that is not 16 bytes long; the slices here are.\<close>

definition DecodeInternalHeader :: "bytes \<Rightarrow> MsgType \<times> uuid \<times> MsgID \<times> 32 word" where
  "DecodeInternalHeader h = (h ! 0, slice 1 17 h, slice 17 33 h, Uint32 (slice 33 37 h))"

text \<open>
  \<open>InternalHeaderSize+payloadLen\<close> is \<open>uint32\<close> arithmetic; when it wraps, the slice expression's
  upper bound is below its lower bound and panics (\<open>None\<close>).
\<close>

definition envelopeSlice :: "nat \<Rightarrow> 32 word \<Rightarrow> bytes \<Rightarrow> bytes option" where
  "envelopeSlice hdr plen message =
     (let end = unat (word_of_nat hdr + plen) in
      if end < hdr then None else Some (slice hdr end message))"

definition DecodeInternalEnvelope :: "bytes \<Rightarrow> InternalEnvelope result option" where
  "DecodeInternalEnvelope message =
     (let (mt, cid, mid, plen) = DecodeInternalHeader (take InternalHeaderSize message) in
      if length message \<ge> InternalHeaderSize
         \<and> plen \<le> word_of_nat (length message - InternalHeaderSize)
      then map_option (\<lambda>p. Inr \<lparr>MsgType = mt, ClientId = cid, MsgID = mid, Payload = p\<rparr>)
             (envelopeSlice InternalHeaderSize plen message)
      else
        (let oldLen = Uint32 (slice 17 21 message) in
         if length message \<ge> oldInternalHeaderSize
            \<and> oldLen \<le> word_of_nat (length message - oldInternalHeaderSize)
         then map_option (\<lambda>p. Inr \<lparr>MsgType = message ! 0, ClientId = slice 1 17 message,
                                   MsgID = zeroMsgID, Payload = p\<rparr>)
                (envelopeSlice oldInternalHeaderSize oldLen message)
         else Some (Inl (Errorf ''internal envelope too short'' [length message, InternalHeaderSize]))))"

definition SetEnvelopeMsgID :: "bytes \<Rightarrow> MsgID \<Rightarrow> bytes" where
  "SetEnvelopeMsgID envelope i =
     (if length envelope < InternalHeaderSize then envelope
      else take 17 envelope @ i @ drop 33 envelope)"

definition wf_envelope :: "InternalEnvelope \<Rightarrow> bool" where
  "wf_envelope e \<longleftrightarrow>
     length (ClientId e) = 16 \<and> length (MsgID e) = 16 \<and> length (Payload e) < 2 ^ 32 - 37"

text \<open>The pre-MsgID layout, as older producers framed it.\<close>

definition legacyEnvelope :: "MsgType \<Rightarrow> uuid \<Rightarrow> bytes \<Rightarrow> bytes" where
  "legacyEnvelope mt cid payload =
     [mt] @ cid @ PutUint32 (word_of_nat (length payload)) @ payload"

section \<open>EOF counts\<close>

fun encodeCountEntries :: "(KeyType, goint) gomap \<Rightarrow> KeyType list \<Rightarrow> bytes result" where
  "encodeCountEntries counts [] = Inr []"
| "encodeCountEntries counts (k # ks) =
     rbind (wrapf ''encoding eof count key'' [] (writeString k)) (\<lambda>b.
     rbind (encodeCountEntries counts ks) (\<lambda>rest.
     Inr (b @ writeInt64 (mgetd 0 counts k) @ rest)))"

definition EncodeEOFCounts :: "(KeyType, goint) gomap \<Rightarrow> bytes result" where
  "EncodeEOFCounts counts =
     rbind (encodeCountEntries counts (sort (map fst counts))) (\<lambda>b.
     Inr (PutUint32 (word_of_nat (length counts)) @ b))"

fun decodeCountEntries ::
  "nat \<Rightarrow> nat \<Rightarrow> (KeyType, goint) gomap \<Rightarrow> bytes \<Rightarrow> (KeyType, goint) gomap result" where
  "decodeCountEntries 0 i counts r = Inr counts"
| "decodeCountEntries (Suc n) i counts r =
     rbind (wrapf ''reading eof count key'' [i] (readString r)) (\<lambda>(key, r).
     rbind (wrapf ''reading eof count value'' [] (readInt64 r)) (\<lambda>(v, r).
     decodeCountEntries n (Suc i) (mput key v counts) r))"

definition DecodeEOFCounts :: "bytes \<Rightarrow> (KeyType, goint) gomap result" where
  "DecodeEOFCounts payload =
     rbind (wrapf ''reading eof counts length'' [] (readFull 4 payload)) (\<lambda>(cb, r).
     decodeCountEntries (unat (Uint32 cb)) 0 [] r)"

definition IsFlushEOF :: "(KeyType, goint) gomap \<Rightarrow> bool" where
  "IsFlushEOF counts \<longleftrightarrow> list_ex (\<lambda>(k, v). v = -1) counts"

definition internalEnvelope :: "MsgType \<Rightarrow> uuid \<Rightarrow> bytes \<Rightarrow> InternalEnvelope" where
  "internalEnvelope mt cid p = \<lparr>MsgType = mt, ClientId = cid, MsgID = zeroMsgID, Payload = p\<rparr>"

definition EncodeEOFCountsEnvelope :: "uuid \<Rightarrow> (KeyType, goint) gomap \<Rightarrow> bytes result" where
  "EncodeEOFCountsEnvelope clientId counts =
     rbind (wrapf ''encoding EOF counts'' [] (EncodeEOFCounts counts)) (\<lambda>p.
     Inr (EncodeInternalEnvelope (internalEnvelope MsgTransactionsEOF clientId p)))"

section \<open>Query 4 payloads\<close>

definition EncodeTxQ4PhaseOneBatchEnvelope ::
  "uuid \<Rightarrow> TypeTxQ4 \<Rightarrow> Transaction list \<Rightarrow> bytes result" where
  "EncodeTxQ4PhaseOneBatchEnvelope clientId txType txs =
     rbind (wrapf ''failed to encode TxQ4 batch type'' [] (writeString txType)) (\<lambda>b.
     rbind (wrapf ''failed to encode TxQ4 batch transactions'' [] (EncodeTransactionBatch txs)) (\<lambda>tb.
     Inr (EncodeInternalEnvelope (internalEnvelope MsgTxQ4 clientId (b @ tb)))))"

definition DecodeTxQ4PhaseOneBatch :: "bytes \<Rightarrow> (TypeTxQ4 \<times> Transaction list) result" where
  "DecodeTxQ4PhaseOneBatch payload =
     rbind (wrapf ''failed to read TxQ4 batch type'' [] (readString payload)) (\<lambda>(ty, r).
     rbind (wrapf ''failed to decode TxQ4 batch transactions'' [] (DecodeTransactionBatch r)) (\<lambda>txs.
     Inr (ty, txs)))"

definition EncodeTxQ4PhaseTwoBatchEnvelope :: "uuid \<Rightarrow> TxQ4PairCount list \<Rightarrow> bytes result" where
  "EncodeTxQ4PhaseTwoBatchEnvelope clientId pairs =
     rbind (wrapf ''failed to encode TxQ4 phase-two batch'' []
              (encodeBatch ''result'' encodeTxQ4PairCount pairs)) (\<lambda>p.
     Inr (EncodeInternalEnvelope (internalEnvelope MsgTxQ4 clientId p)))"

definition DecodeTxQ4PhaseTwoBatch :: "bytes \<Rightarrow> TxQ4PairCount list result" where
  "DecodeTxQ4PhaseTwoBatch = decodeBatch ''result'' decodeTxQ4PairCount"

text \<open>
  Phase three carries a map from pair keys to entries, written in key order. The count is an
  \<open>int64\<close>; the reading loop \<open>for i := int64(0); i < count; i++\<close> does not run for a negative one.
\<close>

type_synonym TxQ4PhaseThree = "(string, TxQ4PairEntry) gomap"

definition encodePairEntry :: "string \<Rightarrow> TxQ4PairEntry \<Rightarrow> bytes result" where
  "encodePairEntry k e =
     rbind (writeString k) (\<lambda>b1.
     rbind (encodeTransactionAccount (BankID (SrcAccount e)) (ID (SrcAccount e))) (\<lambda>b2.
     rbind (encodeTransactionAccount (BankID (DstAccount e)) (ID (DstAccount e))) (\<lambda>b3.
     Inr (b1 @ writeInt64 (peCount e) @ b2 @ b3))))"

fun encodePairEntries :: "TxQ4PhaseThree \<Rightarrow> string list \<Rightarrow> bytes result" where
  "encodePairEntries m [] = Inr []"
| "encodePairEntries m (k # ks) =
     (case mget m k of
        None \<Rightarrow> Inl (Errorf ''panic: nil entry'' [])
      | Some e \<Rightarrow> rbind (encodePairEntry k e) (\<lambda>b. rbind (encodePairEntries m ks) (\<lambda>rest. Inr (b @ rest))))"

definition encodeTxQ4PhaseThree :: "TxQ4PhaseThree \<Rightarrow> bytes result" where
  "encodeTxQ4PhaseThree m =
     rbind (encodePairEntries m (sort (map fst m))) (\<lambda>b. Inr (writeInt64 (word_of_nat (length m)) @ b))"

definition EncodeTxQ4PhaseThreeEnvelope :: "uuid \<Rightarrow> TxQ4PhaseThree \<Rightarrow> bytes result" where
  "EncodeTxQ4PhaseThreeEnvelope clientId m =
     rbind (wrapf ''failed to encode TxQ4PhaseThree'' [] (encodeTxQ4PhaseThree m)) (\<lambda>p.
     Inr (EncodeInternalEnvelope (internalEnvelope MsgTxQ4 clientId p)))"

fun decodePairEntries :: "nat \<Rightarrow> nat \<Rightarrow> TxQ4PhaseThree \<Rightarrow> bytes \<Rightarrow> TxQ4PhaseThree result" where
  "decodePairEntries 0 i m r = Inr m"
| "decodePairEntries (Suc n) i m r =
     rbind (wrapf ''failed to read key of entry'' [i] (readString r)) (\<lambda>(key, r).
     rbind (wrapf ''failed to read count of entry'' [i] (readInt64 r)) (\<lambda>(c, r).
     rbind (wrapf ''failed to decode source account of entry'' [i] (decodeTransactionAccount r))
       (\<lambda>((sb, sa), r).
     rbind (wrapf ''failed to decode destination account of entry'' [i] (decodeTransactionAccount r))
       (\<lambda>((db, da), r).
     decodePairEntries n (Suc i)
       (mput key \<lparr>peCount = c, SrcAccount = \<lparr>BankID = sb, ID = sa\<rparr>,
                  DstAccount = \<lparr>BankID = db, ID = da\<rparr>\<rparr> m) r))))"

definition DecodeTxQ4PhaseThreeEnvelope :: "bytes \<Rightarrow> TxQ4PhaseThree result" where
  "DecodeTxQ4PhaseThreeEnvelope payload =
     rbind (wrapf ''failed to read count in TxQ4PhaseThree'' [] (readInt64 payload)) (\<lambda>(c, r).
     decodePairEntries (nat (sint c)) 0 [] r)"

fun encodeAccountList :: "string \<Rightarrow> Account list \<Rightarrow> bytes result" where
  "encodeAccountList what [] = Inr []"
| "encodeAccountList what (a # as) =
     rbind (wrapf what [] (encodeTransactionAccount (BankID a) (ID a))) (\<lambda>b.
     rbind (encodeAccountList what as) (\<lambda>rest. Inr (b @ rest)))"

definition EncodeAccountsEnvelope :: "uuid \<Rightarrow> Account list \<Rightarrow> bytes result" where
  "EncodeAccountsEnvelope clientID accounts =
     rbind (encodeAccountList ''encoding account'' accounts) (\<lambda>p.
     Inr (EncodeInternalEnvelope (internalEnvelope MsgTxAccounts clientID p)))"

lemma decodeTransactionAccount_consumes:
  "decodeTransactionAccount r = Inr (x, r') \<Longrightarrow> length r' < length r"
  unfolding decodeTransactionAccount_def result_simps
  by (auto simp: result_simps dest!: readString_consumes)

text \<open>\<open>for r.Len() > 0\<close>: the loop ends because every account consumes at least two bytes.\<close>

function decodeAccountsLoop :: "bytes \<Rightarrow> Account list result" where
  "decodeAccountsLoop r =
     (if r = [] then Inr []
      else rbind (wrapf ''decoding account'' [] (decodeTransactionAccount r)) (\<lambda>(acc, r').
           rbind (decodeAccountsLoop r') (\<lambda>as. Inr (\<lparr>BankID = fst acc, ID = snd acc\<rparr> # as))))"
  by pat_completeness auto
termination
  by (relation "measure length") (auto simp: result_simps dest!: decodeTransactionAccount_consumes)

declare decodeAccountsLoop.simps [simp del]

definition DecodeAccountsEnvelope :: "bytes \<Rightarrow> Account list result" where
  "DecodeAccountsEnvelope payload = decodeAccountsLoop payload"

definition EncodeQ4HeavyBatchEnvelope ::
  "uuid \<Rightarrow> goint \<Rightarrow> byte \<Rightarrow> Account list \<Rightarrow> bytes result" where
  "EncodeQ4HeavyBatchEnvelope clientID senderID role accounts =
     rbind (encodeAccountList ''encoding heavy account'' accounts) (\<lambda>b.
     Inr (EncodeInternalEnvelope (internalEnvelope MsgQ4HeavyBatch clientID
       (writeInt64 senderID @ [role] @ PutUint32 (word_of_nat (length accounts)) @ b))))"

fun decodeAccountsN :: "nat \<Rightarrow> nat \<Rightarrow> bytes \<Rightarrow> Account list result" where
  "decodeAccountsN 0 i r = Inr []"
| "decodeAccountsN (Suc n) i r =
     rbind (wrapf ''decoding heavy account'' [i] (decodeTransactionAccount r)) (\<lambda>((b, a), r).
     rbind (decodeAccountsN n (Suc i) r) (\<lambda>as. Inr (\<lparr>BankID = b, ID = a\<rparr> # as)))"

definition DecodeQ4HeavyBatch :: "bytes \<Rightarrow> (goint \<times> byte \<times> Account list) result" where
  "DecodeQ4HeavyBatch payload =
     rbind (wrapf ''reading heavy batch sender id'' [] (readInt64 payload)) (\<lambda>(sid, r).
     rbind (wrapf ''reading heavy batch role'' [] (readByte r)) (\<lambda>(role, r).
     rbind (wrapf ''reading heavy batch count'' [] (readFull 4 r)) (\<lambda>(cb, r).
     rbind (decodeAccountsN (unat (Uint32 cb)) 0 r) (\<lambda>as. Inr (sid, role, as)))))"

definition EncodeQ4HeavyDoneEnvelope :: "uuid \<Rightarrow> goint \<Rightarrow> bytes result" where
  "EncodeQ4HeavyDoneEnvelope clientID senderID =
     Inr (EncodeInternalEnvelope (internalEnvelope MsgQ4HeavyDone clientID (writeInt64 senderID)))"

definition DecodeQ4HeavyDone :: "bytes \<Rightarrow> goint result" where
  "DecodeQ4HeavyDone payload =
     rbind (wrapf ''reading heavy done sender id'' [] (readInt64 payload)) (\<lambda>(sid, _). Inr sid)"

text \<open>The result set of query 4 is a Go map used as a set; the list is its iteration order.\<close>

definition EncodeQuery4ResultEnvelope :: "uuid \<Rightarrow> Account list \<Rightarrow> bytes result" where
  "EncodeQuery4ResultEnvelope clientId results =
     rbind (encodeBatch ''result'' encodeQuery4Result results) (\<lambda>p.
     Inr (EncodeInternalEnvelope (internalEnvelope MsgQuery4Result clientId p)))"

section \<open>Lemmas\<close>

lemma length_EncodeInternalEnvelope:
  "wf_envelope e \<Longrightarrow> length (EncodeInternalEnvelope e) = 37 + length (Payload e)"
  by (simp add: EncodeInternalEnvelope_def wf_envelope_def)

lemma DecodeInternalHeader_Encode:
  assumes "length c = 16" "length i = 16" "length l = 4"
  shows "DecodeInternalHeader (t # c @ i @ l) = (t, c, i, Uint32 l)"
  using assms by (simp add: DecodeInternalHeader_def slice_def)

lemma envelopeSlice_exact:
  assumes "length h = hdr" "hdr + length p < 2 ^ 32"
  shows "envelopeSlice hdr (word_of_nat (length p)) (h @ p) = Some p"
proof -
  have "unat (word_of_nat hdr + word_of_nat (length p) :: 32 word) = hdr + length p"
    using assms(2) by (simp add: unat_of_nat flip: of_nat_add)
  with assms(1) show ?thesis by (simp add: envelopeSlice_def slice_def)
qed

lemma DecodeInternalEnvelope_Encode:
  assumes "wf_envelope e"
  shows "DecodeInternalEnvelope (EncodeInternalEnvelope e) = Some (Inr e)"
proof -
  define l where "l = PutUint32 (word_of_nat (length (Payload e)))"
  define h where "h = MsgType e # ClientId e @ MsgID e @ l"
  from assms have len: "length (ClientId e) = 16" "length (MsgID e) = 16"
    and p: "length (Payload e) < 2 ^ 32 - 37"
    by (simp_all add: wf_envelope_def)
  have h: "length h = InternalHeaderSize" by (simp add: h_def l_def len InternalHeaderSize_def)
  have m: "EncodeInternalEnvelope e = h @ Payload e"
    by (simp add: EncodeInternalEnvelope_def h_def l_def)
  have hd: "DecodeInternalHeader h = (MsgType e, ClientId e, MsgID e, word_of_nat (length (Payload e)))"
    unfolding h_def by (subst DecodeInternalHeader_Encode) (simp_all add: len l_def)
  have "envelopeSlice InternalHeaderSize (word_of_nat (length (Payload e))) (h @ Payload e)
          = Some (Payload e)"
    using p by (intro envelopeSlice_exact h) (simp add: InternalHeaderSize_def)
  then show ?thesis
    unfolding m DecodeInternalEnvelope_def by (simp add: h hd)
qed

lemma SetEnvelopeMsgID_Encode:
  assumes "wf_envelope e"
  shows "SetEnvelopeMsgID (EncodeInternalEnvelope e) i = EncodeInternalEnvelope (e\<lparr>MsgID := i\<rparr>)"
  using assms length_EncodeInternalEnvelope [OF assms]
  by (simp add: SetEnvelopeMsgID_def InternalHeaderSize_def wf_envelope_def EncodeInternalEnvelope_def)

lemma DecodeInternalEnvelope_legacy:
  assumes "length cid = 16" "length p < 16"
  shows "DecodeInternalEnvelope (legacyEnvelope mt cid p) = Some (Inr (internalEnvelope mt cid p))"
proof -
  define h where "h = mt # cid @ PutUint32 (word_of_nat (length p))"
  have h: "length h = oldInternalHeaderSize" by (simp add: h_def assms oldInternalHeaderSize_def)
  have m: "legacyEnvelope mt cid p = h @ p" by (simp add: legacyEnvelope_def h_def)
  have lens: "slice 17 21 (h @ p) = PutUint32 (word_of_nat (length p))"
    and cid: "slice 1 17 (h @ p) = cid" and hd: "(h @ p) ! 0 = mt"
    by (simp_all add: h_def slice_def assms)
  have sl: "envelopeSlice oldInternalHeaderSize (word_of_nat (length p)) (h @ p) = Some p"
    using assms(2) by (intro envelopeSlice_exact h) (simp add: oldInternalHeaderSize_def)
  have short: "\<not> length (h @ p) \<ge> InternalHeaderSize"
    using assms(2) h by (simp add: header_size_defs)
  show ?thesis
    unfolding m DecodeInternalEnvelope_def
    by (simp add: short lens cid hd sl h internalEnvelope_def del: length_append nth_append_left
        split: prod.splits)
      (use sl cid hd in \<open>simp add: h\<close>)
qed

subsection \<open>EOF counts\<close>

lemma encodeCountEntries_cong:
  "map_of m = map_of m' \<Longrightarrow> encodeCountEntries m ks = encodeCountEntries m' ks"
  by (induction ks) (simp_all add: mgetd_def)

lemma wf_map_keys_eq:
  assumes "wf_map m" "wf_map m'" "map_of m = map_of m'"
  shows "mset (map fst m) = mset (map fst m')"
proof -
  have "set (map fst m) = set (map fst m')"
    using assms(3) by (metis dom_map_of_conv_image_fst list.set_map)
  with assms(1,2) show ?thesis
    unfolding wf_map_def using set_eq_iff_mset_eq_distinct by blast
qed

lemma EncodeEOFCounts_order_independent:
  assumes "wf_map m" "wf_map m'" "map_of m = map_of m'"
  shows "EncodeEOFCounts m = EncodeEOFCounts m'"
proof -
  note ks = wf_map_keys_eq [OF assms]
  then have "sort (map fst m) = sort (map fst m')" by (metis properties_for_sort sorted_sort mset_sort)
  moreover have "length m = length m'" using ks by (metis length_map size_mset)
  ultimately show ?thesis
    by (simp add: EncodeEOFCounts_def encodeCountEntries_cong [OF assms(3)])
qed

lemma decodeCountEntries_encode:
  "encodeCountEntries m ks = Inr bs \<Longrightarrow> length ks = n
    \<Longrightarrow> decodeCountEntries n i acc (bs @ rest) = Inr (foldl (\<lambda>a k. mput k (mgetd 0 m k) a) acc ks)"
proof (induction ks arbitrary: n i acc bs)
  case (Cons k ks)
  then obtain n' where n: "n = Suc n'" "length ks = n'" by auto
  from Cons.prems(1) obtain bs' where k: "length k \<le> 255"
    and bs': "encodeCountEntries m ks = Inr bs'"
    and bs: "bs = (word_of_nat (length k) # str_bytes k) @ writeInt64 (mgetd 0 m k) @ bs'"
    by (auto simp: result_simps)
  show ?case
    using Cons.IH [OF bs' n(2)] k by (simp add: n(1) bs wire_simps)
qed simp

lemma map_of_foldl_mput:
  "map_of (foldl (\<lambda>a k. mput k (f k) a) acc ks) x = (if x \<in> set ks then Some (f x) else map_of acc x)"
  by (induction ks arbitrary: acc) auto

lemma wf_map_foldl_mput: "wf_map acc \<Longrightarrow> wf_map (foldl (\<lambda>a k. mput k (f k) a) acc ks)"
  by (induction ks arbitrary: acc) auto

lemma DecodeEOFCounts_Encode:
  assumes "length m < 2 ^ 32" "EncodeEOFCounts m = Inr bs"
  shows "DecodeEOFCounts (bs @ rest)
           = Inr (foldl (\<lambda>a k. mput k (mgetd 0 m k) a) [] (sort (map fst m)))"
proof -
  from assms(2) obtain b where b: "encodeCountEntries m (sort (map fst m)) = Inr b"
    and bs: "bs = PutUint32 (word_of_nat (length m)) @ b"
    by (auto simp: EncodeEOFCounts_def result_simps)
  have "unat (word_of_nat (length m) :: 32 word) = length m"
    using assms(1) by (simp add: unat_of_nat)
  with decodeCountEntries_encode [OF b, of "length m"] show ?thesis
    by (simp add: DecodeEOFCounts_def bs readFull_append)
qed

lemma DecodeEOFCounts_Encode_map:
  assumes "length m < 2 ^ 32" "EncodeEOFCounts m = Inr bs"
  shows "\<exists>m'. DecodeEOFCounts bs = Inr m' \<and> map_of m' = map_of m \<and> wf_map m'"
proof (intro exI conjI)
  show "DecodeEOFCounts bs = Inr (foldl (\<lambda>a k. mput k (mgetd 0 m k) a) [] (sort (map fst m)))"
    using DecodeEOFCounts_Encode [OF assms, of "[]"] by simp
  show "map_of (foldl (\<lambda>a k. mput k (mgetd 0 m k) a) [] (sort (map fst m))) = map_of m"
  proof
    fix x
    have "x \<in> set (map fst m) \<longleftrightarrow> map_of m x \<noteq> None" by (simp add: map_of_eq_None_iff)
    then show "map_of (foldl (\<lambda>a k. mput k (mgetd 0 m k) a) [] (sort (map fst m))) x = map_of m x"
      by (auto simp: map_of_foldl_mput mgetd_def split: option.splits)
  qed
qed (simp add: wf_map_foldl_mput)

lemma IsFlushEOF_map: "wf_map m \<Longrightarrow> IsFlushEOF m \<longleftrightarrow> (\<exists>k. map_of m k = Some (-1))"
  by (force simp: IsFlushEOF_def list_ex_iff wf_map_def)

subsection \<open>Query 4\<close>

lemma DecodeTxQ4PhaseOneBatch_Encode:
  assumes "EncodeTxQ4PhaseOneBatchEnvelope cid ty txs = Inr bs" "length txs < 2 ^ 32"
  obtains p where "bs = EncodeInternalEnvelope (internalEnvelope MsgTxQ4 cid p)"
    "DecodeTxQ4PhaseOneBatch p = Inr (ty, txs)"
proof -
  from assms(1) obtain tb where tb: "EncodeTransactionBatch txs = Inr tb" and ty: "length ty \<le> 255"
    and bs: "bs = EncodeInternalEnvelope (internalEnvelope MsgTxQ4 cid
                    ((word_of_nat (length ty) # str_bytes ty) @ tb))"
    by (auto simp: EncodeTxQ4PhaseOneBatchEnvelope_def result_simps)
  have "DecodeTransactionBatch tb = Inr txs"
    using transaction.decodeBatch_encodeBatch_exact [OF _ assms(2)] tb
    by (simp add: EncodeTransactionBatch_def DecodeTransactionBatch_def)
  then have "DecodeTxQ4PhaseOneBatch ((word_of_nat (length ty) # str_bytes ty) @ tb) = Inr (ty, txs)"
    using ty by (simp add: DecodeTxQ4PhaseOneBatch_def wire_simps)
  with bs show ?thesis by (rule that)
qed

lemma decodeAccountsLoop_encode:
  "encodeAccountList w as = Inr bs \<Longrightarrow> decodeAccountsLoop bs = Inr as"
proof (induction as arbitrary: bs)
  case Nil
  then show ?case by (simp add: decodeAccountsLoop.simps)
next
  case (Cons a as)
  from Cons.prems obtain b bs' where b: "encodeTransactionAccount (BankID a) (ID a) = Inr b"
    and bs': "encodeAccountList w as = Inr bs'" and bs: "bs = b @ bs'"
    by (auto simp: result_simps)
  from b have ne: "b \<noteq> []" by (auto simp: encodeTransactionAccount_def result_simps)
  show ?case
    using Cons.IH [OF bs'] ne
    by (subst decodeAccountsLoop.simps)
      (simp add: bs decodeTransactionAccount_append [OF b])
qed

lemma decodeAccountsN_encode:
  "encodeAccountList w as = Inr bs \<Longrightarrow> decodeAccountsN (length as) i (bs @ rest) = Inr as"
proof (induction as arbitrary: bs i)
  case (Cons a as)
  from Cons.prems obtain b bs' where b: "encodeTransactionAccount (BankID a) (ID a) = Inr b"
    and bs': "encodeAccountList w as = Inr bs'" and bs: "bs = b @ bs'"
    by (auto simp: result_simps)
  show ?case
    using Cons.IH [OF bs'] by (simp add: bs decodeTransactionAccount_append [OF b])
qed simp

lemma DecodeQ4HeavyBatch_Encode:
  assumes "EncodeQ4HeavyBatchEnvelope cid sid role as = Inr bs" "length as < 2 ^ 32"
  obtains p where "bs = EncodeInternalEnvelope (internalEnvelope MsgQ4HeavyBatch cid p)"
    "DecodeQ4HeavyBatch p = Inr (sid, role, as)"
proof -
  from assms(1) obtain b where b: "encodeAccountList ''encoding heavy account'' as = Inr b"
    and bs: "bs = EncodeInternalEnvelope (internalEnvelope MsgQ4HeavyBatch cid
               (writeInt64 sid @ [role] @ PutUint32 (word_of_nat (length as)) @ b))"
    by (auto simp: EncodeQ4HeavyBatchEnvelope_def result_simps)
  have "unat (word_of_nat (length as) :: 32 word) = length as"
    using assms(2) by (simp add: unat_of_nat)
  with decodeAccountsN_encode [OF b, of 0 "[]"]
  have "DecodeQ4HeavyBatch (writeInt64 sid @ [role] @ PutUint32 (word_of_nat (length as)) @ b)
          = Inr (sid, role, as)"
    by (simp add: DecodeQ4HeavyBatch_def wire_simps)
  with bs show ?thesis by (rule that)
qed

lemma Account_eta [simp]: "\<lparr>BankID = BankID a, ID = ID a\<rparr> = a"
  and PairEntry_eta [simp]: "\<lparr>peCount = peCount e, SrcAccount = SrcAccount e, DstAccount = DstAccount e\<rparr> = e"
  by simp_all

lemma decodePairEntries_encode:
  "encodePairEntries m ks = Inr bs \<Longrightarrow> length ks = n \<Longrightarrow>
   decodePairEntries n i acc (bs @ rest) = Inr (foldl (\<lambda>a k. mput k (the (mget m k)) a) acc ks)"
proof (induction ks arbitrary: n i acc bs)
  case (Cons k ks)
  then obtain n' where n: "n = Suc n'" "length ks = n'" by auto
  from Cons.prems(1) obtain e b bs' where e: "mget m k = Some e" and b: "encodePairEntry k e = Inr b"
    and bs': "encodePairEntries m ks = Inr bs'" and bs: "bs = b @ bs'"
    by (auto simp: result_simps split: option.splits)
  from b obtain b2 b3 where k: "length k \<le> 255"
    and b2: "encodeTransactionAccount (BankID (SrcAccount e)) (ID (SrcAccount e)) = Inr b2"
    and b3: "encodeTransactionAccount (BankID (DstAccount e)) (ID (DstAccount e)) = Inr b3"
    and bb: "b = (word_of_nat (length k) # str_bytes k) @ writeInt64 (peCount e) @ b2 @ b3"
    by (auto simp: encodePairEntry_def result_simps)
  show ?case
    using Cons.IH [OF bs' n(2)] k
    by (simp add: n(1) bs bb e wire_simps decodeTransactionAccount_append [OF b2]
        decodeTransactionAccount_append [OF b3])
qed simp

lemma DecodeTxQ4PhaseThree_Encode:
  assumes "length m < 2 ^ 63" "encodeTxQ4PhaseThree m = Inr bs"
  shows "\<exists>m'. DecodeTxQ4PhaseThreeEnvelope bs = Inr m' \<and> map_of m' = map_of m \<and> wf_map m'"
proof -
  let ?m' = "foldl (\<lambda>a k. mput k (the (mget m k)) a) [] (sort (map fst m))"
  from assms(2) obtain b where b: "encodePairEntries m (sort (map fst m)) = Inr b"
    and bs: "bs = writeInt64 (word_of_nat (length m)) @ b"
    by (auto simp: encodeTxQ4PhaseThree_def result_simps)
  have c: "nat (sint (word_of_nat (length m) :: 64 word)) = length m"
    using assms(1) by (simp add: sint_uint signed_take_bit_int_eq_self unsigned_of_nat take_bit_nat_eq_self)
  have "DecodeTxQ4PhaseThreeEnvelope bs = Inr ?m'"
    using decodePairEntries_encode [OF b, of "length m" 0 "[]" "[]"] c
    by (simp add: DecodeTxQ4PhaseThreeEnvelope_def bs wire_simps)
  moreover have "map_of ?m' = map_of m"
  proof
    fix x
    have "x \<in> set (map fst m) \<longleftrightarrow> map_of m x \<noteq> None" by (simp add: map_of_eq_None_iff)
    then show "map_of ?m' x = map_of m x" by (auto simp: map_of_foldl_mput)
  qed
  moreover have "wf_map ?m'" by (simp add: wf_map_foldl_mput)
  ultimately show ?thesis by blast
qed

end
