(* ===== verification/MsgId.thy ===== *)
theory MsgId
  imports Models
begin

text \<open>
  \<open>common/protocol/msgid.go\<close>: the deterministic 16-byte message identifiers. The three constructors
  hash a buffer; the buffers are definitions of their own, because what the length prefixes
  guarantee is that a buffer determines the values it was built from.
\<close>

definition hash16 :: "bytes \<Rightarrow> MsgID" where
  "hash16 buf = take 16 (sha256 buf)"

definition StreamTransactions :: byte where "StreamTransactions = 0"
definition StreamAccounts :: byte where "StreamAccounts = 1"

definition sourceBuf :: "uuid \<Rightarrow> byte \<Rightarrow> 64 word \<Rightarrow> bytes" where
  "sourceBuf clientID stream seq = clientID @ [stream] @ PutUint64 seq"

definition SourceMsgID :: "uuid \<Rightarrow> byte \<Rightarrow> 64 word \<Rightarrow> MsgID" where
  "SourceMsgID clientID stream seq = hash16 (sourceBuf clientID stream seq)"

definition deriveBuf :: "MsgID \<Rightarrow> string \<Rightarrow> 32 word \<Rightarrow> bytes" where
  "deriveBuf parent discriminator outIdx =
     parent @ PutUint32 (word_of_nat (length discriminator)) @ str_bytes discriminator
       @ PutUint32 outIdx"

definition DeriveMsgID :: "MsgID \<Rightarrow> string \<Rightarrow> 32 word \<Rightarrow> MsgID" where
  "DeriveMsgID parent discriminator outIdx = hash16 (deriveBuf parent discriminator outIdx)"

definition stageBuf :: "uuid \<Rightarrow> string \<Rightarrow> string \<Rightarrow> 32 word \<Rightarrow> bytes" where
  "stageBuf clientID stage discriminator outIdx =
     clientID @ PutUint32 (word_of_nat (length stage)) @ str_bytes stage
       @ PutUint32 (word_of_nat (length discriminator)) @ str_bytes discriminator
       @ PutUint32 outIdx"

definition StageMsgID :: "uuid \<Rightarrow> string \<Rightarrow> string \<Rightarrow> 32 word \<Rightarrow> MsgID" where
  "StageMsgID clientID stage discriminator outIdx = hash16 (stageBuf clientID stage discriminator outIdx)"

lemma length_hash16 [simp]: "length (hash16 b) = 16"
  by (simp add: hash16_def)

lemma length_MsgIDs [simp]:
  "length (SourceMsgID c s q) = 16" "length (DeriveMsgID p d i) = 16" "length (StageMsgID c g d i) = 16"
  by (simp_all add: SourceMsgID_def DeriveMsgID_def StageMsgID_def)

text \<open>
  The buffers that are hashed into message ids are unambiguous: for identifiers of 16 bytes and
  texts shorter than 4 GiB, equal buffers come from equal arguments, for each of the three
  constructors. (The ids themselves are therefore as distinct as truncated SHA-256 is
  collision-free.)
\<close>

lemma msgid_buffers_injective:
  assumes "length c = 16" "length c' = 16" "length g < 2 ^ 32" "length g' < 2 ^ 32"
    "length d < 2 ^ 32" "length d' < 2 ^ 32"
  shows "(sourceBuf c s q = sourceBuf c' s' q' \<longleftrightarrow> c = c' \<and> s = s' \<and> q = q')
       \<and> (deriveBuf c d i = deriveBuf c' d' i' \<longleftrightarrow> c = c' \<and> d = d' \<and> i = i')
       \<and> (stageBuf c g d i = stageBuf c' g' d' i' \<longleftrightarrow> c = c' \<and> g = g' \<and> d = d' \<and> i = i')"
proof -
  have w: "(word_of_nat a :: 32 word) = word_of_nat b \<longleftrightarrow> a = b" if "a < 2 ^ 32" "b < 2 ^ 32" for a b
  proof -
    have "unat (word_of_nat a :: 32 word) = a" "unat (word_of_nat b :: 32 word) = b"
      using that by (simp_all add: unat_of_nat)
    then show ?thesis by metis
  qed
  show ?thesis
    using assms by (auto simp: sourceBuf_def deriveBuf_def stageBuf_def w)
qed

lemma msgid_buffers_injective_witness:
  "deriveBuf (replicate 16 7) ''ab'' 1 \<noteq> deriveBuf (replicate 16 7) ''a'' 1"
  using msgid_buffers_injective [of "replicate 16 7" "replicate 16 7" "''q''" "''q''" "''ab''" "''a''" 0 0 0 0 1 1]
  by simp

end
