(* ===== verification/Messaging.thy ===== *)
theory Messaging
  imports Envelope MsgId
begin

text \<open>
  \<open>common/messaging\<close>: the per-client duplicate filter \<open>dedupState\<close> and the \<open>Publisher\<close> every worker
  sends and dispatches through. The broker behind a publisher is the environment: \<open>net\<close> holds the
  messages it accepted and a script of outcomes, one per \<open>Send\<close> (\<open>False\<close>: the send fails; the script
  being used up: it succeeds), so a theorem for every \<open>net\<close> covers every pattern of send failures.
  Go maps that are only looked up are functions \<open>'k \<rightharpoonup> 'v\<close> here.
\<close>

section \<open>Broker messages and the network\<close>

record Message =
  RoutingKey :: KeyType
  Body :: bytes
  ContentType :: string

definition ContentTypeBinary :: string where "ContentTypeBinary = ''application/octet-stream''"
definition ContentTypeJSON :: string where "ContentTypeJSON = ''application/json''"

definition contentTypeOrDefault :: "Message \<Rightarrow> string" where
  "contentTypeOrDefault m = (if ContentType m = '''' then ContentTypeJSON else ContentType m)"

record net =
  outcomes :: "bool list"
  sent :: "Message list"

definition netSend :: "Message \<Rightarrow> net \<Rightarrow> unit result \<times> net" where
  "netSend m n =
     (case outcomes n of
        [] \<Rightarrow> (Inr (), n\<lparr>sent := sent n @ [m]\<rparr>)
      | ok # os \<Rightarrow>
          if ok then (Inr (), n\<lparr>outcomes := os, sent := sent n @ [m]\<rparr>)
          else (Inl (Errorf ''broker send'' []), n\<lparr>outcomes := os\<rparr>))"

section \<open>dedupState (dedup.go)\<close>

record dedupState =
  seen :: "uuid \<rightharpoonup> MsgID set"
  pending :: "uuid \<rightharpoonup> MsgID list"

definition newDedupState :: dedupState where
  "newDedupState = \<lparr>seen = Map.empty, pending = Map.empty\<rparr>"

definition seenIDs :: "dedupState \<Rightarrow> uuid \<Rightarrow> MsgID set" where
  "seenIDs d c = (case seen d c of None \<Rightarrow> {} | Some s \<Rightarrow> s)"

definition pendingIDs :: "dedupState \<Rightarrow> uuid \<Rightarrow> MsgID list" where
  "pendingIDs d c = (case pending d c of None \<Rightarrow> [] | Some l \<Rightarrow> l)"

definition alreadySeen :: "dedupState \<Rightarrow> uuid \<Rightarrow> MsgID \<Rightarrow> bool" where
  "alreadySeen d c i \<longleftrightarrow> i \<in> seenIDs d c"

definition markSeen :: "uuid \<Rightarrow> MsgID \<Rightarrow> dedupState \<Rightarrow> dedupState" where
  "markSeen c i d =
     (let ids = seenIDs d c; d1 = d\<lparr>seen := (seen d)(c \<mapsto> ids)\<rparr> in
      if i \<in> ids then d1
      else d1\<lparr>seen := (seen d1)(c \<mapsto> insert i ids), pending := (pending d1)(c \<mapsto> pendingIDs d c @ [i])\<rparr>)"

definition forget :: "uuid \<Rightarrow> dedupState \<Rightarrow> dedupState" where
  "forget c d = d\<lparr>seen := (seen d)(c := None), pending := (pending d)(c := None)\<rparr>"

definition drainClient :: "uuid \<Rightarrow> dedupState \<Rightarrow> bytes" where
  "drainClient c d = concat (pendingIDs d c)"

definition commitDrained :: "uuid \<Rightarrow> dedupState \<Rightarrow> dedupState" where
  "commitDrained c d = d\<lparr>pending := (pending d)(c := None)\<rparr>"

text \<open>\<open>for i := 0; i+idLen <= len(data); i += idLen\<close>\<close>

function idChunks :: "bytes \<Rightarrow> MsgID list" where
  "idChunks data = (if 16 \<le> length data then take 16 data # idChunks (drop 16 data) else [])"
  by pat_completeness auto
termination by (relation "measure length") auto

declare idChunks.simps [simp del]

definition replayClient :: "uuid \<Rightarrow> bytes \<Rightarrow> dedupState \<Rightarrow> dedupState" where
  "replayClient c data d = d\<lparr>seen := (seen d)(c \<mapsto> seenIDs d c \<union> set (idChunks data))\<rparr>"

section \<open>Publisher (publisher.go)\<close>

definition pubSend :: "KeyType \<Rightarrow> bytes \<Rightarrow> net \<Rightarrow> unit result \<times> net" where
  "pubSend key envelope n =
     (case netSend \<lparr>RoutingKey = key, Body = envelope, ContentType = ContentTypeBinary\<rparr> n of
        (r, n') \<Rightarrow> (wrapf ''sending message to broker'' [] r, n'))"

definition PublishInternalWithID ::
  "uuid \<Rightarrow> MsgType \<Rightarrow> KeyType \<Rightarrow> bytes \<Rightarrow> MsgID \<Rightarrow> net \<Rightarrow> unit result \<times> net" where
  "PublishInternalWithID clientID msgType key payload i n =
     pubSend key (EncodeInternalEnvelope
       \<lparr>MsgType = msgType, ClientId = clientID, MsgID = i, Payload = payload\<rparr>) n"

definition PublishInternal :: "uuid \<Rightarrow> MsgType \<Rightarrow> KeyType \<Rightarrow> bytes \<Rightarrow> net \<Rightarrow> unit result \<times> net" where
  "PublishInternal clientID msgType key payload n =
     PublishInternalWithID clientID msgType key payload zeroMsgID n"

definition PublishRaw :: "KeyType \<Rightarrow> bytes \<Rightarrow> net \<Rightarrow> unit result \<times> net" where
  "PublishRaw key envelope n = pubSend key envelope n"

definition PublishRawWithID :: "KeyType \<Rightarrow> bytes \<Rightarrow> MsgID \<Rightarrow> net \<Rightarrow> unit result \<times> net" where
  "PublishRawWithID key envelope i n = pubSend key (SetEnvelopeMsgID envelope i) n"

text \<open>
  A handler runs on the whole worker state \<open>'s\<close>, which contains the publisher's duplicate filter
  (reached by \<open>get\<close> and \<open>put\<close>): some handlers flush a checkpoint, which drains the filter, before
  \<open>Dispatch\<close> marks the message. \<open>Dispatch\<close> returns the three results of the Go method; \<open>None\<close> is a
  panic of the envelope decoder.
\<close>

type_synonym 's handler = "InternalEnvelope \<Rightarrow> 's \<Rightarrow> unit result \<times> 's"

definition Dispatch ::
  "('s \<Rightarrow> dedupState) \<Rightarrow> (dedupState \<Rightarrow> 's \<Rightarrow> 's) \<Rightarrow> (MsgType, 's handler) gomap
     \<Rightarrow> Message \<Rightarrow> 's \<Rightarrow> (uuid \<times> MsgType \<times> gerr option \<times> 's) option" where
  "Dispatch get put handlers msg s =
     (case DecodeInternalEnvelope (Body msg) of
        None \<Rightarrow> None
      | Some (Inl e) \<Rightarrow> Some (uuid_Nil, 0, Some (Wrapf ''decoding internal envelope'' [] e), s)
      | Some (Inr env) \<Rightarrow>
         Some (case mget handlers (MsgType env) of
            None \<Rightarrow> (uuid_Nil, MsgType env, Some (Errorf ''unexpected inbound packet type'' []), s)
          | Some handler \<Rightarrow>
              if MsgID env \<noteq> zeroMsgID \<and> alreadySeen (get s) (ClientId env) (MsgID env)
              then (uuid_Nil, MsgType env, None, s)
              else (case handler env s of
                  (Inl e, s') \<Rightarrow> (uuid_Nil, MsgType env, Some e, s')
                | (Inr _, s') \<Rightarrow>
                    (ClientId env, MsgType env, None,
                     if MsgID env \<noteq> zeroMsgID
                     then put (markSeen (ClientId env) (MsgID env) (get s')) s' else s'))))"

section \<open>Lemmas on the duplicate filter\<close>

lemma seenIDs_new [simp]: "seenIDs newDedupState c = {}"
  and pendingIDs_new [simp]: "pendingIDs newDedupState c = []"
  by (simp_all add: seenIDs_def pendingIDs_def newDedupState_def)

lemma seenIDs_markSeen [simp]:
  "seenIDs (markSeen c i d) c' = (if c' = c then insert i (seenIDs d c) else seenIDs d c')"
  by (auto simp: markSeen_def Let_def seenIDs_def)

lemma pendingIDs_markSeen [simp]:
  "pendingIDs (markSeen c i d) c' =
     (if c' = c \<and> i \<notin> seenIDs d c then pendingIDs d c @ [i] else pendingIDs d c')"
  by (auto simp: markSeen_def Let_def pendingIDs_def)

lemma seenIDs_forget [simp]: "seenIDs (forget c d) c' = (if c' = c then {} else seenIDs d c')"
  and pendingIDs_forget [simp]: "pendingIDs (forget c d) c' = (if c' = c then [] else pendingIDs d c')"
  by (simp_all add: forget_def seenIDs_def pendingIDs_def)

lemma seenIDs_commit [simp]: "seenIDs (commitDrained c d) c' = seenIDs d c'"
  and pendingIDs_commit [simp]: "pendingIDs (commitDrained c d) c' = (if c' = c then [] else pendingIDs d c')"
  by (simp_all add: commitDrained_def seenIDs_def pendingIDs_def)

lemma seenIDs_replay [simp]:
  "seenIDs (replayClient c data d) c' = (if c' = c then seenIDs d c \<union> set (idChunks data) else seenIDs d c')"
  and pendingIDs_replay [simp]: "pendingIDs (replayClient c data d) c' = pendingIDs d c'"
  by (simp_all add: replayClient_def seenIDs_def pendingIDs_def)

lemma alreadySeen_markSeen [simp]:
  "alreadySeen (markSeen c i d) c' j \<longleftrightarrow> (c' = c \<and> j = i) \<or> alreadySeen d c' j"
  by (auto simp: alreadySeen_def)

lemma idChunks_Nil [simp]: "idChunks [] = []"
  by (simp add: idChunks.simps)

lemma idChunks_append_id: "length i = 16 \<Longrightarrow> idChunks (i @ rest) = i # idChunks rest"
  by (subst idChunks.simps) simp

lemma idChunks_concat: "\<forall>i\<in>set ids. length i = 16 \<Longrightarrow> idChunks (concat ids) = ids"
  by (induction ids) (auto simp: idChunks_append_id)

text \<open>
  Every pending id is a seen id, is 16 bytes long and occurs once: what a drain writes is exactly
  what has been marked since the last commit.
\<close>

definition dedup_inv :: "dedupState \<Rightarrow> bool" where
  "dedup_inv d \<longleftrightarrow> (\<forall>c. set (pendingIDs d c) \<subseteq> seenIDs d c \<and> distinct (pendingIDs d c)
                        \<and> (\<forall>i\<in>seenIDs d c. length i = 16))"

lemma dedup_inv_new: "dedup_inv newDedupState"
  by (simp add: dedup_inv_def)

lemma dedup_inv_markSeen: "length i = 16 \<Longrightarrow> dedup_inv d \<Longrightarrow> dedup_inv (markSeen c i d)"
  by (auto simp: dedup_inv_def)

lemma dedup_inv_forget: "dedup_inv d \<Longrightarrow> dedup_inv (forget c d)"
  by (auto simp: dedup_inv_def)

lemma dedup_inv_commit: "dedup_inv d \<Longrightarrow> dedup_inv (commitDrained c d)"
  by (auto simp: dedup_inv_def)

lemma idChunks_length: "i \<in> set (idChunks data) \<Longrightarrow> length i = 16"
  by (induction data rule: idChunks.induct) (subst (asm) (2) idChunks.simps, auto split: if_splits)

lemma dedup_inv_replay: "dedup_inv d \<Longrightarrow> dedup_inv (replayClient c data d)"
  by (auto simp: dedup_inv_def dest: idChunks_length)

lemma replay_drain:
  assumes "dedup_inv d"
  shows "seenIDs (replayClient c (drainClient c d) d0) c = seenIDs d0 c \<union> set (pendingIDs d c)"
proof -
  have "\<forall>i\<in>set (pendingIDs d c). length i = 16" using assms by (auto simp: dedup_inv_def)
  then show ?thesis by (simp add: drainClient_def idChunks_concat)
qed

section \<open>Dispatch\<close>

text \<open>
  The consumer loop of a worker calls the dispatch callback once per delivery, in delivery order.
\<close>

fun deliverAll ::
  "('s \<Rightarrow> dedupState) \<Rightarrow> (dedupState \<Rightarrow> 's \<Rightarrow> 's) \<Rightarrow> (MsgType, 's handler) gomap
     \<Rightarrow> Message list \<Rightarrow> 's \<Rightarrow> 's option" where
  "deliverAll get put hs [] s = Some s"
| "deliverAll get put hs (m # ms) s =
     (case Dispatch get put hs m s of
        None \<Rightarrow> None
      | Some (_, _, _, s') \<Rightarrow> deliverAll get put hs ms s')"

lemma Dispatch_handled:
  assumes "DecodeInternalEnvelope (Body m) = Some (Inr env)" "mget hs (MsgType env) = Some h"
  shows "Dispatch get put hs m s = Some
           (if MsgID env \<noteq> zeroMsgID \<and> alreadySeen (get s) (ClientId env) (MsgID env)
            then (uuid_Nil, MsgType env, None, s)
            else case h env s of
                (Inl e, s') \<Rightarrow> (uuid_Nil, MsgType env, Some e, s')
              | (Inr _, s') \<Rightarrow>
                  (ClientId env, MsgType env, None,
                   if MsgID env \<noteq> zeroMsgID
                   then put (markSeen (ClientId env) (MsgID env) (get s')) s' else s'))"
  by (simp only: Dispatch_def assms option.case sum.case)

text \<open>
  What a worker's state and handlers promise the publisher embedded in it: the filter is stored and
  read back, and no handler changes which ids count as seen.
\<close>

locale publisher_host =
  fixes get :: "'s \<Rightarrow> dedupState"
    and put :: "dedupState \<Rightarrow> 's \<Rightarrow> 's"
    and hs :: "(MsgType, 's handler) gomap"
  assumes get_put: "get (put d s) = d"
    and handlers_keep_seen: "mget hs t = Some h \<Longrightarrow> seenIDs (get (snd (h env s))) = seenIDs (get s)"
begin

lemma Dispatch_duplicate:
  assumes "DecodeInternalEnvelope (Body m) = Some (Inr env)" "mget hs (MsgType env) = Some h"
    "MsgID env \<noteq> zeroMsgID" "alreadySeen (get s) (ClientId env) (MsgID env)"
  shows "Dispatch get put hs m s = Some (uuid_Nil, MsgType env, None, s)"
  using assms by (simp add: Dispatch_handled)

lemma Dispatch_handled_seen:
  assumes "DecodeInternalEnvelope (Body m) = Some (Inr env)" "mget hs (MsgType env) = Some h"
    "Dispatch get put hs m s = Some (c, t, e, s')"
  shows "alreadySeen (get s') c' i \<longleftrightarrow> alreadySeen (get s) c' i
       \<or> (c' = ClientId env \<and> i = MsgID env \<and> MsgID env \<noteq> zeroMsgID \<and> fst (h env s) = Inr ())"
proof -
  obtain r s1 where h: "h env s = (r, s1)" by fastforce
  have keep: "seenIDs (get s1) = seenIDs (get s)"
    using handlers_keep_seen [OF assms(2), of env s] by (simp add: h)
  show ?thesis
    using assms(3) keep
    by (cases r) (auto simp: Dispatch_handled [OF assms(1,2)] h get_put alreadySeen_def split: if_splits)
qed

lemma Dispatch_seen_mono:
  assumes d: "Dispatch get put hs m s = Some (c, t, e, s')" and "alreadySeen (get s) c' i"
  shows "alreadySeen (get s') c' i"
proof (cases "\<exists>env h. DecodeInternalEnvelope (Body m) = Some (Inr env) \<and> mget hs (MsgType env) = Some h")
  case True
  with d assms(2) show ?thesis by (auto simp: Dispatch_handled_seen)
next
  case False
  with d have "s' = s" by (auto simp: Dispatch_def split: option.splits sum.splits)
  with assms(2) show ?thesis by simp
qed

lemma Dispatch_marks:
  assumes "DecodeInternalEnvelope (Body m) = Some (Inr env)" "mget hs (MsgType env) = Some h"
    "MsgID env \<noteq> zeroMsgID" "fst (h env s) = Inr ()"
    "Dispatch get put hs m s = Some (c, t, e, s')"
  shows "alreadySeen (get s') (ClientId env) (MsgID env)"
  using Dispatch_handled_seen [OF assms(1,2,5)] assms(3,4) by blast

lemma deliverAll_append:
  "deliverAll get put hs (ms @ ns) s = Option.bind (deliverAll get put hs ms s) (deliverAll get put hs ns)"
  by (induction ms arbitrary: s) (auto split: option.splits)

lemma deliverAll_seen_mono:
  "deliverAll get put hs ms s = Some s' \<Longrightarrow> alreadySeen (get s) c i \<Longrightarrow> alreadySeen (get s') c i"
proof (induction ms arbitrary: s)
  case (Cons m ms)
  then show ?case
    by (auto split: option.splits prod.splits dest: Dispatch_seen_mono)
qed simp

lemma deliverAll_marks:
  assumes "m \<in> set ms" "deliverAll get put hs ms s = Some s'"
    "DecodeInternalEnvelope (Body m) = Some (Inr env)" "mget hs (MsgType env) = Some h"
    "MsgID env \<noteq> zeroMsgID" "\<And>s. fst (h env s) = Inr ()"
  shows "alreadySeen (get s') (ClientId env) (MsgID env)"
  using assms(1,2)
proof (induction ms arbitrary: s)
  case (Cons x ms)
  from Cons.prems(2) obtain c t e s1 where d: "Dispatch get put hs x s = Some (c, t, e, s1)"
    and r: "deliverAll get put hs ms s1 = Some s'"
    by (auto split: option.splits prod.splits)
  show ?case
  proof (cases "x = m")
    case True
    with d have "alreadySeen (get s1) (ClientId env) (MsgID env)"
      using Dispatch_marks [OF assms(3,4,5,6)] by blast
    with r show ?thesis by (rule deliverAll_seen_mono)
  next
    case False
    with Cons.prems(1) r show ?thesis by (auto intro: Cons.IH)
  qed
qed simp

lemma redelivery_no_effect:
  assumes "m \<in> set ms" "DecodeInternalEnvelope (Body m) = Some (Inr env)"
    "mget hs (MsgType env) = Some h" "MsgID env \<noteq> zeroMsgID" "\<And>s. fst (h env s) = Inr ()"
  shows "deliverAll get put hs (ms @ [m]) s = deliverAll get put hs ms s"
proof (cases "deliverAll get put hs ms s")
  case None
  then show ?thesis by (simp add: deliverAll_append)
next
  case (Some s')
  have "alreadySeen (get s') (ClientId env) (MsgID env)"
    using deliverAll_marks [OF assms(1) Some assms(2-5)] .
  then have "Dispatch get put hs m s' = Some (uuid_Nil, MsgType env, None, s')"
    by (rule Dispatch_duplicate [OF assms(2,3,4)])
  with Some show ?thesis by (simp add: deliverAll_append)
qed

end


text \<open>
  C10. A failed handler is retried: when the handler of a message returns an error, \<open>Dispatch\<close> returns
  that error with the nil client id and does not mark the message, so its redelivery runs the
  handler again on the state the failed attempt left.
\<close>

theorem dispatch_failure_is_retried:
  assumes "DecodeInternalEnvelope (Body m) = Some (Inr env)" "mget hs (MsgType env) = Some h"
    and "\<not> (MsgID env \<noteq> zeroMsgID \<and> alreadySeen (get s) (ClientId env) (MsgID env))"
    and "h env s = (Inl e, s1)" "seenIDs (get s1) = seenIDs (get s)" "h env s1 = (Inr (), s2)"
  shows "Dispatch get put hs m s = Some (uuid_Nil, MsgType env, Some e, s1)
       \<and> Dispatch get put hs m s1 = Some (ClientId env, MsgType env, None,
           if MsgID env \<noteq> zeroMsgID then put (markSeen (ClientId env) (MsgID env) (get s2)) s2 else s2)"
proof -
  have "\<not> (MsgID env \<noteq> zeroMsgID \<and> alreadySeen (get s1) (ClientId env) (MsgID env))"
    using assms(3,5) by (simp add: alreadySeen_def)
  with assms(3,4,6) show ?thesis by (auto simp: Dispatch_handled [OF assms(1,2)])
qed

text \<open>A worker that is nothing but its filter, with one handler that always succeeds.\<close>

definition echoHandlers :: "(MsgType, dedupState handler) gomap" where
  "echoHandlers = [(MsgTransactionsBatch, \<lambda>env s. (Inr (), s))]"

definition echoEnvelope :: InternalEnvelope where
  "echoEnvelope = \<lparr>MsgType = MsgTransactionsBatch, ClientId = replicate 16 7, MsgID = replicate 16 3, Payload = [1, 2]\<rparr>"

definition echoMessage :: Message where
  "echoMessage = \<lparr>RoutingKey = KeyNil, Body = EncodeInternalEnvelope echoEnvelope, ContentType = ContentTypeBinary\<rparr>"

lemma echo_facts:
  "DecodeInternalEnvelope (Body echoMessage) = Some (Inr echoEnvelope)"
  "mget echoHandlers (MsgType echoEnvelope) = Some (\<lambda>env s. (Inr (), s))"
  "MsgID echoEnvelope \<noteq> zeroMsgID" "mget echoHandlers t = Some h \<Longrightarrow> snd (h env s) = s"
proof -
  have "wf_envelope echoEnvelope" by (simp add: wf_envelope_def echoEnvelope_def)
  then show "DecodeInternalEnvelope (Body echoMessage) = Some (Inr echoEnvelope)"
    by (simp add: echoMessage_def DecodeInternalEnvelope_Encode)
qed (auto simp: echoHandlers_def echoEnvelope_def zeroMsgID_def split: if_splits)

lemma echo_contract: "mget echoHandlers t = Some h \<Longrightarrow> seenIDs (snd (h env s)) = seenIDs s"
  by (simp add: echo_facts(4))


theorem dispatch_failure_is_retried_witness:
  "let h = (\<lambda>env (n, d). if n = (0::nat) then (Inl ErrEOF, (1, d)) else (Inr (), (n, d)));
       hs = [(MsgTransactionsBatch, h)]; put = (\<lambda>d (n, _). (n, d)) in
   Dispatch snd put hs echoMessage (0, newDedupState)
     = Some (uuid_Nil, MsgTransactionsBatch, Some ErrEOF, (1, newDedupState))"
proof -
  let ?h = "\<lambda>env (n, d). if n = (0::nat) then (Inl ErrEOF, (1, d)) else (Inr (), (n, d))"
  have ok: "mget [(MsgTransactionsBatch, ?h)] (MsgType echoEnvelope) = Some ?h"
    "\<not> (MsgID echoEnvelope \<noteq> zeroMsgID \<and> alreadySeen (snd (0 :: nat, newDedupState)) (ClientId echoEnvelope) (MsgID echoEnvelope))"
    "?h echoEnvelope (0, newDedupState) = (Inl ErrEOF, (1, newDedupState))"
    "seenIDs (snd (1 :: nat, newDedupState)) = seenIDs (snd (0 :: nat, newDedupState))"
    "?h echoEnvelope (1, newDedupState) = (Inr (), (1, newDedupState))"
    by (simp_all add: echoEnvelope_def alreadySeen_def)
  have "MsgType echoEnvelope = MsgTransactionsBatch" by (simp add: echoEnvelope_def)
  with dispatch_failure_is_retried [OF echo_facts(1) ok] show ?thesis unfolding Let_def by simp
qed

end
