(* ===== verification/Coordinator.thy ===== *)
theory Coordinator
  imports Store Messaging
begin

text \<open>
  \<open>common/checkpoint/coordinator.go\<close>: the coordinator that makes a worker's state, EOF bookkeeping
  and duplicate filter durable together, acknowledges the tracked deliveries afterwards, and rebuilds
  the worker after a crash. \<open>'w\<close> is the state of the worker that owns the coordinator; the interfaces
  \<open>Checkpointable\<close> and \<open>AppendSource\<close> are records of operations on it. An ack closure is identified
  by a number, and \<open>coAcked\<close> lists the closures that were called. \<open>uuid.UUID.String\<close> and
  \<open>uuid.Parse\<close> belong to a third-party package and are fields of \<open>sources\<close>.
\<close>

section \<open>Interfaces and state\<close>

record 'w Checkpointable =
  snapshotClient :: "uuid \<Rightarrow> 'w \<Rightarrow> bytes result \<times> 'w"
  restoreClient :: "uuid \<Rightarrow> bytes \<Rightarrow> 'w \<Rightarrow> unit result \<times> 'w"

record 'w AppendSource =
  srcDrain :: "uuid \<Rightarrow> 'w \<Rightarrow> bytes result \<times> 'w"
  srcCommit :: "uuid \<Rightarrow> 'w \<Rightarrow> unit result \<times> 'w"
  srcReplay :: "uuid \<Rightarrow> bytes \<Rightarrow> 'w \<Rightarrow> unit result \<times> 'w"

record 'w sources =
  srcSeen :: "'w AppendSource"
  srcEof :: "'w Checkpointable option"
  srcState :: "'w Checkpointable option"
  uuidString :: "uuid \<Rightarrow> string"
  uuidParse :: "string \<Rightarrow> uuid option"

definition seenDir :: string where "seenDir = ''seen''"
definition eofDir :: string where "eofDir = ''eof''"
definition stateDir :: string where "stateDir = ''state''"

record 'w coord =
  coHost :: 'w
  coFs :: fs
  coDirty :: "uuid list"
  coAcks :: "nat list"
  coPending :: nat
  coGen :: "(uuid, 64 word) gomap"
  coInterval :: nat
  coAcked :: "nat list"

definition NewCoordinator :: "'w \<Rightarrow> fs \<Rightarrow> int \<Rightarrow> 'w coord" where
  "NewCoordinator w f interval =
     \<lparr>coHost = w, coFs = f, coDirty = [], coAcks = [], coPending = 0, coGen = [],
      coInterval = (if interval < 1 then 1 else nat interval), coAcked = []\<rparr>"

text \<open>
  The overwrite slots that are configured, in the order in which the code visits them: first the
  worker state (\<open>co.state\<close>), then the EOF controller (\<open>co.eof\<close>).
\<close>

definition slots :: "'w sources \<Rightarrow> (string \<times> 'w Checkpointable) list" where
  "slots src =
     (case srcState src of None \<Rightarrow> [] | Some x \<Rightarrow> [(stateDir, x)])
   @ (case srcEof src of None \<Rightarrow> [] | Some x \<Rightarrow> [(eofDir, x)])"

definition liftFs :: "(fs, 'a) iom \<Rightarrow> ('w coord, 'a) iom" where
  "liftFs m co = (case m (coFs co) of (r, f) \<Rightarrow> (r, co\<lparr>coFs := f\<rparr>))"

definition liftHost :: "('w \<Rightarrow> 'a result \<times> 'w) \<Rightarrow> ('w coord, 'a) iom" where
  "liftHost m co =
     (case m (coHost co) of
        (Inl e, w) \<Rightarrow> (IErr e, co\<lparr>coHost := w\<rparr>)
      | (Inr x, w) \<Rightarrow> (IOk x, co\<lparr>coHost := w\<rparr>))"

abbreviation coFiles :: "'w coord \<Rightarrow> disk" where "coFiles co \<equiv> files (coFs co)"

section \<open>Operations\<close>

fun stageSlots :: "(string \<times> 'w Checkpointable) list \<Rightarrow> uuid \<Rightarrow> string \<Rightarrow> 64 word \<Rightarrow> ('w coord, unit) iom" where
  "stageSlots [] c key gen = ioret ()"
| "stageSlots ((dir, x) # xs) c key gen =
     iobind (liftHost (snapshotClient x c)) (\<lambda>data.
     iobind (liftFs (ow_Stage dir key gen data)) (\<lambda>_.
     stageSlots xs c key gen))"

fun promoteSlots :: "(string \<times> 'w Checkpointable) list \<Rightarrow> string \<Rightarrow> 64 word \<Rightarrow> ('w coord, unit) iom" where
  "promoteSlots [] key gen = ioret ()"
| "promoteSlots ((dir, x) # xs) key gen =
     iobind (liftFs (ow_Promote dir key gen)) (\<lambda>_. promoteSlots xs key gen)"

definition commitGen :: "uuid \<Rightarrow> 64 word \<Rightarrow> ('w coord, unit) iom" where
  "commitGen c gen co = (IOk (), co\<lparr>coGen := mput c gen (coGen co)\<rparr>)"

definition coCheckpoint :: "'w sources \<Rightarrow> uuid \<Rightarrow> ('w coord, unit) iom" where
  "coCheckpoint src c co =
     (let gen = mgetd 0 (coGen co) c + 1; key = uuidString src c in
      iobind (stageSlots (slots src) c key gen) (\<lambda>_.
      iobind (liftHost (srcDrain (srcSeen src) c)) (\<lambda>delta.
      iobind (liftFs (ap_Append seenDir key gen delta)) (\<lambda>_.
      iobind (commitGen c gen) (\<lambda>_.
      iobind (liftHost (srcCommit (srcSeen src) c)) (\<lambda>_.
      promoteSlots (slots src) key gen))))) co)"

definition SaveClient :: "'w sources \<Rightarrow> uuid \<Rightarrow> ('w coord, unit) iom" where
  "SaveClient src c = coCheckpoint src c"

fun checkpointAll :: "'w sources \<Rightarrow> uuid list \<Rightarrow> ('w coord, unit) iom" where
  "checkpointAll src [] = ioret ()"
| "checkpointAll src (c # cs) = iobind (coCheckpoint src c) (\<lambda>_. checkpointAll src cs)"

definition coFlush :: "'w sources \<Rightarrow> ('w coord, unit) iom" where
  "coFlush src co =
     (let dirty = coDirty co; acks = coAcks co;
          co = co\<lparr>coDirty := [], coAcks := [], coPending := 0\<rparr> in
      iobind (checkpointAll src dirty)
        (\<lambda>_ co. (IOk (), co\<lparr>coAcked := coAcked co @ acks\<rparr>)) co)"

definition Track :: "'w sources \<Rightarrow> uuid \<Rightarrow> nat \<Rightarrow> ('w coord, unit) iom" where
  "Track src c ack co =
     (let co = co\<lparr>coDirty := (if c \<noteq> uuid_Nil then List.insert c (coDirty co) else coDirty co),
                  coAcks := coAcks co @ [ack], coPending := Suc (coPending co)\<rparr> in
      if coInterval co \<le> coPending co then coFlush src co else (IOk (), co))"

definition restoreOverwrite ::
  "string \<Rightarrow> 'w Checkpointable \<Rightarrow> uuid \<Rightarrow> string \<Rightarrow> 64 word \<Rightarrow> ('w coord, unit) iom" where
  "restoreOverwrite dir x c key gen =
     iobind (liftFs (ow_Promote dir key gen)) (\<lambda>_ co.
     (case ow_Load dir key (coFiles co) of
        Inl e \<Rightarrow> (IErr e, co)
      | Inr None \<Rightarrow> (IOk (), co)
      | Inr (Some (data, _)) \<Rightarrow> liftHost (restoreClient x c data) co))"

fun restoreSlots :: "(string \<times> 'w Checkpointable) list \<Rightarrow> uuid \<Rightarrow> string \<Rightarrow> 64 word \<Rightarrow> ('w coord, unit) iom" where
  "restoreSlots [] c key gen = ioret ()"
| "restoreSlots ((dir, x) # xs) c key gen =
     iobind (restoreOverwrite dir x c key gen) (\<lambda>_. restoreSlots xs c key gen)"

fun replayAll :: "'w AppendSource \<Rightarrow> uuid \<Rightarrow> Record list \<Rightarrow> ('w coord, unit) iom" where
  "replayAll a c [] = ioret ()"
| "replayAll a c (r # rs) = iobind (liftHost (srcReplay a c (recPayload r))) (\<lambda>_. replayAll a c rs)"

text \<open>The body of the loop of \<open>Recover\<close> for one key.\<close>

definition recoverKey :: "'w sources \<Rightarrow> string \<Rightarrow> ('w coord, unit) iom" where
  "recoverKey src key co =
     (case uuidParse src key of
        None \<Rightarrow> (IOk (), co)
      | Some c \<Rightarrow>
         (case ap_Load seenDir key (coFiles co) of
            Inl e \<Rightarrow> (IErr e, co)
          | Inr (recs, gen) \<Rightarrow>
              iobind (liftFs (ap_Truncate seenDir key gen)) (\<lambda>_.
              iobind (restoreSlots (slots src) c key gen) (\<lambda>_.
              iobind (replayAll (srcSeen src) c recs) (\<lambda>_.
              commitGen c gen))) co))"

fun recoverKeys :: "'w sources \<Rightarrow> string list \<Rightarrow> ('w coord, unit) iom" where
  "recoverKeys src [] = ioret ()"
| "recoverKeys src (k # ks) = iobind (recoverKey src k) (\<lambda>_. recoverKeys src ks)"

definition Recover :: "'w sources \<Rightarrow> ('w coord, unit) iom" where
  "Recover src co = recoverKeys src (ap_Keys seenDir (coFiles co)) co"

definition coDelete :: "'w sources \<Rightarrow> uuid \<Rightarrow> ('w coord, unit) iom" where
  "coDelete src c =
     (let key = uuidString src c in
      iobind (liftFs (ap_Delete seenDir key)) (\<lambda>_.
      iobind (if srcEof src = None then ioret () else liftFs (ow_Delete eofDir key)) (\<lambda>_.
      iobind (if srcState src = None then ioret () else liftFs (ow_Delete stateDir key)) (\<lambda>_.
      (\<lambda>co. (IOk (), co\<lparr>coGen := mdel c (coGen co), coDirty := removeAll c (coDirty co)\<rparr>))))))"

section \<open>What a crash can leave behind\<close>

text \<open>
  \<open>slotView\<close> is the data that recovery hands to a slot for a given committed generation, and
  \<open>clientView\<close> what it reconstructs for a client: the committed generation, the payloads of the log
  and the contents of the slots.
\<close>

definition slotView :: "string \<Rightarrow> string \<Rightarrow> 64 word \<Rightarrow> disk \<Rightarrow> bytes option result" where
  "slotView dir key g d =
     (let tmp = storePath dir key tmpExt in
      case (if readOverwriteHeader tmp d = Some g then mget d tmp
            else mget d (storePath dir key fileExt)) of
        None \<Rightarrow> Inr None
      | Some raw \<Rightarrow> rbind (decodeOverwrite raw) (\<lambda>(data, _). Inr (Some data)))"

definition logRecs :: "string \<Rightarrow> disk \<Rightarrow> Record list" where
  "logRecs key d = (case mget d (storePath seenDir key logExt) of None \<Rightarrow> [] | Some raw \<Rightarrow> loadLoop raw 0)"

definition clientView ::
  "string list \<Rightarrow> string \<Rightarrow> disk \<Rightarrow> 64 word \<times> bytes list \<times> (string \<times> bytes option result) list" where
  "clientView dirs key d =
     (let recs = logRecs key d; g = maxGen recs in
      (g, map recPayload recs, map (\<lambda>dir. (dir, slotView dir key g d)) dirs))"

text \<open>
  The disk of a client between checkpoints: a log without a torn tail whose newest generation is
  \<open>g\<close>, and no staged file that claims to be of generation \<open>g\<close>.
\<close>

definition settled :: "string list \<Rightarrow> string \<Rightarrow> Record list \<Rightarrow> 64 word \<Rightarrow> disk \<Rightarrow> bool" where
  "settled dirs key recs g d \<longleftrightarrow>
     mgetd [] d (storePath seenDir key logExt) = logBytes recs \<and> wf_recs recs \<and> maxGen recs = g
     \<and> (\<forall>dir\<in>set dirs. readOverwriteHeader (storePath dir key tmpExt) d \<noteq> Some g)"

text \<open>
  The publisher as the append source of the worker that contains it (\<open>DrainClient\<close>, \<open>CommitClient\<close>
  and \<open>ReplayClient\<close> of \<open>Publisher\<close> forward to the filter).
\<close>

definition publisherSource :: "('w \<Rightarrow> dedupState) \<Rightarrow> (dedupState \<Rightarrow> 'w \<Rightarrow> 'w) \<Rightarrow> 'w AppendSource" where
  "publisherSource get put =
     \<lparr>srcDrain = (\<lambda>c w. (Inr (drainClient c (get w)), w)),
      srcCommit = (\<lambda>c w. (Inr (), put (commitDrained c (get w)) w)),
      srcReplay = (\<lambda>c data w. (Inr (), put (replayClient c data (get w)) w))\<rparr>"

section \<open>A small worker\<close>

text \<open>
  A worker whose state is one byte string (its only checkpointed slot) and a publisher, with one
  client that has one unsaved message id: the concrete input of the witnesses.
\<close>

definition fixtureSources :: "(bytes \<times> dedupState) sources" where
  "fixtureSources =
     \<lparr>srcSeen = publisherSource snd (\<lambda>d w. (fst w, d)), srcEof = None,
      srcState = Some \<lparr>snapshotClient = (\<lambda>c w. (Inr (fst w), w)), restoreClient = (\<lambda>c b w. (Inr (), (b, snd w)))\<rparr>,
      uuidString = (\<lambda>u. CHR ''c'' # bytes_str u), uuidParse = (\<lambda>k. Some (str_bytes (tl k)))\<rparr>"

definition fixtureClient :: uuid where "fixtureClient = replicate 16 0x41"
definition fixtureId :: MsgID where "fixtureId = replicate 16 1"

definition fixtureCoord :: "(bytes \<times> dedupState) coord" where
  "fixtureCoord = (NewCoordinator ([7], markSeen fixtureClient fixtureId newDedupState) \<lparr>files = [], script = []\<rparr> 10)
     \<lparr>coDirty := [fixtureClient], coAcks := [1]\<rparr>"

lemma fixture_key: "validKey (uuidString fixtureSources fixtureClient) = Inr ()"
  by code_simp

lemma fixture_basic:
  "slots fixtureSources = [(stateDir, the (srcState fixtureSources))]"
  "uuidParse fixtureSources (uuidString fixtureSources fixtureClient) = Some fixtureClient"
  "settled dirs key [] 0 []" "srcSeen fixtureSources = publisherSource snd (\<lambda>d w. (fst w, d))"
  "snapshotClient (the (srcState fixtureSources)) c w = (Inr (fst w), w)"
  "restoreClient (the (srcState fixtureSources)) c b w = (Inr (), (b, snd w))"
  by (simp_all add: fixtureSources_def slots_def settled_def wf_recs_def maxGen_def readOverwriteHeader_def)

lemma fixture_coord:
  "coFiles fixtureCoord = []" "script (coFs fixtureCoord) = []" "coGen fixtureCoord = []"
  "coHost fixtureCoord = ([7], markSeen fixtureClient fixtureId newDedupState)"
  "coDirty fixtureCoord = [fixtureClient]" "coAcks fixtureCoord = [1]" "coAcked fixtureCoord = []"
  "length fixtureId = 16" "fixtureClient \<noteq> uuid_Nil"
  by (simp_all add: fixtureCoord_def NewCoordinator_def fixtureId_def fixtureClient_def uuid_Nil_def)

lemmas fixture_simps = fixture_key fixture_basic fixture_coord

end
