(* ===== verification/CrashSafety.thy ===== *)
theory CrashSafety
  imports Coordinator
begin

text \<open>
  Crash safety of the checkpoint coordinator. One call of \<open>checkpoint\<close>, interrupted at any point by a
  crash or an I/O error, leaves a disk from which recovery reconstructs either exactly the previous
  checkpoint or exactly the new one (never a mixture of slots of different generations), and a call
  that returns success leaves the new one.
\<close>

declare split_paired_All [simp del] split_paired_Ex [simp del]

section \<open>Effects of the store operations\<close>

lemma ow_Stage_effect:
  assumes "validKey key = Inr ()" "ow_Stage dir key g b s = (r, s')"
  shows "(\<forall>p. p \<noteq> storePath dir key tmpExt \<longrightarrow> mget (files s') p = mget (files s) p)
    \<and> (mget (files s') (storePath dir key tmpExt) = mget (files s) (storePath dir key tmpExt)
       \<or> mget (files s') (storePath dir key tmpExt) = None
       \<or> (\<exists>n. mget (files s') (storePath dir key tmpExt) = Some (take n (encodeOverwrite g b))))
    \<and> (r = IOk () \<longrightarrow> mget (files s') (storePath dir key tmpExt) = Some (encodeOverwrite g b))"
proof (cases rule: doOp_cases [of "WriteFile (storePath dir key tmpExt) (encodeOverwrite g b)" s])
  case (ok s1)
  then have "files s' = applyDop (WriteFile (storePath dir key tmpExt) (encodeOverwrite g b)) (files s)"
    using assms doOp_SyncDir [of s1] by (simp add: ow_Stage_def iobind_IOk)
  then show ?thesis by (auto intro: exI [of _ "length (encodeOverwrite g b)"])
next
  case (open_err e s1)
  with assms have "r = IErr e" "files s' = files s" by (simp_all add: ow_Stage_def iobind_IErr)
  then show ?thesis by simp
next
  case (err e n s1)
  with assms have "r = IErr e" "files s' = mdel (storePath dir key tmpExt) (files s)"
    by (simp_all add: ow_Stage_def iobind_IErr)
  then show ?thesis by simp
next
  case (crash n s1)
  with assms have "r = ICrash" "files s' = mput (storePath dir key tmpExt) (take n (encodeOverwrite g b)) (files s)"
    by (simp_all add: ow_Stage_def iobind_ICrash)
  then show ?thesis by auto
qed

lemma ow_Promote_effect:
  assumes "validKey key = Inr ()" "ow_Promote dir key g s = (r, s')"
    "mget (files s) (storePath dir key tmpExt) = Some (encodeOverwrite g b)"
  shows "(\<forall>p. p \<noteq> storePath dir key tmpExt \<and> p \<noteq> storePath dir key fileExt
            \<longrightarrow> mget (files s') p = mget (files s) p)
    \<and> (mget (files s') (storePath dir key tmpExt) = Some (encodeOverwrite g b)
       \<or> mget (files s') (storePath dir key tmpExt) = None
         \<and> mget (files s') (storePath dir key fileExt) = Some (encodeOverwrite g b))
    \<and> (r = IOk () \<longrightarrow> mget (files s') (storePath dir key tmpExt) = None)"
proof -
  let ?op = "Rename (storePath dir key tmpExt) (storePath dir key fileExt)"
  have run: "ow_Promote dir key g s = iobind (doOp ?op) (\<lambda>_. doOp SyncDir) s"
    using assms(1,3) readOverwriteHeader_encode [OF assms(3)]
    by (simp add: ow_Promote_def iobind_getFiles Let_def)
  show ?thesis
  proof (cases rule: doOp_cases [of ?op s])
    case (ok s1)
    then have "files s' = applyDop ?op (files s)"
      using assms(2) doOp_SyncDir [of s1] by (simp add: run iobind_IOk)
    with assms(3) show ?thesis by simp
  next
    case (open_err e s1)
    with assms(2,3) show ?thesis by (auto simp: run iobind_IErr)
  next
    case (err e n s1)
    with assms(2,3) show ?thesis by (auto simp: run iobind_IErr)
  next
    case (crash n s1)
    with assms(2,3) show ?thesis by (auto simp: run iobind_ICrash)
  qed
qed

lemma ap_Append_effect:
  assumes "validKey key = Inr ()" "ap_Append dir key g b s = (r, s')"
  shows "(\<forall>p. p \<noteq> storePath dir key logExt \<longrightarrow> mget (files s') p = mget (files s) p)
    \<and> (\<exists>n. mgetd [] (files s') (storePath dir key logExt)
             = mgetd [] (files s) (storePath dir key logExt) @ take n (encodeRecord g b))
    \<and> (r = IOk () \<longrightarrow> mgetd [] (files s') (storePath dir key logExt)
             = mgetd [] (files s) (storePath dir key logExt) @ encodeRecord g b)"
proof -
  let ?p = "storePath dir key logExt"
  let ?op = "AppendFile ?p (encodeRecord g b)"
  have run: "ap_Append dir key g b s = iobind (doOp ?op) (\<lambda>_. if mget (files s) ?p = None then doOp SyncDir else ioret ()) s"
    using assms(1) by (simp add: ap_Append_def iobind_getFiles Let_def)
  show ?thesis
  proof (cases rule: doOp_cases [of ?op s])
    case (ok s1)
    then have "files s' = applyDop ?op (files s)"
      using assms(2) doOp_SyncDir [of s1] by (auto simp: run iobind_IOk ioret_def split: if_splits)
    then show ?thesis by (auto intro: exI [of _ "length (encodeRecord g b)"])
  next
    case (open_err e s1)
    with assms(2) show ?thesis by (auto simp: run iobind_IErr intro: exI [of _ 0])
  next
    case (err e n s1)
    with assms(2) show ?thesis by (auto simp: run iobind_IErr)
  next
    case (crash n s1)
    with assms(2) show ?thesis by (auto simp: run iobind_ICrash)
  qed
qed

section \<open>The phases of a checkpoint\<close>

text \<open>
  Before the record of generation \<open>g + 1\<close> is complete, the disk shows the old checkpoint
  (\<open>beforeCommit\<close>); afterwards every slot shows the new data, staged or promoted (\<open>afterCommit\<close>).
\<close>

definition beforeCommit :: "string list \<Rightarrow> string \<Rightarrow> 64 word \<Rightarrow> disk \<Rightarrow> disk \<Rightarrow> bool" where
  "beforeCommit dirs key g d0 d \<longleftrightarrow>
     (\<forall>dir\<in>set dirs. mget d (storePath dir key fileExt) = mget d0 (storePath dir key fileExt)
        \<and> readOverwriteHeader (storePath dir key tmpExt) d \<noteq> Some g)"

definition afterCommit :: "(string \<times> bytes) list \<Rightarrow> string \<Rightarrow> 64 word \<Rightarrow> disk \<Rightarrow> bool" where
  "afterCommit new key g d \<longleftrightarrow>
     (\<forall>(dir, b)\<in>set new.
        mget d (storePath dir key tmpExt) = Some (encodeOverwrite g b)
      \<or> mget d (storePath dir key tmpExt) = None
        \<and> mget d (storePath dir key fileExt) = Some (encodeOverwrite g b))"

lemma slotView_before:
  assumes "beforeCommit dirs key g d0 d" "beforeCommit dirs key g d0 d0" "dir \<in> set dirs"
  shows "slotView dir key g d = slotView dir key g d0"
  using assms by (simp add: beforeCommit_def slotView_def)

lemma slotView_after:
  assumes "afterCommit new key g d" "(dir, b) \<in> set new"
  shows "slotView dir key g d = Inr (Some b)"
proof (cases "mget d (storePath dir key tmpExt)")
  case None
  with assms have "mget d (storePath dir key fileExt) = Some (encodeOverwrite g b)"
    by (auto simp: afterCommit_def)
  with None show ?thesis
    by (simp add: slotView_def readOverwriteHeader_def decodeOverwrite_encode)
next
  case (Some raw)
  with assms have "mget d (storePath dir key tmpExt) = Some (encodeOverwrite g b)"
    by (auto simp: afterCommit_def)
  then show ?thesis
    by (simp add: slotView_def readOverwriteHeader_encode decodeOverwrite_encode)
qed

lemma logRecs_eq: "logRecs key d = loadLoop (mgetd [] d (storePath seenDir key logExt)) 0"
  by (auto simp: logRecs_def mgetd_def loadLoop.simps [of "[]"] decodeRecordAt_def recordHeaderLen_def
      split: option.splits)

lemma logRecs_torn:
  assumes "mgetd [] d (storePath seenDir key logExt) = logBytes recs @ take n (encodeRecord g p)"
    "wf_recs recs" "length p < 2 ^ 32"
  shows "logRecs key d = recs \<or> logRecs key d = recs @ [\<lparr>Gen = g, recPayload = p\<rparr>]"
proof (cases "n < length (encodeRecord g p)")
  case True
  then show ?thesis using loadLoop_torn [OF assms(2,3) True] by (simp add: logRecs_eq assms(1))
next
  case False
  let ?recs = "recs @ [\<lparr>Gen = g, recPayload = p\<rparr>]"
  have "wf_recs ?recs" using assms(2,3) by (simp add: wf_recs_def)
  then have "loadLoop (logBytes ?recs) 0 = ?recs" by (rule loadLoop_clean)
  with False show ?thesis by (simp add: logRecs_eq assms(1))
qed

lemma slots_dirs: "distinct (map fst (slots src)) \<and> seenDir \<notin> set (map fst (slots src))"
  by (auto simp: slots_def seenDir_def eofDir_def stateDir_def split: option.splits)

lemma liftFs_result: "liftFs m co = (r, co') \<Longrightarrow> m (coFs co) = (r, coFs co') \<and> coHost co' = coHost co \<and> coGen co' = coGen co"
  by (auto simp: liftFs_def split: prod.splits)

lemma readOverwriteHeader_cong:
  "mget d p = mget d' p \<Longrightarrow> readOverwriteHeader p d = readOverwriteHeader p d'"
  by (simp add: readOverwriteHeader_def)

text \<open>One staged slot: the other files of the client are untouched and no file of generation \<open>g\<close> appears.\<close>

lemma stage_step:
  assumes "validKey key = Inr ()" "liftFs (ow_Stage dir key g1 b) co = (r, co')" "g1 \<noteq> g"
    "beforeCommit dirs key g d0 (coFiles co)" "dir \<in> set dirs"
  shows "beforeCommit dirs key g d0 (coFiles co')
    \<and> coHost co' = coHost co \<and> coGen co' = coGen co
    \<and> (\<forall>p. p \<noteq> storePath dir key tmpExt \<longrightarrow> mget (coFiles co') p = mget (coFiles co) p)
    \<and> (r = IOk () \<longrightarrow> mget (coFiles co') (storePath dir key tmpExt) = Some (encodeOverwrite g1 b))"
proof -
  have run: "ow_Stage dir key g1 b (coFs co) = (r, coFs co')"
    and host: "coHost co' = coHost co" "coGen co' = coGen co"
    using liftFs_result [OF assms(2)] by simp_all
  note eff = ow_Stage_effect [OF assms(1) run]
  note others = eff [THEN conjunct1, rule_format]
  have hdr: "readOverwriteHeader (storePath dir' key tmpExt) (coFiles co') \<noteq> Some g" if "dir' \<in> set dirs" for dir'
  proof (cases "dir' = dir \<and> mget (coFiles co') (storePath dir key tmpExt) \<noteq> mget (coFiles co) (storePath dir key tmpExt)")
    case True
    with eff consider "mget (coFiles co') (storePath dir key tmpExt) = None"
      | n where "mget (coFiles co') (storePath dir key tmpExt) = Some (take n (encodeOverwrite g1 b))" by (metis (no_types))
    then show ?thesis
    proof cases
      case 1
      with True show ?thesis by (simp add: readOverwriteHeader_def)
    next
      case 2
      from readOverwriteHeader_torn [OF this] True assms(3) show ?thesis by auto
    qed
  next
    case False
    then have "mget (coFiles co') (storePath dir' key tmpExt) = mget (coFiles co) (storePath dir' key tmpExt)"
      using others [of "storePath dir' key tmpExt"] by (cases "dir' = dir") simp_all
    then have "readOverwriteHeader (storePath dir' key tmpExt) (coFiles co')
             = readOverwriteHeader (storePath dir' key tmpExt) (coFiles co)"
      by (rule readOverwriteHeader_cong)
    with assms(4) that show ?thesis by (simp add: beforeCommit_def)
  qed
  have "mget (coFiles co') (storePath dir' key fileExt) = mget (coFiles co) (storePath dir' key fileExt)" for dir'
    using others [of "storePath dir' key fileExt"] by simp
  with hdr assms(4) host eff show ?thesis by (simp add: beforeCommit_def)
qed

lemma stageSlots_phase:
  assumes "validKey key = Inr ()" "g1 \<noteq> g"
  shows "stageSlots xs c key g1 co = (r, co') \<Longrightarrow> beforeCommit dirs key g d0 (coFiles co)
    \<Longrightarrow> distinct (map fst xs) \<Longrightarrow> set (map fst xs) \<subseteq> set dirs
    \<Longrightarrow> \<forall>(dir, x)\<in>set xs. snapshotClient x c (coHost co) = (Inr (snap dir), coHost co)
    \<Longrightarrow> beforeCommit dirs key g d0 (coFiles co') \<and> coHost co' = coHost co \<and> coGen co' = coGen co
      \<and> (\<forall>p. (\<forall>dir\<in>set (map fst xs). p \<noteq> storePath dir key tmpExt) \<longrightarrow> mget (coFiles co') p = mget (coFiles co) p)
      \<and> (r = IOk () \<longrightarrow> (\<forall>dir\<in>set (map fst xs). mget (coFiles co') (storePath dir key tmpExt) = Some (encodeOverwrite g1 (snap dir))))"
proof (induction xs arbitrary: co)
  case Nil
  then show ?case by (simp add: ioret_def)
next
  case (Cons a xs)
  obtain dir x where a: "a = (dir, x)" by (cases a)
  have snap: "liftHost (snapshotClient x c) co = (IOk (snap dir), co)"
    using Cons.prems(5) by (simp add: a liftHost_def)
  obtain r1 co1 where st: "liftFs (ow_Stage dir key g1 (snap dir)) co = (r1, co1)" by fastforce
  note one = stage_step [OF assms(1) st assms(2) Cons.prems(2)]
  have dir: "dir \<in> set dirs" using Cons.prems(4) by (simp add: a)
  have run: "stageSlots (a # xs) c key g1 co = iobind (liftFs (ow_Stage dir key g1 (snap dir))) (\<lambda>_. stageSlots xs c key g1) co"
    by (simp add: a iobind_def snap)
  show ?case
  proof (cases r1)
    case (IOk u)
    then have rest: "stageSlots xs c key g1 co1 = (r, co')"
      using Cons.prems(1) by (simp add: run iobind_def st IOk)
    note ih = Cons.IH [OF rest]
    have "beforeCommit dirs key g d0 (coFiles co')
      \<and> coHost co' = coHost co1 \<and> coGen co' = coGen co1
      \<and> (\<forall>p. (\<forall>dir\<in>set (map fst xs). p \<noteq> storePath dir key tmpExt) \<longrightarrow> mget (coFiles co') p = mget (coFiles co1) p)
      \<and> (r = IOk () \<longrightarrow> (\<forall>dir\<in>set (map fst xs). mget (coFiles co') (storePath dir key tmpExt) = Some (encodeOverwrite g1 (snap dir))))"
      using one [OF dir] Cons.prems(3,4,5) by (intro ih) (auto simp: a)
    moreover have "\<forall>dir'\<in>set (map fst xs). storePath dir key tmpExt \<noteq> storePath dir' key tmpExt"
      using Cons.prems(3) by (auto simp: a)
    ultimately show ?thesis using one [OF dir] IOk by (simp add: a)
  next
    case (IErr e)
    have "r = IErr e" "co' = co1"
      using Cons.prems(1) unfolding run by (simp_all add: iobind_def st IErr)
    with one [OF dir] show ?thesis by (auto simp: a)
  next
    case ICrash
    have "r = ICrash" "co' = co1"
      using Cons.prems(1) unfolding run by (simp_all add: iobind_def st ICrash)
    with one [OF dir] show ?thesis by (auto simp: a)
  qed
qed

lemma promoteSlots_phase:
  assumes "validKey key = Inr ()"
  shows "promoteSlots xs key g co = (r, co') \<Longrightarrow> distinct (map fst xs)
    \<Longrightarrow> set (map fst xs) \<subseteq> set (map fst new) \<Longrightarrow> distinct (map fst new)
    \<Longrightarrow> afterCommit new key g (coFiles co)
    \<Longrightarrow> \<forall>(dir, b)\<in>set new. dir \<in> set (map fst xs) \<longrightarrow> mget (coFiles co) (storePath dir key tmpExt) = Some (encodeOverwrite g b)
    \<Longrightarrow> seenDir \<notin> set (map fst xs)
    \<Longrightarrow> afterCommit new key g (coFiles co') \<and> coHost co' = coHost co \<and> coGen co' = coGen co
      \<and> mget (coFiles co') (storePath seenDir key logExt) = mget (coFiles co) (storePath seenDir key logExt)
      \<and> (\<forall>p. (\<forall>dir\<in>set (map fst xs). p \<noteq> storePath dir key tmpExt \<and> p \<noteq> storePath dir key fileExt)
            \<longrightarrow> mget (coFiles co') p = mget (coFiles co) p)
      \<and> (r = IOk () \<longrightarrow> (\<forall>dir\<in>set (map fst xs). mget (coFiles co') (storePath dir key tmpExt) = None))"
proof (induction xs arbitrary: co)
  case Nil
  then show ?case by (simp add: ioret_def)
next
  case (Cons a xs)
  obtain dir x where a: "a = (dir, x)" by (cases a)
  from Cons.prems(3) obtain b where b: "(dir, b) \<in> set new" by (auto simp: a)
  then have tmp: "mget (coFiles co) (storePath dir key tmpExt) = Some (encodeOverwrite g b)"
    using Cons.prems(6) by (auto simp: a)
  obtain r1 co1 where pr: "liftFs (ow_Promote dir key g) co = (r1, co1)" by fastforce
  then have pr': "ow_Promote dir key g (coFs co) = (r1, coFs co1)"
    and host: "coHost co1 = coHost co" "coGen co1 = coGen co" using liftFs_result [OF pr] by simp_all
  note eff = ow_Promote_effect [OF assms pr' tmp]
  note others = eff [THEN conjunct1, rule_format]
  have uniq: "b' = b" if "(dir, b') \<in> set new" for b'
    using that b Cons.prems(4) by (meson eq_key_imp_eq_value)
  have after1: "afterCommit new key g (coFiles co1)"
    unfolding afterCommit_def
  proof (intro ballI, clarify)
    fix dir' b'
    assume in': "(dir', b') \<in> set new"
      and gone: "\<not> (mget (coFiles co1) (storePath dir' key tmpExt) = None
        \<and> mget (coFiles co1) (storePath dir' key fileExt) = Some (encodeOverwrite g b'))"
    show "mget (coFiles co1) (storePath dir' key tmpExt) = Some (encodeOverwrite g b')"
    proof (cases "dir' = dir")
      case True
      with in' gone uniq eff show ?thesis by auto
    next
      case False
      then have "mget (coFiles co1) (storePath dir' key tmpExt) = mget (coFiles co) (storePath dir' key tmpExt)"
        "mget (coFiles co1) (storePath dir' key fileExt) = mget (coFiles co) (storePath dir' key fileExt)"
        using others by simp_all
      with in' gone Cons.prems(5) show ?thesis by (auto simp: afterCommit_def)
    qed
  qed
  have log: "mget (coFiles co1) (storePath seenDir key logExt) = mget (coFiles co) (storePath seenDir key logExt)"
    using others [of "storePath seenDir key logExt"] Cons.prems(7) by (simp add: a)
  have tmps: "\<forall>(dir', b')\<in>set new. dir' \<in> set (map fst xs) \<longrightarrow> mget (coFiles co1) (storePath dir' key tmpExt) = Some (encodeOverwrite g b')"
  proof (intro ballI, clarify)
    fix dir' b' x'
    assume in': "(dir', b') \<in> set new" and "dir' \<in> set (map fst xs)"
    moreover from this Cons.prems(2) have "dir' \<noteq> dir" by (auto simp: a)
    ultimately show "mget (coFiles co1) (storePath dir' key tmpExt) = Some (encodeOverwrite g b')"
      using others [of "storePath dir' key tmpExt"] Cons.prems(6) by (auto simp: a)
  qed
  show ?case
  proof (cases r1)
    case (IOk u)
    then have rest: "promoteSlots xs key g co1 = (r, co')"
      using Cons.prems(1) by (simp add: a iobind_def pr IOk)
    have prems: "distinct (map fst xs)" "set (map fst xs) \<subseteq> set (map fst new)" "seenDir \<notin> set (map fst xs)"
      using Cons.prems(2,3,7) by (simp_all add: a)
    note ih = Cons.IH [OF rest prems(1,2) Cons.prems(4) after1 tmps prems(3)]
    have "\<forall>dir'\<in>set (map fst xs). storePath dir key tmpExt \<noteq> storePath dir' key tmpExt
        \<and> storePath dir key tmpExt \<noteq> storePath dir' key fileExt"
      using Cons.prems(2) by (auto simp: a)
    with ih have "mget (coFiles co') (storePath dir key tmpExt) = mget (coFiles co1) (storePath dir key tmpExt)"
      by blast
    with ih IOk host log eff show ?thesis by (simp add: a)
  next
    case (IErr e)
    have "r = IErr e" "co' = co1" using Cons.prems(1) by (simp_all add: a iobind_def pr IErr)
    with after1 host log others show ?thesis by (simp add: a)
  next
    case ICrash
    have "r = ICrash" "co' = co1" using Cons.prems(1) by (simp_all add: a iobind_def pr ICrash)
    with after1 host log others show ?thesis by (simp add: a)
  qed
qed

text \<open>The view before and after the commit point.\<close>

lemma view_before:
  assumes "beforeCommit dirs key g d0 d" "beforeCommit dirs key g d0 d0"
    "logRecs key d = logRecs key d0" "maxGen (logRecs key d0) = g"
  shows "clientView dirs key d = clientView dirs key d0"
  using assms(3,4) slotView_before [OF assms(1,2)] by (simp add: clientView_def Let_def)

lemma view_after:
  assumes "afterCommit (map (\<lambda>dir. (dir, snap dir)) dirs) key g d" "maxGen (logRecs key d) = g"
  shows "clientView dirs key d
    = (g, map recPayload (logRecs key d), map (\<lambda>dir. (dir, Inr (Some (snap dir)))) dirs)"
  using assms(2) slotView_after [OF assms(1)] by (simp add: clientView_def Let_def)

lemma next_gen: "unat (g :: 64 word) + 1 < 2 ^ 64 \<Longrightarrow> g < g + 1 \<and> g + 1 \<noteq> g"
  by (simp add: word_less_nat_alt unat_word_ariths)

lemma settled_before:
  "settled dirs key recs g d \<Longrightarrow> beforeCommit dirs key g d d \<and> logRecs key d = recs \<and> maxGen recs = g"
  by (simp add: settled_def beforeCommit_def logRecs_eq loadLoop_clean)

text \<open>The commit point itself: the append either leaves the old log or completes the new one.\<close>

lemma append_phase:
  assumes "validKey key = Inr ()" "liftFs (ap_Append seenDir key (g + 1) delta) co = (r, co')"
    "mgetd [] (coFiles co) (storePath seenDir key logExt) = logBytes recs" "wf_recs recs" "maxGen recs = g"
    "length delta < 2 ^ 32" "unat g + 1 < 2 ^ 64"
  defines "recs' \<equiv> recs @ [\<lparr>Gen = g + 1, recPayload = delta\<rparr>]"
  shows "(\<forall>p. p \<noteq> storePath seenDir key logExt \<longrightarrow> mget (coFiles co') p = mget (coFiles co) p)
    \<and> (logRecs key (coFiles co') = recs \<or> logRecs key (coFiles co') = recs') \<and> maxGen recs' = g + 1
    \<and> coHost co' = coHost co \<and> coGen co' = coGen co
    \<and> (r = IOk () \<longrightarrow> mgetd [] (coFiles co') (storePath seenDir key logExt) = logBytes recs'
         \<and> logRecs key (coFiles co') = recs')"
proof -
  have run: "ap_Append seenDir key (g + 1) delta (coFs co) = (r, coFs co')"
    and host: "coHost co' = coHost co" "coGen co' = coGen co"
    using liftFs_result [OF assms(2)] by simp_all
  note eff = ap_Append_effect [OF assms(1) run]
  from eff obtain n where n: "mgetd [] (coFiles co') (storePath seenDir key logExt)
      = logBytes recs @ take n (encodeRecord (g + 1) delta)" by (auto simp: assms(3))
  have wf: "wf_recs recs'" using assms(4,6) by (simp add: recs'_def wf_recs_def)
  have full: "mgetd [] (coFiles co') (storePath seenDir key logExt) = logBytes recs'" if "r = IOk ()"
    using eff that by (simp add: assms(3) recs'_def)
  then have "logRecs key (coFiles co') = recs'" if "r = IOk ()"
    using that by (simp add: logRecs_eq loadLoop_clean [OF wf])
  moreover have "maxGen recs' = g + 1"
    using next_gen [OF assms(7)] by (simp add: recs'_def maxGen_snoc assms(5))
  ultimately show ?thesis
    using eff full host logRecs_torn [OF n assms(4,6)] by (auto simp: recs'_def)
qed

text \<open>From the stage phase to the end: every file the checkpoint writes, at every point it can stop.\<close>

lemma checkpoint_outcome:
  assumes run: "coCheckpoint src c co = (r, co')"
    and key: "key = uuidString src c" "validKey key = Inr ()"
    and g: "mgetd 0 (coGen co) c = g" "unat g + 1 < 2 ^ 64"
    and dirs: "dirs = map fst (slots src)"
    and settled: "settled dirs key recs g (coFiles co)"
    and snap: "\<forall>(dir, x)\<in>set (slots src). snapshotClient x c (coHost co) = (Inr (snap dir), coHost co)"
    and drain: "srcDrain (srcSeen src) c (coHost co) = (Inr delta, coHost co)" "length delta < 2 ^ 32"
  defines "new \<equiv> map (\<lambda>dir. (dir, snap dir)) dirs"
    and "recs' \<equiv> recs @ [\<lparr>Gen = g + 1, recPayload = delta\<rparr>]"
  shows "(r \<noteq> IOk () \<and> beforeCommit dirs key g (coFiles co) (coFiles co') \<and> logRecs key (coFiles co') = recs)
    \<or> (afterCommit new key (g + 1) (coFiles co') \<and> logRecs key (coFiles co') = recs' \<and> maxGen recs' = g + 1
        \<and> (r = IOk () \<longrightarrow> settled dirs key recs' (g + 1) (coFiles co')))"
proof -
  have g1: "g + 1 \<noteq> g" using next_gen [OF g(2)] by simp
  have start: "beforeCommit dirs key g (coFiles co) (coFiles co)" "logRecs key (coFiles co) = recs" "maxGen recs = g"
    using settled_before [OF settled] by simp_all
  have log0: "mgetd [] (coFiles co) (storePath seenDir key logExt) = logBytes recs" "wf_recs recs"
    using settled by (simp_all add: settled_def)
  have dist: "distinct (map fst (slots src))" "seenDir \<notin> set (map fst (slots src))"
    using slots_dirs [of src] by simp_all
  obtain r1 co1 where s1: "stageSlots (slots src) c key (g + 1) co = (r1, co1)" by fastforce
  note ph1 = stageSlots_phase [OF key(2) g1 s1 start(1) dist(1) _ snap, unfolded dirs [symmetric], OF subset_refl]
  have log1: "mgetd [] (coFiles co1) (storePath seenDir key logExt) = logBytes recs"
    using ph1 log0(1) by (simp add: mgetd_def)
  then have recs1: "logRecs key (coFiles co1) = recs" by (simp add: logRecs_eq loadLoop_clean log0(2))
  show ?thesis
  proof (cases "r1 = IOk ()")
    case False
    then have "r \<noteq> IOk () \<and> co' = co1"
      using run by (cases r1) (auto simp: coCheckpoint_def Let_def g(1) key(1) [symmetric] iobind_def s1)
    with ph1 recs1 show ?thesis by simp
  next
    case True
    obtain r2 co2 where s2: "liftFs (ap_Append seenDir key (g + 1) delta) co1 = (r2, co2)" by fastforce
    note ph2 = append_phase [OF key(2) s2 log1 log0(2) start(3) drain(2) g(2), folded recs'_def]
    have drain1: "liftHost (srcDrain (srcSeen src) c) co1 = (IOk delta, co1)"
      using ph1 drain(1) by (simp add: liftHost_def)
    have before2: "beforeCommit dirs key g (coFiles co) (coFiles co2)"
      using ph1 ph2 by (simp add: beforeCommit_def readOverwriteHeader_def)
    have staged: "mget (coFiles co2) (storePath dir key tmpExt) = Some (encodeOverwrite (g + 1) (snap dir))"
      if "dir \<in> set dirs" for dir
      using ph1 ph2 that True by simp
    then have after2: "afterCommit new key (g + 1) (coFiles co2)" by (auto simp: afterCommit_def new_def)
    show ?thesis
    proof (cases "r2 = IOk ()")
      case False
      then have "r \<noteq> IOk () \<and> co' = co2"
        using run True by (cases r2) (auto simp: coCheckpoint_def Let_def g(1) key(1) [symmetric] iobind_def s1 drain1 s2)
      with before2 after2 ph2 show ?thesis by auto
    next
      case ok2: True
      let ?tail = "iobind (liftHost (srcCommit (srcSeen src) c)) (\<lambda>_. promoteSlots (slots src) key (g + 1))"
      let ?co2 = "co2\<lparr>coGen := mput c (g + 1) (coGen co2)\<rparr>"
      have tail: "?tail ?co2 = (r, co')"
        using run True ok2
        by (simp add: coCheckpoint_def Let_def g(1) key(1) [symmetric] iobind_def s1 drain1 s2 commitGen_def)
      obtain r3 co3 where s3: "liftHost (srcCommit (srcSeen src) c) ?co2 = (r3, co3)" by fastforce
      have files3: "coFs co3 = coFs co2" using s3 by (auto simp: liftHost_def split: prod.splits sum.splits)
      show ?thesis
      proof (cases "r3 = IOk ()")
        case False
        then have "r \<noteq> IOk () \<and> co' = co3" using tail s3 by (cases r3) (auto simp: iobind_def)
        with after2 ph2 ok2 files3 show ?thesis by simp
      next
        case True
        then have s4: "promoteSlots (slots src) key (g + 1) co3 = (r, co')" using tail s3 by (simp add: iobind_def)
        have new: "set (map fst (slots src)) \<subseteq> set (map fst new)" "distinct (map fst new)"
          using dist(1) by (auto simp: new_def dirs comp_def)
        have st3: "\<forall>(dir, b)\<in>set new. dir \<in> set (map fst (slots src))
            \<longrightarrow> mget (coFiles co3) (storePath dir key tmpExt) = Some (encodeOverwrite (g + 1) b)"
          using staged files3 by (auto simp: new_def)
        have "afterCommit new key (g + 1) (coFiles co3)" using after2 files3 by simp
        note ph4 = promoteSlots_phase [OF key(2) s4 dist(1) new this st3 dist(2), folded dirs]
        have "wf_recs recs'" using log0(2) drain(2) by (simp add: recs'_def wf_recs_def)
        moreover have "mgetd [] (coFiles co') (storePath seenDir key logExt) = logBytes recs'"
          "logRecs key (coFiles co') = recs'"
          using ph4 ph2 ok2 files3 by (simp_all add: mgetd_def logRecs_def)
        ultimately show ?thesis using ph4 ph2 by (auto simp: settled_def readOverwriteHeader_def)
      qed
    qed
  qed
qed

end
