(* ===== verification/Recovery.thy ===== *)
theory Recovery
  imports CrashSafety
begin

text \<open>
  Recovery of a client from an arbitrary disk, and the properties of the checkpoint coordinator:
  atomicity of a checkpoint under crashes and I/O errors, completeness of recovery, and the order
  of persisting and acknowledging.
\<close>

section \<open>The log file\<close>

lemma PutUint_Uint:
  "length bs = 4 \<Longrightarrow> PutUint32 (Uint32 bs) = bs" "length cs = 8 \<Longrightarrow> PutUint64 (Uint64 cs) = cs"
  using be_nat_less [of bs] be_nat_less [of cs] be_bytes_be_nat [of bs] be_bytes_be_nat [of cs]
  by (simp_all add: PutUint32_def Uint32_def PutUint64_def Uint64_def unat_of_nat)

text \<open>Every record the decoder accepts is the encoding of what it returns.\<close>

lemma decodeRecordAt_canonical:
  assumes "decodeRecordAt raw off = Some (g, p, nx)"
  shows "length p < 2 ^ 32 \<and> nx = off + 16 + length p
    \<and> drop off raw = encodeRecord g p @ drop nx raw"
proof -
  define n where "n = unat (Uint32 (take 4 (drop off raw)))"
  have len: "off + 16 + n \<le> length raw" and nx: "nx = off + 16 + n"
    and p: "p = take n (drop (off + 16) raw)" and g: "g = Uint64 (take 8 (drop (off + 4) raw))"
    and crc: "recordCrc (take 8 (drop (off + 4) raw)) p = Uint32 (take 4 (drop (off + 12) raw))"
    using assms by (auto simp: decodeRecordAt_def recordHeaderLen_def Let_def n_def split: if_splits)
  have lp: "length p = n" using len p by simp
  have "PutUint32 (word_of_nat (length p)) = take 4 (drop off raw)"
    using len by (simp add: lp n_def PutUint_Uint)
  moreover have "PutUint64 g = take 8 (drop (off + 4) raw)" using len by (simp add: g PutUint_Uint)
  moreover have "PutUint32 (recordCrc (take 8 (drop (off + 4) raw)) p) = take 4 (drop (off + 12) raw)"
    using len by (simp add: crc PutUint_Uint)
  ultimately have enc: "encodeRecord g p
      = take 4 (drop off raw) @ take 8 (drop (off + 4) raw) @ take 4 (drop (off + 12) raw) @ p"
    by (simp add: encodeRecord_def)
  have "drop off raw = take 4 (drop off raw) @ drop (off + 4) raw"
    and "drop (off + 4) raw = take 8 (drop (off + 4) raw) @ drop (off + 12) raw"
    and "drop (off + 12) raw = take 4 (drop (off + 12) raw) @ drop (off + 16) raw"
    and "drop (off + 16) raw = p @ drop nx raw"
    using append_take_drop_id [of 4 "drop off raw"] append_take_drop_id [of 8 "drop (off + 4) raw"]
      append_take_drop_id [of 4 "drop (off + 12) raw"] append_take_drop_id [of n "drop (off + 16) raw"]
    by (simp_all add: p nx ac_simps)
  then have "drop off raw = encodeRecord g p @ drop nx raw" unfolding enc by (metis append_assoc)
  moreover have "n < 2 ^ 32" using unsigned_less [of "Uint32 (take 4 (drop off raw))", where 'a = nat] by (simp add: n_def)
  ultimately show ?thesis using lp nx by simp
qed

lemma loadLoop_decompose:
  "off \<le> length raw \<Longrightarrow> wf_recs (loadLoop raw off) \<and> (\<exists>tail. drop off raw = logBytes (loadLoop raw off) @ tail)
    \<and> decodeRecordAt raw (off + length (logBytes (loadLoop raw off))) = None"
proof (induction raw off rule: loadLoop.induct)
  case (1 raw off)
  show ?case
  proof (cases "decodeRecordAt raw off")
    case None
    then show ?thesis by (simp add: loadLoop.simps [of raw off] wf_recs_def)
  next
    case (Some t)
    obtain g p nx where t: "t = (g, p, nx)" by (cases t)
    note can = decodeRecordAt_canonical [OF Some [unfolded t]]
    have "nx \<le> length raw" using decodeRecordAt_progress [OF Some [unfolded t]] by simp
    note ih = "1.IH" [OF Some t [symmetric] refl this]
    have "loadLoop raw off = \<lparr>Gen = g, recPayload = p\<rparr> # loadLoop raw nx"
      by (subst loadLoop.simps) (simp add: Some t)
    with can ih show ?thesis by (auto simp: wf_recs_def ac_simps)
  qed
qed

section \<open>Restoring a client\<close>

text \<open>What the coordinator's callbacks make of a view: every slot that has data is restored, in order, and then the payloads are replayed.\<close>

fun restoreViews :: "('w Checkpointable \<times> bytes option result) list \<Rightarrow> uuid \<Rightarrow> 'w \<Rightarrow> unit result \<times> 'w" where
  "restoreViews [] c w = (Inr (), w)"
| "restoreViews ((x, Inl e) # xs) c w = (Inl e, w)"
| "restoreViews ((x, Inr None) # xs) c w = restoreViews xs c w"
| "restoreViews ((x, Inr (Some b)) # xs) c w =
     (case restoreClient x c b w of (Inl e, w) \<Rightarrow> (Inl e, w) | (Inr _, w) \<Rightarrow> restoreViews xs c w)"

fun replayPayloads :: "'w AppendSource \<Rightarrow> bytes list \<Rightarrow> uuid \<Rightarrow> 'w \<Rightarrow> unit result \<times> 'w" where
  "replayPayloads a [] c w = (Inr (), w)"
| "replayPayloads a (p # ps) c w =
     (case srcReplay a c p w of (Inl e, w) \<Rightarrow> (Inl e, w) | (Inr _, w) \<Rightarrow> replayPayloads a ps c w)"

definition rebuildHost ::
  "'w sources \<Rightarrow> uuid \<Rightarrow> 64 word \<times> bytes list \<times> (string \<times> bytes option result) list \<Rightarrow> 'w \<Rightarrow> unit result \<times> 'w" where
  "rebuildHost src c view w =
     (case view of (g, payloads, vs) \<Rightarrow>
      (case restoreViews (zip (map snd (slots src)) (map snd vs)) c w of
         (Inl e, w) \<Rightarrow> (Inl e, w)
       | (Inr _, w) \<Rightarrow> replayPayloads (srcSeen src) payloads c w))"

lemma promote_no_script:
  assumes "validKey key = Inr ()" "script s = []"
  shows "\<exists>s'. ow_Promote dir key g s = (IOk (), s') \<and> script s' = []
    \<and> mget (files s') (storePath dir key tmpExt) = None
    \<and> mget (files s') (storePath dir key fileExt)
        = (if readOverwriteHeader (storePath dir key tmpExt) (files s) = Some g
           then mget (files s) (storePath dir key tmpExt) else mget (files s) (storePath dir key fileExt))
    \<and> (\<forall>p. p \<noteq> storePath dir key tmpExt \<and> p \<noteq> storePath dir key fileExt
            \<longrightarrow> mget (files s') p = mget (files s) p)"
proof (cases "mget (files s) (storePath dir key tmpExt)")
  case None
  then show ?thesis
    using assms by (simp add: ow_Promote_def iobind_getFiles Let_def readOverwriteHeader_def ioret_def)
next
  case (Some raw)
  then show ?thesis
    using assms by (simp add: ow_Promote_def getFiles_def Let_def iobind_def doOp_no_script)
qed

lemma restoreOverwrite_no_script:
  assumes "validKey key = Inr ()" "script (coFs co) = []"
    "restoreViews ((x, slotView dir key g (coFiles co)) # vs) c (coHost co) = (Inr (), w')"
  shows "\<exists>co'. restoreOverwrite dir x c key g co = (IOk (), co') \<and> script (coFs co') = []
    \<and> restoreViews vs c (coHost co') = (Inr (), w') \<and> coGen co' = coGen co
    \<and> mget (coFiles co') (storePath dir key tmpExt) = None
    \<and> slotView dir key g (coFiles co') = slotView dir key g (coFiles co)
    \<and> (\<forall>p. p \<noteq> storePath dir key tmpExt \<and> p \<noteq> storePath dir key fileExt
            \<longrightarrow> mget (coFiles co') p = mget (coFiles co) p)"
proof -
  obtain s' where s': "ow_Promote dir key g (coFs co) = (IOk (), s')" "script s' = []"
    "mget (files s') (storePath dir key tmpExt) = None"
    "mget (files s') (storePath dir key fileExt)
        = (if readOverwriteHeader (storePath dir key tmpExt) (coFiles co) = Some g
           then mget (coFiles co) (storePath dir key tmpExt) else mget (coFiles co) (storePath dir key fileExt))"
    "\<forall>p. p \<noteq> storePath dir key tmpExt \<and> p \<noteq> storePath dir key fileExt \<longrightarrow> mget (files s') p = mget (coFiles co) p"
    using promote_no_script [OF assms(1,2)] by blast
  have view: "slotView dir key g (files s') = slotView dir key g (coFiles co)"
    using s'(3,4) by (simp add: slotView_def readOverwriteHeader_def Let_def)
  have load: "ow_Load dir key (files s') = (case slotView dir key g (coFiles co) of
      Inl e \<Rightarrow> Inl e | Inr None \<Rightarrow> Inr None
    | Inr (Some b) \<Rightarrow> Inr (Some (b, snd (projr (decodeOverwrite (the (mget (files s') (storePath dir key fileExt))))))))"
    unfolding view [symmetric] using assms(1) s'(3)
    by (auto simp: ow_Load_def slotView_def readOverwriteHeader_def rbind_def split: option.splits sum.splits)
  have run: "restoreOverwrite dir x c key g co = (case slotView dir key g (coFiles co) of
      Inl e \<Rightarrow> (IErr e, co\<lparr>coFs := s'\<rparr>) | Inr None \<Rightarrow> (IOk (), co\<lparr>coFs := s'\<rparr>)
    | Inr (Some b) \<Rightarrow> liftHost (restoreClient x c b) (co\<lparr>coFs := s'\<rparr>))"
    by (auto simp: restoreOverwrite_def iobind_def liftFs_def s'(1) load split: sum.splits option.splits)
  show ?thesis
    using assms(3) s' view
    by (auto simp: run liftHost_def split: sum.splits option.splits prod.splits)
qed

lemma slotView_cong:
  "mget d (storePath dir key tmpExt) = mget d' (storePath dir key tmpExt)
    \<Longrightarrow> mget d (storePath dir key fileExt) = mget d' (storePath dir key fileExt)
    \<Longrightarrow> slotView dir key g d = slotView dir key g d'"
  by (simp add: slotView_def readOverwriteHeader_def Let_def)

lemma restoreSlots_no_script:
  assumes "validKey key = Inr ()"
  shows "script (coFs co) = [] \<Longrightarrow> distinct (map fst xs)
    \<Longrightarrow> restoreViews (map (\<lambda>(dir, x). (x, slotView dir key g (coFiles co))) xs) c (coHost co) = (Inr (), w')
    \<Longrightarrow> \<exists>co'. restoreSlots xs c key g co = (IOk (), co') \<and> script (coFs co') = []
      \<and> coHost co' = w' \<and> coGen co' = coGen co
      \<and> (\<forall>dir\<in>set (map fst xs). mget (coFiles co') (storePath dir key tmpExt) = None
            \<and> slotView dir key g (coFiles co') = slotView dir key g (coFiles co))
      \<and> (\<forall>p. (\<forall>dir\<in>set (map fst xs). p \<noteq> storePath dir key tmpExt \<and> p \<noteq> storePath dir key fileExt)
            \<longrightarrow> mget (coFiles co') p = mget (coFiles co) p)"
proof (induction xs arbitrary: co)
  case Nil
  then show ?case by (simp add: ioret_def)
next
  case (Cons a xs)
  obtain dir x where a: "a = (dir, x)" by (cases a)
  let ?vs = "map (\<lambda>(dir, x). (x, slotView dir key g (coFiles co))) xs"
  have "restoreViews ((x, slotView dir key g (coFiles co)) # ?vs) c (coHost co) = (Inr (), w')"
    using Cons.prems(3) by (simp add: a)
  from restoreOverwrite_no_script [OF assms Cons.prems(1) this] obtain co1 where
    co1: "restoreOverwrite dir x c key g co = (IOk (), co1)" "script (coFs co1) = []"
      "restoreViews ?vs c (coHost co1) = (Inr (), w')" "coGen co1 = coGen co"
      "mget (coFiles co1) (storePath dir key tmpExt) = None"
      "slotView dir key g (coFiles co1) = slotView dir key g (coFiles co)"
    and others: "\<forall>p. p \<noteq> storePath dir key tmpExt \<and> p \<noteq> storePath dir key fileExt
            \<longrightarrow> mget (coFiles co1) p = mget (coFiles co) p"
    by blast
  have views: "slotView dir' key g (coFiles co1) = slotView dir' key g (coFiles co)" if "dir' \<in> set (map fst xs)" for dir'
  proof -
    have "dir' \<noteq> dir" using that Cons.prems(2) by (auto simp: a)
    then show ?thesis using others by (intro slotView_cong) simp_all
  qed
  then have "map (\<lambda>(dir, x). (x, slotView dir key g (coFiles co1))) xs = ?vs" by force
  with co1(3) Cons.IH [OF co1(2)] Cons.prems(2) obtain co' where
    co': "restoreSlots xs c key g co1 = (IOk (), co')" "script (coFs co') = []" "coHost co' = w'" "coGen co' = coGen co1"
      "\<forall>dir\<in>set (map fst xs). mget (coFiles co') (storePath dir key tmpExt) = None
            \<and> slotView dir key g (coFiles co') = slotView dir key g (coFiles co1)"
    and others': "\<forall>p. (\<forall>dir\<in>set (map fst xs). p \<noteq> storePath dir key tmpExt \<and> p \<noteq> storePath dir key fileExt)
            \<longrightarrow> mget (coFiles co') p = mget (coFiles co1) p"
    by auto
  have fresh: "\<forall>dir'\<in>set (map fst xs). dir \<noteq> dir'" using Cons.prems(2) by (auto simp: a)
  then have keep: "mget (coFiles co') (storePath dir key tmpExt) = mget (coFiles co1) (storePath dir key tmpExt)"
    "mget (coFiles co') (storePath dir key fileExt) = mget (coFiles co1) (storePath dir key fileExt)"
    using others' by simp_all
  then have "slotView dir key g (coFiles co') = slotView dir key g (coFiles co1)" by (rule slotView_cong)
  with keep co' co1 views others others' show ?case by (auto simp: a iobind_def)
qed

lemma replayAll_payloads:
  "replayPayloads a (map recPayload recs) c (coHost co) = (Inr (), w')
    \<Longrightarrow> replayAll a c recs co = (IOk (), co\<lparr>coHost := w'\<rparr>)"
proof (induction recs arbitrary: co)
  case (Cons r recs)
  then obtain u w1 where "srcReplay a c (recPayload r) (coHost co) = (Inr u, w1)"
    "replayPayloads a (map recPayload recs) c w1 = (Inr (), w')"
    by (auto split: prod.splits sum.splits)
  with Cons.IH [of "co\<lparr>coHost := w1\<rparr>"] show ?case by (simp add: iobind_def liftHost_def)
qed (simp add: ioret_def)

lemma truncate_no_script:
  assumes "validKey key = Inr ()" "script s = []"
  defines "p \<equiv> storePath seenDir key logExt" and "recs \<equiv> logRecs key (files s)"
  shows "\<exists>s'. ap_Truncate seenDir key (maxGen recs) s = (IOk (), s') \<and> script s' = []
    \<and> mgetd [] (files s') p = logBytes recs \<and> wf_recs recs
    \<and> (\<forall>q. q \<noteq> p \<longrightarrow> mget (files s') q = mget (files s) q)"
proof (cases "mget (files s) p")
  case None
  then show ?thesis
    using assms(1,2) by (simp add: ap_Truncate_def iobind_getFiles ioret_def p_def recs_def logRecs_def wf_recs_def mgetd_def)
next
  case (Some raw)
  then have recs: "recs = loadLoop raw 0" by (simp add: recs_def logRecs_def p_def)
  obtain tail where wf: "wf_recs recs" and raw: "raw = logBytes recs @ tail"
    and stop: "decodeRecordAt raw (length (logBytes recs)) = None"
    using loadLoop_decompose [of 0 raw, folded recs] by auto
  have cut: "truncLoop raw (maxGen recs) 0 = length (logBytes recs)"
    using truncLoop_log [OF wf, of "maxGen recs" "[]" tail] stop raw by (simp add: maxGen_ge)
  have prefix: "take (length (logBytes recs)) raw = logBytes recs" by (subst raw) simp
  have full: "raw = logBytes recs" if "length (logBytes recs) = length raw" using prefix that by simp
  have run: "ap_Truncate seenDir key (maxGen recs) s =
      (if length (logBytes recs) = length raw then (IOk (), s)
       else (IOk (), s\<lparr>files := applyDop (TruncateFile p (length (logBytes recs))) (files s)\<rparr>))"
    using assms(1,2) Some
    by (simp add: ap_Truncate_def getFiles_def iobind_def ioret_def p_def cut doOp_no_script Let_def)
  show ?thesis
  proof (cases "length (logBytes recs) = length raw")
    case True
    then have "mgetd [] (files s) p = logBytes recs" using full Some by (simp add: mgetd_def)
    with True wf run assms(2) show ?thesis by auto
  next
    case False
    with Some wf run assms(2) prefix show ?thesis by (simp add: mgetd_def)
  qed
qed

section \<open>Properties\<close>

lemma clientView_cong:
  assumes "logRecs key d = logRecs key d'" "\<And>dir g. dir \<in> set dirs \<Longrightarrow> slotView dir key g d = slotView dir key g d'"
  shows "clientView dirs key d = clientView dirs key d'"
  using assms by (simp add: clientView_def Let_def)

lemma zip_views:
  "zip (map snd xs) (map snd (map (\<lambda>dir. (dir, f dir)) (map fst xs))) = map (\<lambda>(dir, x). (x, f dir)) xs"
  by (induction xs) auto

lemma rebuildHost_view:
  "rebuildHost src c (clientView (map fst (slots src)) key d) w =
     (case restoreViews (map (\<lambda>(dir, x). (x, slotView dir key (maxGen (logRecs key d)) d)) (slots src)) c w of
         (Inl e, w) \<Rightarrow> (Inl e, w)
       | (Inr _, w) \<Rightarrow> replayPayloads (srcSeen src) (map recPayload (logRecs key d)) c w)"
  unfolding rebuildHost_def clientView_def Let_def prod.case zip_views ..



lemma recoverKey_rebuilds:
  assumes "uuidParse src key = Some c" "validKey key = Inr ()" "script (coFs co) = []"
    and "rebuildHost src c (clientView (map fst (slots src)) key (coFiles co)) (coHost co) = (Inr (), w')"
  shows "\<exists>co'. recoverKey src key co = (IOk (), co') \<and> coHost co' = w'
    \<and> mget (coGen co') c = Some (maxGen (logRecs key (coFiles co)))
    \<and> settled (map fst (slots src)) key (logRecs key (coFiles co)) (maxGen (logRecs key (coFiles co))) (coFiles co')
    \<and> clientView (map fst (slots src)) key (coFiles co') = clientView (map fst (slots src)) key (coFiles co)"
proof -
  let ?recs = "logRecs key (coFiles co)" and ?dirs = "map fst (slots src)"
  let ?g = "maxGen ?recs"
  obtain s1 where s1: "ap_Truncate seenDir key ?g (coFs co) = (IOk (), s1)" "script s1 = []"
    "mgetd [] (files s1) (storePath seenDir key logExt) = logBytes ?recs" "wf_recs ?recs"
    and others1: "\<forall>q. q \<noteq> storePath seenDir key logExt \<longrightarrow> mget (files s1) q = mget (coFiles co) q"
    using truncate_no_script [OF assms(2,3)] by blast
  let ?co1 = "co\<lparr>coFs := s1\<rparr>"
  have view1: "slotView dir key g (coFiles ?co1) = slotView dir key g (coFiles co)" for dir g
    using others1 by (intro slotView_cong) simp_all
  obtain u w1 where w1: "restoreViews (map (\<lambda>(dir, x). (x, slotView dir key ?g (coFiles ?co1))) (slots src)) c (coHost co) = (Inr u, w1)"
    "replayPayloads (srcSeen src) (map recPayload ?recs) c w1 = (Inr (), w')"
    using assms(4) unfolding rebuildHost_view view1 by (auto split: prod.splits sum.splits)
  obtain co2 where co2: "restoreSlots (slots src) c key ?g ?co1 = (IOk (), co2)" "coHost co2 = w1"
    "\<forall>dir\<in>set ?dirs. mget (coFiles co2) (storePath dir key tmpExt) = None
        \<and> slotView dir key ?g (coFiles co2) = slotView dir key ?g (coFiles ?co1)"
    and others2: "\<forall>p. (\<forall>dir\<in>set ?dirs. p \<noteq> storePath dir key tmpExt \<and> p \<noteq> storePath dir key fileExt)
        \<longrightarrow> mget (coFiles co2) p = mget (coFiles ?co1) p"
    using restoreSlots_no_script [OF assms(2), of ?co1 "slots src" ?g c w1] w1(1) s1(2) slots_dirs [of src] by auto
  have log2: "mgetd [] (coFiles co2) (storePath seenDir key logExt) = logBytes ?recs"
    using others2 slots_dirs [of src] s1(3) by (auto simp: mgetd_def)
  let ?co' = "co2\<lparr>coHost := w', coGen := mput c ?g (coGen co2)\<rparr>"
  have load: "ap_Load seenDir key (coFiles co) = Inr (?recs, ?g)"
    using assms(2) by (auto simp: ap_Load_def logRecs_def maxGen_def Let_def split: option.splits)
  have "recoverKey src key co = (IOk (), ?co')"
    using replayAll_payloads [of "srcSeen src" ?recs c co2 w'] w1(2) co2(1,2)
    by (simp add: recoverKey_def assms(1) load iobind_def liftFs_def s1(1) commitGen_def)
  moreover have "settled ?dirs key ?recs ?g (coFiles ?co')"
    using log2 s1(4) co2(3) by (simp add: settled_def readOverwriteHeader_def)
  moreover have "logRecs key (coFiles ?co') = ?recs" using log2 loadLoop_clean [OF s1(4)] by (simp add: logRecs_eq)
  then have "clientView ?dirs key (coFiles ?co') = clientView ?dirs key (coFiles co)"
    using co2(3) view1 by (simp add: clientView_def Let_def)
  ultimately show ?thesis by auto
qed



end
