(* ===== verification/Durability.thy ===== *)
theory Durability
  imports Recovery
begin

text \<open>
  What the coordinator guarantees across clients and restarts: a checkpoint touches only the files of
  its own client, \<open>Flush\<close> acknowledges the tracked deliveries only after every dirty client is on
  disk, and the duplicate filter of the publisher survives a restart.
\<close>

section \<open>Checkpoints of different clients do not interfere\<close>

definition keyPaths :: "string \<Rightarrow> path set" where
  "keyPaths key = {p. snd p \<in> {key @ fileExt, key @ tmpExt, key @ logExt}}"

fun dopPaths :: "dop \<Rightarrow> path set" where
  "dopPaths (WriteFile p b) = {p}"
| "dopPaths (AppendFile p b) = {p}"
| "dopPaths (Rename p q) = {p, q}"
| "dopPaths (Remove p) = {p}"
| "dopPaths (TruncateFile p n) = {p}"
| "dopPaths SyncDir = {}"

definition keepsFiles :: "path set \<Rightarrow> ('s \<Rightarrow> disk) \<Rightarrow> ('s, 'a) iom \<Rightarrow> bool" where
  "keepsFiles P f m \<longleftrightarrow> (\<forall>s p. p \<notin> P \<longrightarrow> mget (f (snd (m s))) p = mget (f s) p)"

lemma keepsFiles_iobind:
  "keepsFiles P f m \<Longrightarrow> (\<And>x. keepsFiles P f (k x)) \<Longrightarrow> keepsFiles P f (iobind m k)"
  unfolding keepsFiles_def iobind_def by (auto split: prod.split io.split) (metis snd_conv)+

lemma keepsFiles_basic [simp]:
  "keepsFiles P f (ioret x)" "keepsFiles P f (ioerr e)" "keepsFiles P f (ioresult r)" "keepsFiles P files getFiles"
  by (auto simp: keepsFiles_def ioret_def ioerr_def ioresult_def getFiles_def split: sum.splits)

lemma keepsFiles_doOp: "dopPaths p \<subseteq> P \<Longrightarrow> keepsFiles P files (doOp p)"
  unfolding keepsFiles_def
proof (intro allI impI)
  fix s q assume P: "dopPaths p \<subseteq> P" and q: "q \<notin> P"
  show "mget (files (snd (doOp p s))) q = mget (files s) q"
    by (cases rule: doOp_cases [of p s]; cases p)
      (use P q in \<open>auto split: option.splits\<close>)
qed

lemma keyPaths_in [simp]:
  "storePath dir key fileExt \<in> keyPaths key" "storePath dir key tmpExt \<in> keyPaths key"
  "storePath dir key logExt \<in> keyPaths key"
  by (simp_all add: keyPaths_def storePath_def)

lemma keepsFiles_stores:
  "keepsFiles (keyPaths key) files (ow_Stage dir key g b)"
  "keepsFiles (keyPaths key) files (ow_Promote dir key g)"
  "keepsFiles (keyPaths key) files (ap_Append dir key g b)"
  unfolding ow_Stage_def ow_Promote_def ap_Append_def Let_def
  by (intro keepsFiles_iobind; simp add: keepsFiles_doOp keepsFiles_iobind)+

lemma keepsFiles_lift:
  "keepsFiles P files m \<Longrightarrow> keepsFiles P coFiles (liftFs m)" "keepsFiles P coFiles (liftHost h)"
  "keepsFiles P coFiles (commitGen c g)"
  by (auto simp: keepsFiles_def liftFs_def liftHost_def commitGen_def split: prod.splits sum.splits) (metis snd_conv)

lemma keepsFiles_slots:
  "keepsFiles (keyPaths key) coFiles (stageSlots xs c key g)"
  "keepsFiles (keyPaths key) coFiles (promoteSlots xs key g)"
  by (induction xs) (auto intro!: keepsFiles_iobind keepsFiles_lift keepsFiles_stores)

lemma keepsFiles_checkpoint: "keepsFiles (keyPaths (uuidString src c)) coFiles (coCheckpoint src c)"
  unfolding keepsFiles_def
proof (intro allI impI)
  fix co :: "'a coord" and p assume p: "p \<notin> keyPaths (uuidString src c)"
  define g where "g = mgetd 0 (coGen co) c + 1"
  let ?m = "iobind (stageSlots (slots src) c (uuidString src c) g) (\<lambda>_.
      iobind (liftHost (srcDrain (srcSeen src) c)) (\<lambda>delta.
      iobind (liftFs (ap_Append seenDir (uuidString src c) g delta)) (\<lambda>_.
      iobind (commitGen c g) (\<lambda>_.
      iobind (liftHost (srcCommit (srcSeen src) c)) (\<lambda>_.
      promoteSlots (slots src) (uuidString src c) g)))))"
  have "keepsFiles (keyPaths (uuidString src c)) coFiles ?m"
    by (intro keepsFiles_iobind keepsFiles_slots keepsFiles_lift keepsFiles_stores)
  then show "mget (coFiles (snd (coCheckpoint src c co))) p = mget (coFiles co) p"
    using p by (simp add: keepsFiles_def coCheckpoint_def Let_def g_def)
qed

lemma ext_last: "last (k @ fileExt) = CHR ''t''" "last (k @ tmpExt) = CHR ''p''" "last (k @ logExt) = CHR ''g''"
  by (simp_all add: fileExt_def tmpExt_def logExt_def)

lemma keyPaths_disjoint: "key \<noteq> key' \<Longrightarrow> keyPaths key \<inter> keyPaths key' = {}"
proof -
  assume neq: "key \<noteq> key'"
  have "key @ e \<noteq> key' @ e'" if "e \<in> {fileExt, tmpExt, logExt}" "e' \<in> {fileExt, tmpExt, logExt}" for e e'
  proof
    assume eq: "key @ e = key' @ e'"
    then have "last (key @ e) = last (key' @ e')" by simp
    with that have "e = e'" by (auto simp: ext_last)
    with eq neq show False by simp
  qed
  then have "{key @ fileExt, key @ tmpExt, key @ logExt} \<inter> {key' @ fileExt, key' @ tmpExt, key' @ logExt} = {}"
    by blast
  then show ?thesis unfolding keyPaths_def by blast
qed

lemma clientView_keyPaths:
  "(\<And>p. p \<in> keyPaths key \<Longrightarrow> mget d p = mget d' p) \<Longrightarrow> clientView dirs key d = clientView dirs key d'
     \<and> settled dirs key recs g d = settled dirs key recs g d'"
  by (simp add: clientView_def logRecs_def slotView_def readOverwriteHeader_def settled_def mgetd_def Let_def)

section \<open>Persist, then acknowledge\<close>

text \<open>
  \<open>W\<close> is a set of worker states that all show the same snapshots and the same drained ids for the
  client \<open>c\<close>, and that the callbacks for the other clients do not leave.
\<close>

definition steadyFor ::
  "'w sources \<Rightarrow> uuid \<Rightarrow> (string \<Rightarrow> bytes) \<Rightarrow> bytes \<Rightarrow> 'w set \<Rightarrow> bool" where
  "steadyFor src c snap delta W \<longleftrightarrow>
     (\<forall>w\<in>W. (\<forall>(dir, x)\<in>set (slots src). snapshotClient x c w = (Inr (snap dir), w))
        \<and> srcDrain (srcSeen src) c w = (Inr delta, w)
        \<and> (\<forall>c'. c' \<noteq> c \<longrightarrow>
             (\<forall>(dir, x)\<in>set (slots src). snd (snapshotClient x c' w) \<in> W)
           \<and> snd (srcDrain (srcSeen src) c' w) \<in> W \<and> snd (srcCommit (srcSeen src) c' w) \<in> W))"

definition keepsHost :: "'w set \<Rightarrow> uuid \<Rightarrow> ('w coord, 'a) iom \<Rightarrow> bool" where
  "keepsHost W c m \<longleftrightarrow>
     (\<forall>co. coHost co \<in> W \<longrightarrow> coHost (snd (m co)) \<in> W \<and> mget (coGen (snd (m co))) c = mget (coGen co) c)"

lemma keepsHost_iobind:
  "keepsHost W c m \<Longrightarrow> (\<And>x. keepsHost W c (k x)) \<Longrightarrow> keepsHost W c (iobind m k)"
  unfolding keepsHost_def iobind_def by (auto split: prod.split io.split)

lemma keepsHost_basic:
  "keepsHost W c (ioret x)" "keepsHost W c (liftFs f)" "c' \<noteq> c \<Longrightarrow> keepsHost W c (commitGen c' g)"
  "(\<And>w. w \<in> W \<Longrightarrow> snd (h w) \<in> W) \<Longrightarrow> keepsHost W c (liftHost h)"
  by (auto simp: keepsHost_def ioret_def liftFs_def liftHost_def commitGen_def split: prod.splits sum.splits)
    (metis snd_conv)+

lemma keepsHost_stageSlots:
  "(\<And>w. w \<in> W \<Longrightarrow> \<forall>(dir, x)\<in>set xs. snd (snapshotClient x c' w) \<in> W) \<Longrightarrow> keepsHost W c (stageSlots xs c' key g)"
  by (induction xs) (auto intro!: keepsHost_iobind keepsHost_basic)

lemma keepsHost_promoteSlots: "keepsHost W c (promoteSlots xs key g)"
  by (induction xs) (auto intro!: keepsHost_iobind keepsHost_basic)

lemma keepsHost_checkpoint:
  assumes "steadyFor src c snap delta W" "c' \<noteq> c"
  shows "keepsHost W c (coCheckpoint src c')"
proof -
  have laws: "\<And>w. w \<in> W \<Longrightarrow> \<forall>(dir, x)\<in>set (slots src). snd (snapshotClient x c' w) \<in> W"
    "\<And>w. w \<in> W \<Longrightarrow> snd (srcDrain (srcSeen src) c' w) \<in> W"
    "\<And>w. w \<in> W \<Longrightarrow> snd (srcCommit (srcSeen src) c' w) \<in> W"
    using assms by (auto simp: steadyFor_def)
  have "keepsHost W c (iobind (stageSlots (slots src) c' (uuidString src c') g) (\<lambda>_.
      iobind (liftHost (srcDrain (srcSeen src) c')) (\<lambda>delta.
      iobind (liftFs (ap_Append seenDir (uuidString src c') g delta)) (\<lambda>_.
      iobind (commitGen c' g) (\<lambda>_.
      iobind (liftHost (srcCommit (srcSeen src) c')) (\<lambda>_.
      promoteSlots (slots src) (uuidString src c') g))))))" for g
    using laws assms(2)
    by (intro keepsHost_iobind keepsHost_stageSlots keepsHost_promoteSlots keepsHost_basic) auto
  then show ?thesis by (simp add: keepsHost_def coCheckpoint_def Let_def)
qed

text \<open>Checkpointing other clients keeps the files of \<open>c\<close>; checkpointing \<open>c\<close> makes it durable.\<close>

lemma keepsFilesD: "keepsFiles P f m \<Longrightarrow> m s = (r, s') \<Longrightarrow> p \<notin> P \<Longrightarrow> mget (f s') p = mget (f s) p"
  unfolding keepsFiles_def by (metis snd_conv)

lemma keepsHostD: "keepsHost W c m \<Longrightarrow> m co = (r, co') \<Longrightarrow> coHost co \<in> W
    \<Longrightarrow> coHost co' \<in> W \<and> mget (coGen co') c = mget (coGen co) c"
  unfolding keepsHost_def by (metis snd_conv)

lemma keepsFiles_checkpoint_other:
  assumes "c' \<noteq> c" "inj (uuidString src)"
  shows "keepsFiles (- keyPaths (uuidString src c)) coFiles (coCheckpoint src c')"
proof -
  have "uuidString src c' \<noteq> uuidString src c" using assms by (auto dest: injD)
  then have "keyPaths (uuidString src c') \<subseteq> - keyPaths (uuidString src c)"
    using keyPaths_disjoint by blast
  then show ?thesis using keepsFiles_checkpoint [of src c'] by (auto simp: keepsFiles_def)
qed

lemma keepsFiles_checkpointAll:
  "c \<notin> set cs \<Longrightarrow> inj (uuidString src) \<Longrightarrow> keepsFiles (- keyPaths (uuidString src c)) coFiles (checkpointAll src cs)"
  by (induction cs) (auto intro!: keepsFiles_iobind keepsFiles_checkpoint_other)

lemma checkpointAll_persists:
  assumes steady: "steadyFor src c snap delta W" and inj: "inj (uuidString src)"
    and key: "validKey (uuidString src c) = Inr ()" and g: "unat g + 1 < 2 ^ 64" and delta: "length delta < 2 ^ 32"
  defines "dirs \<equiv> map fst (slots src)"
  shows "checkpointAll src cs co = (IOk (), co') \<Longrightarrow> distinct cs \<Longrightarrow> c \<in> set cs \<Longrightarrow> coHost co \<in> W
    \<Longrightarrow> mgetd 0 (coGen co) c = g \<Longrightarrow> settled dirs (uuidString src c) recs g (coFiles co)
    \<Longrightarrow> clientView dirs (uuidString src c) (coFiles co')
        = (g + 1, map recPayload recs @ [delta], map (\<lambda>dir. (dir, Inr (Some (snap dir)))) dirs)"
proof (induction cs arbitrary: co)
  case (Cons c' cs)
  let ?key = "uuidString src c"
  obtain co1 where c1: "coCheckpoint src c' co = (IOk (), co1)" and rest: "checkpointAll src cs co1 = (IOk (), co')"
    using Cons.prems(1) by (auto simp: iobind_def split: prod.splits io.splits)
  show ?case
  proof (cases "c' = c")
    case True
    have snap: "\<forall>(dir, x)\<in>set (slots src). snapshotClient x c (coHost co) = (Inr (snap dir), coHost co)"
      "srcDrain (srcSeen src) c (coHost co) = (Inr delta, coHost co)"
      using steady Cons.prems(4) by (auto simp: steadyFor_def)
    note out = checkpoint_outcome [OF c1 [unfolded True] refl key Cons.prems(5) g dirs_def [THEN meta_eq_to_obj_eq]
        Cons.prems(6) snap delta]
    then have "clientView dirs ?key (coFiles co1)
        = (g + 1, map recPayload recs @ [delta], map (\<lambda>dir. (dir, Inr (Some (snap dir)))) dirs)"
      using view_after [of snap dirs ?key "g + 1" "coFiles co1"] by auto
    moreover have "mget (coFiles co') p = mget (coFiles co1) p" if "p \<in> keyPaths ?key" for p
      using keepsFilesD [OF keepsFiles_checkpointAll [of c] rest, of p] inj Cons.prems(2) True that by simp
    ultimately show ?thesis using clientView_keyPaths [of ?key "coFiles co'" "coFiles co1"] by simp
  next
    case False
    have "coHost co1 \<in> W" "mgetd 0 (coGen co1) c = g"
      using keepsHostD [OF keepsHost_checkpoint [OF steady False] c1] Cons.prems(4,5) by (simp_all add: mgetd_def)
    moreover have "mget (coFiles co1) p = mget (coFiles co) p" if "p \<in> keyPaths ?key" for p
      using keepsFilesD [OF keepsFiles_checkpoint_other [OF False inj] c1] that by auto
    then have "settled dirs ?key recs g (coFiles co1)"
      using clientView_keyPaths [of ?key "coFiles co1" "coFiles co"] Cons.prems(6) by simp
    ultimately show ?thesis using Cons.IH [OF rest] Cons.prems(2,3) False by simp
  qed
qed simp

lemma coFlush_result:
  "coFlush src co = (r, co') \<Longrightarrow>
     \<exists>co1. checkpointAll src (coDirty co) (co\<lparr>coDirty := [], coAcks := [], coPending := 0\<rparr>) = (r, co1)
       \<and> coFs co' = coFs co1 \<and> coAcked co' = coAcked co1 @ (if r = IOk () then coAcks co else [])"
  by (auto simp: coFlush_def Let_def iobind_def split: prod.splits io.splits)

definition ackState :: "'w coord \<Rightarrow> nat list \<times> nat list \<times> nat \<times> uuid list \<times> nat" where
  "ackState co = (coAcked co, coAcks co, coPending co, coDirty co, coInterval co)"

lemma acked_lift [simp]:
  "ackState (snd (liftFs m co)) = ackState co" "ackState (snd (liftHost h co)) = ackState co"
  "ackState (snd (commitGen c g co)) = ackState co" "ackState (snd (ioret x co)) = ackState co"
  by (auto simp: ackState_def liftFs_def liftHost_def commitGen_def ioret_def split: prod.splits sum.splits)

lemma acked_iobind:
  "(\<And>co. ackState (snd (m co)) = ackState co) \<Longrightarrow> (\<And>x co. ackState (snd (k x co)) = ackState co)
    \<Longrightarrow> ackState (snd (iobind m k co)) = ackState co"
  unfolding iobind_def by (auto split: prod.split io.split) (metis snd_conv)+

lemma acked_slots:
  "ackState (snd (stageSlots xs c key g co)) = ackState co" "ackState (snd (promoteSlots xs key g co)) = ackState co"
  by (induction xs arbitrary: co) (auto intro!: acked_iobind)

lemma ackState_checkpointAll: "ackState (snd (checkpointAll src cs co)) = ackState co"
  by (induction cs arbitrary: co)
    (auto intro!: acked_iobind simp: coCheckpoint_def Let_def acked_slots)

lemma acked_checkpointAll:
  "coAcked (snd (checkpointAll src cs co)) = coAcked co" "coAcks (snd (checkpointAll src cs co)) = coAcks co"
  "coPending (snd (checkpointAll src cs co)) = coPending co" "coDirty (snd (checkpointAll src cs co)) = coDirty co"
  "coInterval (snd (checkpointAll src cs co)) = coInterval co"
  using ackState_checkpointAll [of src cs co] by (simp_all add: ackState_def)


section \<open>The duplicate filter across restarts\<close>

text \<open>
  The contract of an \<open>AppendSource\<close>: \<open>ids\<close> is what the source holds for a client, \<open>fresh\<close> what it has
  not committed yet. A drained payload, replayed into any state, adds exactly the uncommitted part.
\<close>

locale append_log =
  fixes src :: "'w AppendSource"
    and ids fresh :: "'w \<Rightarrow> uuid \<Rightarrow> MsgID set"
    and inv :: "'w \<Rightarrow> bool"
  assumes drain: "inv w \<Longrightarrow> \<exists>delta. srcDrain src c w = (Inr delta, w)
      \<and> (\<forall>w0. inv w0 \<longrightarrow> (\<exists>w1. srcReplay src c delta w0 = (Inr (), w1) \<and> inv w1 \<and> ids w1 c = ids w0 c \<union> fresh w c))"
    and commit: "inv w \<Longrightarrow> \<exists>w1. srcCommit src c w = (Inr (), w1) \<and> inv w1 \<and> ids w1 = ids w \<and> fresh w1 c = {}"
begin

definition records :: "bytes list \<Rightarrow> uuid \<Rightarrow> MsgID set \<Rightarrow> bool" where
  "records ps c S \<longleftrightarrow>
     (\<forall>w0. inv w0 \<longrightarrow> (\<exists>w1. replayPayloads src ps c w0 = (Inr (), w1) \<and> inv w1 \<and> ids w1 c = ids w0 c \<union> S))"

lemma records_Nil: "records [] c {}"
  by (simp add: records_def)

lemma replayPayloads_snoc:
  "replayPayloads src (ps @ [p]) c w =
     (case replayPayloads src ps c w of (Inl e, w) \<Rightarrow> (Inl e, w)
      | (Inr _, w) \<Rightarrow> (case srcReplay src c p w of (Inl e, w) \<Rightarrow> (Inl e, w) | (Inr _, w) \<Rightarrow> (Inr (), w)))"
  by (induction ps arbitrary: w) (auto split: prod.splits sum.splits)

lemma records_drain:
  assumes "records ps c S" "inv w" "srcDrain src c w = (Inr delta, w)"
  shows "records (ps @ [delta]) c (S \<union> fresh w c)"
  unfolding records_def
proof (intro allI impI)
  fix w0 assume "inv w0"
  then obtain w1 where w1: "replayPayloads src ps c w0 = (Inr (), w1)" "inv w1" "ids w1 c = ids w0 c \<union> S"
    using assms(1) by (auto simp: records_def)
  moreover obtain w2 where "srcReplay src c delta w1 = (Inr (), w2)" "inv w2" "ids w2 c = ids w1 c \<union> fresh w c"
    using drain [OF assms(2), of c] assms(3) w1(2) by fastforce
  ultimately show "\<exists>w1. replayPayloads src (ps @ [delta]) c w0 = (Inr (), w1) \<and> inv w1
      \<and> ids w1 c = ids w0 c \<union> (S \<union> fresh w c)"
    by (auto simp: replayPayloads_snoc)
qed

end

locale publisher_lens =
  fixes get :: "'w \<Rightarrow> dedupState" and put :: "dedupState \<Rightarrow> 'w \<Rightarrow> 'w"
  assumes get_put: "get (put d w) = d"

sublocale publisher_lens \<subseteq> log: append_log "publisherSource get put" "\<lambda>w. seenIDs (get w)"
  "\<lambda>w c. set (pendingIDs (get w) c)" "\<lambda>w. dedup_inv (get w)"
  by unfold_locales
    (auto simp: publisherSource_def get_put dedup_inv_replay dedup_inv_commit fun_eq_iff
      replay_drain simp del: seenIDs_replay)

interpretation pub: publisher_lens "\<lambda>d. d" "\<lambda>d _. d"
  by unfold_locales simp

lemma restoreViews_ok:
  assumes "\<And>x b w. x \<in> set xs \<Longrightarrow> \<exists>w'. restoreClient x c b w = (Inr (), w') \<and> get w' = get w"
  shows "\<exists>w'. restoreViews (zip xs (map (\<lambda>b. Inr (Some b)) bs)) c w = (Inr (), w') \<and> get w' = get w"
  using assms
proof (induction xs arbitrary: bs w)
  case (Cons x xs)
  show ?case
  proof (cases bs)
    case (Cons b bs')
    obtain w1 where w1: "restoreClient x c b w = (Inr (), w1)" "get w1 = get w"
      using Cons.prems [of x b w] by auto
    moreover obtain w' where "restoreViews (zip xs (map (\<lambda>b. Inr (Some b)) bs')) c w1 = (Inr (), w')" "get w' = get w1"
      using Cons.IH [of bs' w1] Cons.prems by auto
    ultimately show ?thesis by (simp add: Cons)
  qed simp
qed simp

context publisher_lens
begin

lemma records_chunks: "log.records ps c (set (concat (map idChunks ps)))"
proof (induction ps rule: rev_induct)
  case (snoc p ps)
  show ?case unfolding log.records_def
  proof (intro allI impI)
    fix w0 assume "dedup_inv (get w0)"
    then obtain w1 where "replayPayloads (publisherSource get put) ps c w0 = (Inr (), w1)" "dedup_inv (get w1)"
      "seenIDs (get w1) c = seenIDs (get w0) c \<union> set (concat (map idChunks ps))"
      using snoc by (auto simp: log.records_def)
    then show "\<exists>w1. replayPayloads (publisherSource get put) (ps @ [p]) c w0 = (Inr (), w1) \<and> dedup_inv (get w1)
        \<and> seenIDs (get w1) c = seenIDs (get w0) c \<union> set (concat (map idChunks (ps @ [p])))"
      by (simp add: log.replayPayloads_snoc) (auto simp: publisherSource_def get_put dedup_inv_replay)
  qed
qed (simp add: log.records_Nil)

lemma checkpoint_restart:
  assumes src: "srcSeen src = publisherSource get put"
    and run: "coCheckpoint src c co = (IOk (), co')"
    and key: "validKey (uuidString src c) = Inr ()" "uuidParse src (uuidString src c) = Some c"
    and g: "mgetd 0 (coGen co) c = g" "unat g + 1 < 2 ^ 64"
    and settled: "settled (map fst (slots src)) (uuidString src c) recs g (coFiles co)"
    and snap: "\<forall>(dir, x)\<in>set (slots src). snapshotClient x c (coHost co) = (Inr (snap dir), coHost co)"
    and delta: "length (drainClient c (get (coHost co))) < 2 ^ 32"
    and inv: "dedup_inv (get (coHost co))"
      "seenIDs (get (coHost co)) c
         = set (concat (map idChunks (map recPayload recs))) \<union> set (pendingIDs (get (coHost co)) c)"
    and restore: "\<And>dir x b w. (dir, x) \<in> set (slots src) \<Longrightarrow> \<exists>w'. restoreClient x c b w = (Inr (), w') \<and> get w' = get w"
    and new: "get w0 = newDedupState"
  shows "\<exists>co2. recoverKey src (uuidString src c) (NewCoordinator w0 \<lparr>files = coFiles co', script = []\<rparr> interval)
            = (IOk (), co2)
         \<and> seenIDs (get (coHost co2)) c = seenIDs (get (coHost co)) c
         \<and> mget (coGen co2) c = Some (g + 1)"
proof -
  let ?key = "uuidString src c" and ?dirs = "map fst (slots src)" and ?w = "coHost co"
  let ?delta = "drainClient c (get ?w)" and ?co1 = "NewCoordinator w0 \<lparr>files = coFiles co', script = []\<rparr> interval"
  let ?ps = "map recPayload recs @ [?delta]"
  have drain: "srcDrain (srcSeen src) c ?w = (Inr ?delta, ?w)" by (simp add: src publisherSource_def)
  have view: "clientView ?dirs ?key (coFiles co') = (g + 1, ?ps, map (\<lambda>dir. (dir, Inr (Some (snap dir)))) ?dirs)"
    and gen: "maxGen (logRecs ?key (coFiles co')) = g + 1"
    using checkpoint_outcome [OF run refl key(1) g refl settled snap drain delta]
      view_after [of snap ?dirs ?key "g + 1" "coFiles co'"] by auto
  obtain w1 where w1: "restoreViews (zip (map snd (slots src)) (map (\<lambda>b. Inr (Some b)) (map snap ?dirs))) c w0 = (Inr (), w1)"
    "get w1 = newDedupState"
    using restoreViews_ok [of "map snd (slots src)" c get "map snap ?dirs" w0] restore new by fastforce
  have ids: "\<forall>i\<in>set (pendingIDs (get ?w) c). length i = 16" using inv(1) by (auto simp: dedup_inv_def)
  obtain w2 where w2: "replayPayloads (srcSeen src) ?ps c w1 = (Inr (), w2)"
    "seenIDs (get w2) c = seenIDs (get w1) c \<union> set (concat (map idChunks ?ps))"
    using records_chunks [of ?ps c, unfolded log.records_def, rule_format, of w1] dedup_inv_new
    unfolding src w1(2) by blast
  have "rebuildHost src c (clientView ?dirs ?key (coFiles ?co1)) (coHost ?co1) = (Inr (), w2)"
    using w1(1) w2(1) by (simp add: NewCoordinator_def view rebuildHost_def comp_def)
  then obtain co2 where "recoverKey src ?key ?co1 = (IOk (), co2)" "coHost co2 = w2"
    "mget (coGen co2) c = Some (maxGen (logRecs ?key (coFiles ?co1)))"
    using recoverKey_rebuilds [OF key(2,1), of ?co1 w2] by (auto simp: NewCoordinator_def)
  moreover have "seenIDs (get w2) c = seenIDs (get ?w) c"
    using w2(2) by (simp add: w1(2) inv(2) drainClient_def idChunks_concat [OF ids] comp_def)
  ultimately show ?thesis using gen by (simp add: NewCoordinator_def)
qed

end




end
