(* ===== verification/TornLog.thy ===== *)
theory TornLog
  imports Durability
begin

text \<open>
  A defect of the record log: \<open>Append\<close> does not cut a partly written record off before the next
  record is appended, and \<open>Load\<close> stops at the first record it cannot decode. Records appended after
  an append that failed part-way are therefore acknowledged but not recovered.
\<close>

unbundle bit_operations_syntax

section \<open>A misaligned record\<close>

definition crc_step :: "32 word \<Rightarrow> 32 word" where
  "crc_step c = (if c AND 1 = 1 then drop_bit 1 c XOR 0x82f63b78 else drop_bit 1 c)"

lemma crc_shift_8: "crc_shift 8 c = crc_step (crc_step (crc_step (crc_step (crc_step (crc_step (crc_step (crc_step c)))))))"
  by (simp add: numeral_eq_Suc crc_step_def)

lemma crc_misaligned_steps:
  "crc_byte 0xffffffff 0x20 = 0x8d3f2270"
  "crc_byte 0x8d3f2270 0x0 = 0x71156b2f"
  "crc_byte 0x71156b2f 0x0 = 0x7edfa791"
  "crc_byte 0x7edfa791 0x0 = 0x60bda0b3"
  "crc_byte 0x60bda0b3 0x0 = 0xa1253c9d"
  "crc_byte 0xa1253c9d 0x0 = 0x2d2195f8"
  "crc_byte 0x2d2195f8 0x0 = 0x799a162f"
  "crc_byte 0x799a162f 0x0 = 0x7ed728ec"
  by (simp_all add: crc_byte_def crc_shift_8 crc_step_def)


lemma crc_misaligned: "recordCrc [0x20, 0, 0, 0, 0, 0, 0, 0] [] = 0x8128d713"
proof -
  have "(-1 :: 32 word) = 0xffffffff" by simp
  then show ?thesis by (simp only: recordCrc_def crc32_Update_append crc32_Update_def bit.conj_zero_left
      bit.compl_zero crc_misaligned_steps append.simps foldl.simps) simp
qed

lemma PutUint_small:
  "PutUint32 0x10 = [0, 0, 0, 0x10]" "PutUint32 0x20 = [0, 0, 0, 0x20]" "PutUint64 1 = [0, 0, 0, 0, 0, 0, 0, 1]"
  "PutUint32 0x8128d713 = [0x81, 0x28, 0xd7, 0x13]"
proof -
  have n: "be_bytes 4 v = be_bytes (Suc (Suc (Suc (Suc 0)))) v"
    "be_bytes 8 v = be_bytes (Suc (Suc (Suc (Suc (Suc (Suc (Suc (Suc 0)))))))) v" for v
    by (intro arg_cong2 [where f = be_bytes] refl; simp)+
  show "PutUint32 0x10 = [0, 0, 0, 0x10]" "PutUint32 0x20 = [0, 0, 0, 0x20]" "PutUint64 1 = [0, 0, 0, 0, 0, 0, 0, 1]"
  "PutUint32 0x8128d713 = [0x81, 0x28, 0xd7, 0x13]"
    unfolding PutUint32_def PutUint64_def n be_bytes.simps by simp_all
qed

lemma torn_then_append:
  assumes "length p1 = 16" "length p2 = 32"
  shows "loadLoop (take 1 (encodeRecord 1 p1) @ encodeRecord 1 p2) 0 = []"
proof -
  have e: "take 1 (encodeRecord 1 p1) = [0]"
    and r: "encodeRecord 1 p2 = [0, 0, 0, 0x20] @ [0, 0, 0, 0, 0, 0, 0, 1] @ PutUint32 (recordCrc (PutUint64 1) p2) @ p2"
    using assms by (simp_all add: encodeRecord_def PutUint_small)
  obtain b0 b1 b2 b3 where crc: "PutUint32 (recordCrc (PutUint64 1) p2) = [b0, b1, b2, b3]"
    using length_PutUint(2) [of "recordCrc (PutUint64 1) p2"] by (auto simp: numeral_eq_Suc length_Suc_conv simp del: length_PutUint)
  have zero: "Uint32 [0, 0, 0, 0] = 0" by (simp add: Uint32_def be_nat_def)
  have crc': "Uint32 [1, b0, b1, b2] \<noteq> 0x8128d713"
    using PutUint_Uint(1) [of "[1, b0, b1, b2]"] PutUint_small(4) by auto
  show ?thesis
    unfolding e r crc by (subst loadLoop.simps) (simp add: decodeRecordAt_def recordHeaderLen_def Let_def zero crc_misaligned crc')
qed

section \<open>The lost acknowledgement\<close>

text \<open>
  C15. A delivery acknowledged after a partly failed append is lost. The first delivery of a client
  fails to be checkpointed because the append writes one byte and returns an error (the callers of
  \<open>Track\<close> drop that error); the second delivery is checkpointed without error and acknowledged, yet
  the log recovers no record at all, so after a restart neither message is known.
\<close>

theorem torn_append_loses_acknowledged_delivery:
  assumes "srcSeen src = publisherSource (\<lambda>d. d) (\<lambda>d _. d)" "srcEof src = None" "srcState src = None"
    and "c \<noteq> uuid_Nil" "validKey (uuidString src c) = Inr ()" "length i = 16" "length j = 16" "i \<noteq> j"
  shows "let co0 = NewCoordinator (markSeen c i newDedupState) \<lparr>files = [], script = [EvErr 1]\<rparr> 1;
             (r1, co1) = Track src c 1 co0;
             (r2, co2) = Track src c 2 (co1\<lparr>coHost := markSeen c j (coHost co1)\<rparr>)
         in (\<exists>e. r1 = IErr e) \<and> r2 = IOk () \<and> coAcked co2 = [2]
            \<and> clientView [] (uuidString src c) (coFiles co2) = (0, [], [])"
proof -
  let ?p = "storePath seenDir (uuidString src c) logExt"
  have slots: "slots src = []" using assms(2,3) by (simp add: slots_def)
  show ?thesis
    using assms torn_then_append [of i "i @ j"]
    by (simp add: NewCoordinator_def Track_def coFlush_def Let_def slots coCheckpoint_def iobind_def
        liftHost_def liftFs_def publisherSource_def ap_Append_def getFiles_def doOp_def drainClient_def
        commitGen_def ioret_def clientView_def logRecs_eq maxGen_def mgetd_def)
qed

theorem torn_append_loses_acknowledged_delivery_witness:
  "let src = \<lparr>srcSeen = publisherSource (\<lambda>d. d) (\<lambda>d _. d), srcEof = None, srcState = None,
         uuidString = uuidString fixtureSources, uuidParse = uuidParse fixtureSources\<rparr>;
       co0 = NewCoordinator (markSeen fixtureClient fixtureId newDedupState) \<lparr>files = [], script = [EvErr 1]\<rparr> 1;
       (r1, co1) = Track src fixtureClient 1 co0;
       (r2, co2) = Track src fixtureClient 2 (co1\<lparr>coHost := markSeen fixtureClient (replicate 16 2) (coHost co1)\<rparr>)
   in (\<exists>e. r1 = IErr e) \<and> r2 = IOk () \<and> coAcked co2 = [2]
      \<and> clientView [] (uuidString src fixtureClient) (coFiles co2) = (0, [], [])"
  unfolding Let_def
  by (rule torn_append_loses_acknowledged_delivery [unfolded Let_def])
    (simp_all add: fixture_simps, simp add: fixtureId_def)

end
