(* ===== verification/SyncEOF.thy ===== *)
theory SyncEOF
  imports Messaging
begin

text \<open>
  \<open>common/eof\<close>: the controller that synchronises the end of a client's stream among the replicas of a
  worker. The replica that receives the EOF leads: it asks every replica which batches it received
  and sent, and flushes downstream once the union of the received batches covers the total the
  upstream stage announced. The handlers return the actions they take (control messages, callbacks,
  acks, sleeps) in program order; \<open>Panic\<close> is a nil-pointer dereference. Callbacks that the
  controller only logs the error of are actions. JSON and the transport are the environment: a
  handler gets the outcome of \<open>json.Unmarshal\<close>.
\<close>

section \<open>Control messages (codec.go)\<close>

record ControlMessage =
  CtlType :: string
  CtlClientID :: uuid
  RequesterID :: int
  SenderID :: int
  ReceivedIDs :: bytes
  SentIDsByKey :: "(KeyType, bytes) gomap"
  SentCountByKey :: "(KeyType, goint) gomap"

definition MsgTypeAmountRequest :: string where "MsgTypeAmountRequest = ''AMOUNT_REQUEST''"
definition MsgTypeAmountResponse :: string where "MsgTypeAmountResponse = ''AMOUNT_RESPONSE''"
definition MsgTypeFlush :: string where "MsgTypeFlush = ''FLUSH''"
definition MsgTypeFlushAck :: string where "MsgTypeFlushAck = ''FLUSH_ACK''"
definition MsgTypeRetryExceeded :: string where "MsgTypeRetryExceeded = ''RETRY_EXCEEDED''"

lemmas ctl_type_defs = MsgTypeAmountRequest_def MsgTypeAmountResponse_def MsgTypeFlush_def
  MsgTypeFlushAck_def MsgTypeRetryExceeded_def

definition UnmarshalControlMessage :: "ControlMessage result \<Rightarrow> ControlMessage result" where
  "UnmarshalControlMessage parsed =
     rbind parsed (\<lambda>m.
     if CtlType m = '''' \<or> CtlClientID m = uuid_Nil then Inl (Errorf ''invalid control message'' []) else Inr m)"

section \<open>Routing (eof_broker.go)\<close>

definition itoaInt :: "int \<Rightarrow> string" where
  "itoaInt z = (if z < 0 then CHR ''-'' # itoa (nat (- z)) else itoa (nat z))"

definition eofQueueName :: "string \<Rightarrow> int \<Rightarrow> string" where
  "eofQueueName prefix nodeID = prefix @ ''_'' @ itoaInt nodeID"

datatype destination = ToQueue string | ToBroadcast

text \<open>Where \<open>Send\<close> publishes a message.\<close>

definition EOFBroker_Send :: "string \<Rightarrow> ControlMessage result \<Rightarrow> destination result" where
  "EOFBroker_Send prefix parsed =
     (case UnmarshalControlMessage parsed of
        Inl e \<Rightarrow> Inl (Wrapf ''fail to unmarshal control message'' [] e)
      | Inr m \<Rightarrow>
         if CtlType m = MsgTypeAmountResponse then Inr (ToQueue (eofQueueName prefix (RequesterID m)))
         else if CtlType m = MsgTypeFlushAck then Inr (ToQueue (eofQueueName prefix (RequesterID m)))
         else if CtlType m = MsgTypeAmountRequest \<or> CtlType m = MsgTypeFlush \<or> CtlType m = MsgTypeRetryExceeded
         then Inr ToBroadcast
         else Inl (Errorf ''unsupported message type'' []))"

section \<open>Controller state (sync_controller.go)\<close>

type_synonym idCounts = "(MsgID, goint) gomap"
type_synonym sentCounts = "(KeyType, idCounts) gomap"

record nodeInfo =
  rcvByID :: idCounts
  sentByKeyID :: sentCounts

record eofClient =
  eofClientID :: uuid
  msgRcvByID :: idCounts
  msgSentByKeyID :: sentCounts
  expectedTotal :: goint
  retryCount :: int
  isLeader :: bool
  eofAck :: "nat option"
  nodesInfo :: "(int, nodeInfo) gomap"

record syncCtl =
  nodeID :: int
  totalNodes :: int
  clients :: "(uuid, eofClient) gomap"
  hasOnFlush :: bool
  hasOnLeaderFlush :: bool
  hasOnRetryExceeded :: bool
  retryBaseDelay :: int
  retryStepDelay :: int
  maxRetries :: int

datatype action =
    SendCtrl ControlMessage
  | OnFlush uuid
  | OnLeaderFlush uuid "(KeyType, goint) gomap"
  | OnRetryExceeded uuid
  | CallAck nat
  | Sleep int
  | Panic

definition NewClient :: "uuid \<Rightarrow> eofClient" where
  "NewClient c = \<lparr>eofClientID = c, msgRcvByID = [], msgSentByKeyID = [], expectedTotal = 0, retryCount = 0,
     isLeader = False, eofAck = None, nodesInfo = []\<rparr>"

definition defaultRetryBaseDelay :: int where "defaultRetryBaseDelay = 500000000"

text \<open>Delays in nanoseconds; the three callbacks may be nil.\<close>

definition NewSyncEOFController :: "int \<Rightarrow> int \<Rightarrow> int \<Rightarrow> int \<Rightarrow> int \<Rightarrow> bool \<Rightarrow> bool \<Rightarrow> bool \<Rightarrow> syncCtl" where
  "NewSyncEOFController workerID workerAmount base step retries onF onL onR =
     \<lparr>nodeID = workerID, totalNodes = workerAmount, clients = [], hasOnFlush = onF, hasOnLeaderFlush = onL,
      hasOnRetryExceeded = onR, retryBaseDelay = (if base \<le> 0 then defaultRetryBaseDelay else base),
      retryStepDelay = step, maxRetries = retries\<rparr>"

section \<open>Id maps\<close>

definition setSentID :: "KeyType \<Rightarrow> MsgID \<Rightarrow> goint \<Rightarrow> sentCounts \<Rightarrow> sentCounts" where
  "setSentID key i cnt sets = mput key (mput i cnt (mgetd [] sets key)) sets"

fun encodeIDCounts :: "idCounts \<Rightarrow> bytes" where
  "encodeIDCounts [] = []"
| "encodeIDCounts ((i, cnt) # m) = i @ PutUint32 (ucast cnt) @ encodeIDCounts m"

text \<open>\<open>for i := 0; i+rec <= len(data); i += rec\<close>, with \<open>rec = 20\<close>\<close>

function decodeIDLoop :: "bytes \<Rightarrow> idCounts \<Rightarrow> idCounts" where
  "decodeIDLoop data m =
     (if 20 \<le> length data
      then decodeIDLoop (drop 20 data) (mput (take 16 data) (ucast (Uint32 (take 4 (drop 16 data)))) m)
      else m)"
  by pat_completeness auto
termination by (relation "measure (length \<circ> fst)") auto

declare decodeIDLoop.simps [simp del]

definition decodeIDCounts :: "bytes \<Rightarrow> idCounts" where
  "decodeIDCounts data = decodeIDLoop data []"

definition encodeSentIDCounts :: "sentCounts \<Rightarrow> (KeyType, bytes) gomap" where
  "encodeSentIDCounts sets = map (\<lambda>(k, m). (k, encodeIDCounts m)) sets"

definition decodeSentIDCounts :: "(KeyType, bytes) gomap \<Rightarrow> sentCounts" where
  "decodeSentIDCounts inp = foldl (\<lambda>out (k, data). mput k (decodeIDCounts data) out) [] inp"

definition unionInto :: "idCounts \<Rightarrow> idCounts \<Rightarrow> idCounts" where
  "unionInto acc m = foldl (\<lambda>u (i, cnt). mput i cnt u) acc m"

definition sumCounts :: "idCounts \<Rightarrow> goint" where
  "sumCounts m = sum_list (map snd m)"

definition mergeReceived :: "(int, nodeInfo) gomap \<Rightarrow> goint" where
  "mergeReceived nodes = sumCounts (foldl (\<lambda>u (_, info). unionInto u (rcvByID info)) [] nodes)"

definition isReceivedUnionEmpty :: "(int, nodeInfo) gomap \<Rightarrow> bool" where
  "isReceivedUnionEmpty nodes \<longleftrightarrow> list_all (\<lambda>(_, info). rcvByID info = []) nodes"

definition mergeSentByKey :: "(int, nodeInfo) gomap \<Rightarrow> (KeyType, goint) gomap" where
  "mergeSentByKey nodes =
     map (\<lambda>(k, m). (k, sumCounts m))
       (foldl (\<lambda>u (_, info). foldl (\<lambda>u (k, m). mput k (unionInto (mgetd [] u k) m) u) u (sentByKeyID info)) [] nodes)"

definition SyncKeyFromInputKeys :: "string list \<Rightarrow> KeyType" where
  "SyncKeyFromInputKeys keys =
     (case keys of
        [k] \<Rightarrow> if k \<noteq> KeyNil \<and> k \<noteq> KeyAllTransaction then k else KeyNil
      | _ \<Rightarrow> KeyNil)"

section \<open>Handlers\<close>

definition ensureClient :: "uuid \<Rightarrow> syncCtl \<Rightarrow> syncCtl" where
  "ensureClient c s = (if mhas (clients s) c then s else s\<lparr>clients := mput c (NewClient c) (clients s)\<rparr>)"

definition clientOf :: "syncCtl \<Rightarrow> uuid \<Rightarrow> eofClient" where
  "clientOf s c = mgetd (NewClient c) (clients s) c"

definition setClient :: "uuid \<Rightarrow> eofClient \<Rightarrow> syncCtl \<Rightarrow> syncCtl" where
  "setClient c cl s = s\<lparr>clients := mput c cl (clients s)\<rparr>"

definition MessageReceived :: "uuid \<Rightarrow> MsgID \<Rightarrow> goint \<Rightarrow> syncCtl \<Rightarrow> syncCtl" where
  "MessageReceived c i cnt s =
     (let s = ensureClient c s; cl = clientOf s c in
      setClient c (cl\<lparr>msgRcvByID := mput i cnt (msgRcvByID cl)\<rparr>) s)"

definition MessageSentWithKey :: "uuid \<Rightarrow> KeyType \<Rightarrow> MsgID \<Rightarrow> goint \<Rightarrow> syncCtl \<Rightarrow> syncCtl" where
  "MessageSentWithKey c key i cnt s =
     (let s = ensureClient c s; cl = clientOf s c in
      setClient c (cl\<lparr>msgSentByKeyID :=
        (if key = KeyNil then setSentID KeyNil i cnt (msgSentByKeyID cl)
         else setSentID KeyNil i cnt (setSentID key i cnt (msgSentByKeyID cl)))\<rparr>) s)"

definition MessageSent :: "uuid \<Rightarrow> MsgID \<Rightarrow> goint \<Rightarrow> syncCtl \<Rightarrow> syncCtl" where
  "MessageSent c i cnt s = MessageSentWithKey c KeyNil i cnt s"

definition ctlMsg :: "string \<Rightarrow> uuid \<Rightarrow> int \<Rightarrow> ControlMessage" where
  "ctlMsg ty c requester = \<lparr>CtlType = ty, CtlClientID = c, RequesterID = requester, SenderID = 0,
     ReceivedIDs = [], SentIDsByKey = [], SentCountByKey = []\<rparr>"

definition broadcastAmountRequest :: "uuid \<Rightarrow> syncCtl \<Rightarrow> action list" where
  "broadcastAmountRequest c s = [SendCtrl (ctlMsg MsgTypeAmountRequest c (nodeID s))]"

definition broadcastFlush :: "uuid \<Rightarrow> syncCtl \<Rightarrow> action list" where
  "broadcastFlush c s = [SendCtrl (ctlMsg MsgTypeFlush c (nodeID s))]"

definition broadcastRetryExceeded :: "uuid \<Rightarrow> action list" where
  "broadcastRetryExceeded c = [SendCtrl (ctlMsg MsgTypeRetryExceeded c 0)]"

definition cleanupClientState :: "uuid \<Rightarrow> syncCtl \<Rightarrow> syncCtl \<times> action list" where
  "cleanupClientState c s =
     (s\<lparr>clients := mdel c (clients s)\<rparr>,
      case mget (clients s) c of
        Some cl \<Rightarrow> if isLeader cl then (case eofAck cl of None \<Rightarrow> [] | Some a \<Rightarrow> [CallAck a]) else []
      | None \<Rightarrow> [])"

definition runRetryExceededCallback :: "uuid \<Rightarrow> syncCtl \<Rightarrow> syncCtl \<times> action list" where
  "runRetryExceededCallback c s =
     (case cleanupClientState c s of
        (s', acts) \<Rightarrow> (s', (if hasOnRetryExceeded s then [OnRetryExceeded c] else []) @ acts))"

definition SyncEof :: "uuid \<Rightarrow> (KeyType, goint) gomap option \<Rightarrow> KeyType \<Rightarrow> nat option \<Rightarrow> syncCtl \<Rightarrow> syncCtl \<times> action list" where
  "SyncEof c counts keyType ack s =
     (let expected = (case counts of None \<Rightarrow> 0 | Some m \<Rightarrow> mgetd 0 m keyType) in
      if counts \<noteq> None \<and> expected = - 1
      then (case cleanupClientState c s of
              (s', acts) \<Rightarrow>
                (s', broadcastFlush c s
                     @ (if hasOnLeaderFlush s then [OnLeaderFlush c (the counts)] else [])
                     @ acts @ (case ack of None \<Rightarrow> [] | Some a \<Rightarrow> [CallAck a])))
      else
        let s = ensureClient c s; cl = clientOf s c;
            s = setClient c (cl\<lparr>expectedTotal := expected, retryCount := 0, isLeader := True, eofAck := ack\<rparr>) s
        in (s, broadcastAmountRequest c s))"

definition processAmountRequest :: "ControlMessage \<Rightarrow> syncCtl \<Rightarrow> syncCtl \<times> action list" where
  "processAmountRequest m s =
     (let c = CtlClientID m; s = ensureClient c s; cl = clientOf s c in
      (s, [SendCtrl \<lparr>CtlType = MsgTypeAmountResponse, CtlClientID = c, RequesterID = RequesterID m,
             SenderID = nodeID s, ReceivedIDs = encodeIDCounts (msgRcvByID cl),
             SentIDsByKey = encodeSentIDCounts (msgSentByKeyID cl), SentCountByKey = []\<rparr>]))"

definition retryAmountRequest :: "uuid \<Rightarrow> syncCtl \<Rightarrow> syncCtl \<times> action list" where
  "retryAmountRequest c s =
     (case mget (clients s) c of
        None \<Rightarrow> (s, [Panic])
      | Some cl \<Rightarrow>
         let attempt = retryCount cl + 1;
             s = setClient c (cl\<lparr>retryCount := attempt, nodesInfo := []\<rparr>) s in
         if maxRetries s > 0 \<and> attempt > maxRetries s
         then (case runRetryExceededCallback c s of (s', acts) \<Rightarrow> (s', broadcastRetryExceeded c @ acts))
         else
           let delay = (if attempt > 1 then retryBaseDelay s + retryStepDelay s * (attempt - 1) else retryBaseDelay s)
           in (s, Sleep delay # broadcastAmountRequest c s))"

definition checkTotalAndFlush :: "uuid \<Rightarrow> syncCtl \<Rightarrow> syncCtl \<times> action list" where
  "checkTotalAndFlush c s =
     (case mget (clients s) c of
        None \<Rightarrow> (s, [Panic])
      | Some cl \<Rightarrow>
         let total = mergeReceived (nodesInfo cl) in
         if expectedTotal cl \<le>s total
         then (case cleanupClientState c s of
                 (s', acts) \<Rightarrow>
                   (s', (if hasOnLeaderFlush s then [OnLeaderFlush c (mergeSentByKey (nodesInfo cl))] else [])
                        @ broadcastFlush c s @ acts))
         else if isReceivedUnionEmpty (nodesInfo cl) then cleanupClientState c s
         else retryAmountRequest c s)"

definition processAmountResponse :: "ControlMessage \<Rightarrow> syncCtl \<Rightarrow> syncCtl \<times> action list" where
  "processAmountResponse m s =
     (let c = CtlClientID m in
      case mget (clients s) c of
        None \<Rightarrow> (s, [])
      | Some cl \<Rightarrow>
         if \<not> isLeader cl then (s, [])
         else
           let info = \<lparr>rcvByID = decodeIDCounts (ReceivedIDs m), sentByKeyID = decodeSentIDCounts (SentIDsByKey m)\<rparr>;
               cl = cl\<lparr>nodesInfo := mput (SenderID m) info (nodesInfo cl)\<rparr>;
               s = setClient c cl s in
           if int (length (nodesInfo cl)) = totalNodes s then checkTotalAndFlush c s else (s, []))"

definition processFlush :: "ControlMessage \<Rightarrow> syncCtl \<Rightarrow> syncCtl \<times> action list" where
  "processFlush m s =
     (case cleanupClientState (CtlClientID m) s of
        (s', acts) \<Rightarrow> (s', (if hasOnFlush s then [OnFlush (CtlClientID m)] else []) @ acts))"

definition processRetryExceeded :: "ControlMessage \<Rightarrow> syncCtl \<Rightarrow> syncCtl \<times> action list" where
  "processRetryExceeded m s = runRetryExceededCallback (CtlClientID m) s"

text \<open>The second component: \<open>ack()\<close> (\<open>True\<close>) or \<open>nack()\<close> of the control delivery.\<close>

definition handleControlMessage :: "ControlMessage result \<Rightarrow> syncCtl \<Rightarrow> syncCtl \<times> action list \<times> bool" where
  "handleControlMessage parsed s =
     (case UnmarshalControlMessage parsed of
        Inl e \<Rightarrow> (s, [], False)
      | Inr m \<Rightarrow>
         (case (if CtlType m = MsgTypeAmountRequest then processAmountRequest m s
                else if CtlType m = MsgTypeAmountResponse then processAmountResponse m s
                else if CtlType m = MsgTypeFlush then processFlush m s
                else if CtlType m = MsgTypeRetryExceeded then processRetryExceeded m s
                else (s, [])) of
            (s', acts) \<Rightarrow> (s', acts, True)))"

section \<open>Checkpointing the controller\<close>

record clientCheckpoint =
  cpRcvByID :: bytes
  cpSentByKeyID :: "(KeyType, bytes) gomap"

text \<open>The nil slice is \<open>[]\<close>; \<open>json.Marshal\<close> is applied to the structure.\<close>

definition eofSnapshotClient :: "(clientCheckpoint \<Rightarrow> bytes result) \<Rightarrow> uuid \<Rightarrow> syncCtl \<Rightarrow> bytes result" where
  "eofSnapshotClient marshal c s =
     (case mget (clients s) c of
        None \<Rightarrow> Inr []
      | Some cl \<Rightarrow> marshal \<lparr>cpRcvByID = encodeIDCounts (msgRcvByID cl),
                            cpSentByKeyID = encodeSentIDCounts (msgSentByKeyID cl)\<rparr>)"

definition eofRestoreClient :: "(bytes \<Rightarrow> clientCheckpoint result) \<Rightarrow> uuid \<Rightarrow> bytes \<Rightarrow> syncCtl \<Rightarrow> unit result \<times> syncCtl" where
  "eofRestoreClient unmarshal c data s =
     (if data = [] then (Inr (), s)
      else case unmarshal data of
          Inl e \<Rightarrow> (Inl e, s)
        | Inr cp \<Rightarrow>
            let s = ensureClient c s; cl = clientOf s c in
            (Inr (), setClient c (cl\<lparr>msgRcvByID := decodeIDCounts (cpRcvByID cp),
                                    msgSentByKeyID := decodeSentIDCounts (cpSentByKeyID cp)\<rparr>) s))"

end
