(* ===== verification/EofCounting.thy ===== *)
theory EofCounting
  imports SyncEOF
begin

text \<open>
  The bookkeeping of the EOF controller: the binary form of an id map decodes to the same map, a
  checkpoint of the controller restores the same counters, and the leader counts every batch once,
  however many replicas report it and in whatever order.
\<close>

section \<open>Association-list lemmas\<close>

lemma mput_fresh: "k \<notin> fst ` set m \<Longrightarrow> mput k v m = m @ [(k, v)]"
  by (induction m) auto

lemma set_mput: "set (mput k v m) \<subseteq> insert (k, v) (set m)"
  by (induction m) auto

lemma keys_mput: "fst ` set (mput k v m) = insert k (fst ` set m)"
  by (induction m) auto

lemma unionInto_simps [simp]:
  "unionInto acc [] = acc" "unionInto acc ((i, n) # m) = unionInto (mput i n acc) m"
  by (simp_all add: unionInto_def)

lemma wf_map_unionInto: "wf_map acc \<Longrightarrow> wf_map (unionInto acc m)"
  by (induction m arbitrary: acc) auto

lemma set_unionInto: "set (unionInto acc m) \<subseteq> set acc \<union> set m"
proof (induction m arbitrary: acc)
  case (Cons a m)
  then show ?case using set_mput [of "fst a" "snd a" acc] by (cases a) fastforce
qed simp

lemma keys_unionInto: "fst ` set (unionInto acc m) = fst ` set acc \<union> fst ` set m"
proof (induction m arbitrary: acc)
  case (Cons a m)
  then show ?case by (cases a) (simp add: keys_mput)
qed simp

lemma unionInto_fresh: "wf_map (acc @ m) \<Longrightarrow> unionInto acc m = acc @ m"
proof (induction m arbitrary: acc)
  case (Cons a m)
  obtain i n where a: "a = (i, n)" by (cases a)
  with Cons.prems have "i \<notin> fst ` set acc" "wf_map ((acc @ [a]) @ m)" by (auto simp: wf_map_def)
  with Cons.IH [of "acc @ [a]"] show ?case by (simp add: a mput_fresh)
qed simp

section \<open>Encoded id maps\<close>

definition enc_ok :: "idCounts \<Rightarrow> bool" where
  "enc_ok m \<longleftrightarrow> (\<forall>(i, n)\<in>set m. length i = 16 \<and> unat n < 2 ^ 32)"

lemma enc_ok_simps [simp]:
  "enc_ok []" "enc_ok ((i, n) # m) \<longleftrightarrow> length i = 16 \<and> unat n < 2 ^ 32 \<and> enc_ok m"
  by (auto simp: enc_ok_def)

lemma ucast_ucast_count: "unat (n :: goint) < 2 ^ 32 \<Longrightarrow> ucast (ucast n :: 32 word) = n"
  by (rule unsigned_word_eqI [where 'a = nat]) (simp add: unsigned_ucast_eq unsigned_take_bit_eq take_bit_nat_eq_self)

lemma decodeIDLoop_encode: "enc_ok m \<Longrightarrow> decodeIDLoop (encodeIDCounts m) acc = unionInto acc m"
proof (induction m arbitrary: acc)
  case Nil
  then show ?case by (simp add: decodeIDLoop.simps)
next
  case (Cons a m)
  obtain i n where a: "a = (i, n)" by (cases a)
  with Cons show ?case
    by (subst decodeIDLoop.simps) (simp add: ucast_ucast_count)
qed

lemma decodeIDCounts_encode: "enc_ok m \<Longrightarrow> wf_map m \<Longrightarrow> decodeIDCounts (encodeIDCounts m) = m"
  by (simp add: decodeIDCounts_def decodeIDLoop_encode unionInto_fresh)

lemma set_decode_encode: "enc_ok m \<Longrightarrow> set (decodeIDCounts (encodeIDCounts m)) \<subseteq> set m"
  using set_unionInto [of "[]" m] by (simp add: decodeIDCounts_def decodeIDLoop_encode)

lemma decodeSent_fold:
  "wf_map (acc @ sets) \<Longrightarrow> \<forall>(k, m)\<in>set sets. enc_ok m \<and> wf_map m
    \<Longrightarrow> foldl (\<lambda>out (k, data). mput k (decodeIDCounts data) out) acc (encodeSentIDCounts sets) = acc @ sets"
proof (induction sets arbitrary: acc)
  case (Cons a sets)
  obtain k m where a: "a = (k, m)" by (cases a)
  with Cons.prems have "k \<notin> fst ` set acc" "wf_map ((acc @ [a]) @ sets)" by (auto simp: wf_map_def)
  with Cons.IH [of "acc @ [a]"] Cons.prems(2) show ?case
    by (simp add: a mput_fresh encodeSentIDCounts_def decodeIDCounts_encode)
qed (simp add: encodeSentIDCounts_def)

lemma decodeSentIDCounts_encode:
  "wf_map sets \<Longrightarrow> \<forall>(k, m)\<in>set sets. enc_ok m \<and> wf_map m
    \<Longrightarrow> decodeSentIDCounts (encodeSentIDCounts sets) = sets"
  using decodeSent_fold [of "[]" sets] by (simp add: decodeSentIDCounts_def)

section \<open>Counting\<close>

text \<open>\<open>U\<close> is the count of every batch id, on which the reports of the replicas agree.\<close>

definition reports_agree :: "(MsgID \<rightharpoonup> goint) \<Rightarrow> (int, nodeInfo) gomap \<Rightarrow> bool" where
  "reports_agree U nodes \<longleftrightarrow> (\<forall>(j, info)\<in>set nodes. \<forall>(i, n)\<in>set (rcvByID info). U i = Some n)"

definition reportedIDs :: "(int, nodeInfo) gomap \<Rightarrow> MsgID set" where
  "reportedIDs nodes = (\<Union>(j, info)\<in>set nodes. fst ` set (rcvByID info))"

definition receivedUnion :: "idCounts \<Rightarrow> (int, nodeInfo) gomap \<Rightarrow> idCounts" where
  "receivedUnion acc nodes = foldl (\<lambda>u (_, info). unionInto u (rcvByID info)) acc nodes"

lemma receivedUnion_simps [simp]:
  "receivedUnion acc [] = acc" "receivedUnion acc ((j, info) # nodes) = receivedUnion (unionInto acc (rcvByID info)) nodes"
  by (simp_all add: receivedUnion_def)

lemma mergeReceived_union: "mergeReceived nodes = sumCounts (receivedUnion [] nodes)"
  by (simp add: mergeReceived_def receivedUnion_def)

lemma wf_receivedUnion: "wf_map acc \<Longrightarrow> wf_map (receivedUnion acc nodes)"
  by (induction nodes arbitrary: acc) (auto simp: wf_map_unionInto)

lemma set_receivedUnion: "set (receivedUnion acc nodes) \<subseteq> set acc \<union> (\<Union>(j, info)\<in>set nodes. set (rcvByID info))"
proof (induction nodes arbitrary: acc)
  case (Cons a nodes)
  then show ?case using set_unionInto [of acc "rcvByID (snd a)"] by (cases a) fastforce
qed simp

lemma keys_receivedUnion: "fst ` set (receivedUnion acc nodes) = fst ` set acc \<union> reportedIDs nodes"
proof (induction nodes arbitrary: acc)
  case (Cons a nodes)
  then show ?case by (cases a) (simp add: keys_unionInto reportedIDs_def Un_assoc)
qed (simp add: reportedIDs_def)

lemma sumCounts_wf:
  assumes "wf_map m" "\<forall>(i, n)\<in>set m. U i = Some n"
  shows "sumCounts m = (\<Sum>i\<in>fst ` set m. the (U i))"
proof -
  have "(\<Sum>i\<in>fst ` set m. the (U i)) = sum_list (map (\<lambda>i. the (U i)) (map fst m))"
    using assms(1) sum_list_distinct_conv_sum_set [of "map fst m" "\<lambda>i. the (U i)"] by (simp add: wf_map_def)
  also have "map (\<lambda>i. the (U i)) (map fst m) = map snd m" using assms(2) by (induction m) auto
  finally show ?thesis by (simp add: sumCounts_def)
qed

text \<open>
  C13. The leader counts every batch exactly once: when the replicas' reports agree on the size of
  every batch, the total is the sum over the distinct reported batch ids, however many replicas
  report an id (a batch redelivered to another replica) and in whatever order the maps are walked.
\<close>

theorem mergeReceived_counts_each_batch_once:
  assumes "reports_agree U nodes"
  shows "mergeReceived nodes = (\<Sum>i\<in>reportedIDs nodes. the (U i))"
proof -
  have "\<forall>(i, n)\<in>set (receivedUnion [] nodes). U i = Some n"
    using set_receivedUnion [of "[]" nodes] assms by (fastforce simp: reports_agree_def)
  from sumCounts_wf [OF wf_receivedUnion [OF wf_map_Nil] this] show ?thesis
    by (simp add: mergeReceived_union keys_receivedUnion)
qed

theorem mergeReceived_counts_each_batch_once_witness:
  "mergeReceived [(1, \<lparr>rcvByID = [([1], 3), ([2], 4)], sentByKeyID = []\<rparr>),
                  (2, \<lparr>rcvByID = [([2], 4)], sentByKeyID = []\<rparr>)] = 7"
  using mergeReceived_counts_each_batch_once
    [of "[[1] \<mapsto> 3, [2] \<mapsto> 4]" "[(1, \<lparr>rcvByID = [([1], 3), ([2], 4)], sentByKeyID = []\<rparr>),
       (2, \<lparr>rcvByID = [([2], 4)], sentByKeyID = []\<rparr>)]"]
  by (simp add: reports_agree_def reportedIDs_def insert_commute)

text \<open>
  C14. A checkpoint of the EOF controller restores its counters: what \<open>SnapshotClient\<close> wrote, read by
  \<open>RestoreClient\<close> in a controller that does not know the client, gives the client with the same
  received and sent counters, not leading, provided no single count exceeds 32 bits. The hypothesis
  on JSON is its round trip on \<open>clientCheckpoint\<close>.
\<close>

theorem eof_checkpoint_restores_counters:
  assumes "\<And>cp data. marshal cp = Inr data \<Longrightarrow> unmarshal data = Inr cp \<and> data \<noteq> []"
    and "mget (clients s) c = Some cl" "eofSnapshotClient marshal c s = Inr data"
    and "wf_map (msgRcvByID cl)" "enc_ok (msgRcvByID cl)" "wf_map (msgSentByKeyID cl)"
    and "\<forall>(k, m)\<in>set (msgSentByKeyID cl). enc_ok m \<and> wf_map m"
    and "mget (clients s0) c = None"
  shows "\<exists>s1. eofRestoreClient unmarshal c data s0 = (Inr (), s1)
    \<and> mget (clients s1) c = Some ((NewClient c)\<lparr>msgRcvByID := msgRcvByID cl, msgSentByKeyID := msgSentByKeyID cl\<rparr>)"
  using assms(1) [of _ data] assms(2-8)
  by (auto simp: eofSnapshotClient_def eofRestoreClient_def ensureClient_def clientOf_def setClient_def Let_def
      mhas_def mgetd_def decodeIDCounts_encode decodeSentIDCounts_encode)

theorem eof_checkpoint_restores_counters_witness:
  "\<exists>s1. eofRestoreClient (\<lambda>_. Inr \<lparr>cpRcvByID = replicate 16 0 @ [0, 0, 0, 3], cpSentByKeyID = []\<rparr>) [1] [7]
        (NewSyncEOFController 1 2 0 0 5 True True True) = (Inr (), s1)
    \<and> mget (clients s1) [1] = Some ((NewClient [1])\<lparr>msgRcvByID := [(replicate 16 0, 3)]\<rparr>)"
proof -
  let ?cl = "(NewClient [1])\<lparr>msgRcvByID := [(replicate 16 0, 3)]\<rparr>"
  let ?s0 = "NewSyncEOFController 1 2 0 0 5 True True True"
  let ?cp = "\<lparr>cpRcvByID = replicate 16 0 @ [0, 0, 0, 3], cpSentByKeyID = []\<rparr> :: clientCheckpoint"
  have n: "be_bytes 4 v = be_bytes (Suc (Suc (Suc (Suc 0)))) v" for v
    by (intro arg_cong2 [where f = be_bytes] refl; simp)
  have "PutUint32 3 = [0, 0, 0, 3]" unfolding PutUint32_def n be_bytes.simps by simp
  moreover have law: "(\<lambda>_. Inr ?cp) data = Inr cp \<and> data \<noteq> []"
    if "(\<lambda>cp. if cp = ?cp then Inr [7] else Inl ErrEOF) cp = (Inr data :: bytes result)" for cp data
    using that by (auto split: if_splits)
  ultimately show ?thesis
    using eof_checkpoint_restores_counters [of "\<lambda>cp. if cp = ?cp then Inr [7] else Inl ErrEOF" "\<lambda>_. Inr ?cp"
        "setClient [1] ?cl ?s0" "[1]" ?cl "[7]" ?s0, OF law]
    by (simp add: setClient_def NewSyncEOFController_def NewClient_def eofSnapshotClient_def encodeSentIDCounts_def
        wf_map_def)
qed

end
