(* ===== verification/EofSafety.thy ===== *)
theory EofSafety
  imports EofCounting
begin

text \<open>
  The EOF protocol as a distributed system: replicas of a worker, the queues between them, lost and
  repeated control messages, crashes, and checkpoints restored afterwards. The main property is that
  a leader flushes a client downstream only when every replica has reported and the batches they
  really received cover the announced total.
\<close>

section \<open>The cluster\<close>

text \<open>
  \<open>received\<close> and \<open>saved\<close> are history variables: the batches any replica has recorded, with their sizes,
  and the checkpoints any replica has written.
\<close>

record cluster =
  replica :: "int \<Rightarrow> syncCtl"
  eofQueue :: "string \<Rightarrow> ControlMessage list"
  received :: "(uuid \<times> MsgID \<times> goint) set"
  saved :: "(uuid \<times> bytes) set"

definition publishCtl :: "string \<Rightarrow> int set \<Rightarrow> ControlMessage \<Rightarrow> (string \<Rightarrow> ControlMessage list) \<Rightarrow> string \<Rightarrow> ControlMessage list" where
  "publishCtl prefix Ns m q =
     (case EOFBroker_Send prefix (Inr m) of
        Inl e \<Rightarrow> q
      | Inr (ToQueue name) \<Rightarrow> q(name := q name @ [m])
      | Inr ToBroadcast \<Rightarrow> (\<lambda>name. if name \<in> eofQueueName prefix ` Ns then q name @ [m] else q name))"

definition ctlMsgs :: "action list \<Rightarrow> ControlMessage list" where
  "ctlMsgs acts = concat (map (\<lambda>a. case a of SendCtrl m \<Rightarrow> [m] | _ \<Rightarrow> []) acts)"

definition emit :: "string \<Rightarrow> int set \<Rightarrow> ControlMessage list \<Rightarrow> cluster \<Rightarrow> cluster" where
  "emit prefix Ns ms G = G\<lparr>eofQueue := fold (publishCtl prefix Ns) ms (eofQueue G)\<rparr>"

definition setReplica :: "int \<Rightarrow> syncCtl \<Rightarrow> cluster \<Rightarrow> cluster" where
  "setReplica i s G = G\<lparr>replica := (replica G)(i := s)\<rparr>"

text \<open>
  A control message sent by a replica may be lost (\<open>sendControlMessage\<close> only logs a failed send), and
  a delivered one may be delivered again (\<open>gone = False\<close>: the ack did not reach the broker).
\<close>

inductive cstep ::
  "string \<Rightarrow> (clientCheckpoint \<Rightarrow> bytes result) \<Rightarrow> (bytes \<Rightarrow> clientCheckpoint result) \<Rightarrow> int set \<Rightarrow> cluster \<Rightarrow> cluster \<Rightarrow> bool"
  for prefix marshal unmarshal Ns where
  recv: "i \<in> Ns \<Longrightarrow> length mid = 16 \<Longrightarrow> unat n < 2 ^ 32
    \<Longrightarrow> cstep prefix marshal unmarshal Ns G
          ((setReplica i (MessageReceived c mid n (replica G i)) G)\<lparr>received := insert (c, mid, n) (received G)\<rparr>)"
| sent: "i \<in> Ns \<Longrightarrow> cstep prefix marshal unmarshal Ns G (setReplica i (MessageSentWithKey c key mid n (replica G i)) G)"
| eof: "i \<in> Ns \<Longrightarrow> SyncEof c counts key ack (replica G i) = (s', acts) \<Longrightarrow> ms \<in> set (subseqs (ctlMsgs acts))
    \<Longrightarrow> cstep prefix marshal unmarshal Ns G (emit prefix Ns ms (setReplica i s' G))"
| control: "i \<in> Ns \<Longrightarrow> eofQueue G (eofQueueName prefix i) = m # rest
    \<Longrightarrow> handleControlMessage (Inr m) (replica G i) = (s', acts, ok) \<Longrightarrow> ms \<in> set (subseqs (ctlMsgs acts))
    \<Longrightarrow> cstep prefix marshal unmarshal Ns G
          (emit prefix Ns ms (setReplica i s'
            (G\<lparr>eofQueue := (eofQueue G)(eofQueueName prefix i := (if ok \<and> gone then rest else rest @ [m]))\<rparr>)))"
| crash: "i \<in> Ns \<Longrightarrow> cstep prefix marshal unmarshal Ns G (setReplica i ((replica G i)\<lparr>clients := []\<rparr>) G)"
| checkpoint: "i \<in> Ns \<Longrightarrow> eofSnapshotClient marshal c (replica G i) = Inr data
    \<Longrightarrow> cstep prefix marshal unmarshal Ns G (G\<lparr>saved := insert (c, data) (saved G)\<rparr>)"
| restore: "i \<in> Ns \<Longrightarrow> (c, data) \<in> saved G
    \<Longrightarrow> cstep prefix marshal unmarshal Ns G (setReplica i (snd (eofRestoreClient unmarshal c data (replica G i))) G)"

definition initialCluster :: "int set \<Rightarrow> cluster \<Rightarrow> bool" where
  "initialCluster Ns G \<longleftrightarrow>
     (\<forall>i\<in>Ns. nodeID (replica G i) = i \<and> totalNodes (replica G i) = int (card Ns) \<and> clients (replica G i) = [])
   \<and> (\<forall>q. eofQueue G q = []) \<and> received G = {} \<and> saved G = {}"

inductive reachable ::
  "string \<Rightarrow> (clientCheckpoint \<Rightarrow> bytes result) \<Rightarrow> (bytes \<Rightarrow> clientCheckpoint result) \<Rightarrow> int set \<Rightarrow> cluster \<Rightarrow> bool"
  for prefix marshal unmarshal Ns where
  init: "initialCluster Ns G \<Longrightarrow> reachable prefix marshal unmarshal Ns G"
| step: "reachable prefix marshal unmarshal Ns G \<Longrightarrow> cstep prefix marshal unmarshal Ns G G'
    \<Longrightarrow> reachable prefix marshal unmarshal Ns G'"

section \<open>The invariant\<close>

definition recvOf :: "cluster \<Rightarrow> uuid \<Rightarrow> (MsgID \<times> goint) set" where
  "recvOf G c = {(i, n). (c, i, n) \<in> received G}"

definition goodClient :: "int set \<Rightarrow> (MsgID \<times> goint) set \<Rightarrow> eofClient \<Rightarrow> bool" where
  "goodClient Ns H cl \<longleftrightarrow> set (msgRcvByID cl) \<subseteq> H
     \<and> wf_map (nodesInfo cl) \<and> (\<forall>(j, info)\<in>set (nodesInfo cl). j \<in> Ns \<and> set (rcvByID info) \<subseteq> H)"

definition goodReplica :: "int set \<Rightarrow> (uuid \<Rightarrow> (MsgID \<times> goint) set) \<Rightarrow> int \<Rightarrow> syncCtl \<Rightarrow> bool" where
  "goodReplica Ns H i s \<longleftrightarrow> nodeID s = i \<and> totalNodes s = int (card Ns)
     \<and> (\<forall>c cl. mget (clients s) c = Some cl \<longrightarrow> goodClient Ns (H c) cl)"

definition goodMsg :: "int set \<Rightarrow> (uuid \<Rightarrow> (MsgID \<times> goint) set) \<Rightarrow> ControlMessage \<Rightarrow> bool" where
  "goodMsg Ns H m \<longleftrightarrow> (CtlType m = MsgTypeAmountResponse \<longrightarrow>
     SenderID m \<in> Ns \<and> set (decodeIDCounts (ReceivedIDs m)) \<subseteq> H (CtlClientID m))"

definition goodCluster :: "(bytes \<Rightarrow> clientCheckpoint result) \<Rightarrow> int set \<Rightarrow> cluster \<Rightarrow> bool" where
  "goodCluster unmarshal Ns G \<longleftrightarrow>
     (\<forall>i\<in>Ns. goodReplica Ns (recvOf G) i (replica G i))
   \<and> (\<forall>q. \<forall>m\<in>set (eofQueue G q). goodMsg Ns (recvOf G) m)
   \<and> (\<forall>(c, i, n)\<in>received G. length i = 16 \<and> unat n < 2 ^ 32)
   \<and> (\<forall>(c, data)\<in>saved G. \<forall>cp. data \<noteq> [] \<longrightarrow> unmarshal data = Inr cp \<longrightarrow> set (decodeIDCounts (cpRcvByID cp)) \<subseteq> recvOf G c)"

lemma goodClient_New [simp]: "goodClient Ns H (NewClient c)"
  by (simp add: goodClient_def NewClient_def)

lemma goodClient_mono: "goodClient Ns H cl \<Longrightarrow> H \<subseteq> H' \<Longrightarrow> goodClient Ns H' cl"
  unfolding goodClient_def by blast

lemma goodReplica_mono: "goodReplica Ns H i s \<Longrightarrow> (\<And>c. H c \<subseteq> H' c) \<Longrightarrow> goodReplica Ns H' i s"
  unfolding goodReplica_def using goodClient_mono by blast

lemma goodReplica_setClient:
  "goodReplica Ns H i s \<Longrightarrow> goodClient Ns (H c) cl \<Longrightarrow> goodReplica Ns H i (setClient c cl s)"
  by (simp add: goodReplica_def setClient_def)

lemma goodReplica_ensure:
  "goodReplica Ns H i s \<Longrightarrow> goodReplica Ns H i (ensureClient c s)"
  "goodReplica Ns H i s \<Longrightarrow> goodClient Ns (H c) (clientOf (ensureClient c s) c)"
  by (auto simp: goodReplica_def ensureClient_def clientOf_def mgetd_def split: option.split)

lemma goodReplica_delete: "goodReplica Ns H i s \<Longrightarrow> goodReplica Ns H i (s\<lparr>clients := mdel c (clients s)\<rparr>)"
  by (simp add: goodReplica_def)

lemma goodReplica_cleanup: "goodReplica Ns H i s \<Longrightarrow> goodReplica Ns H i (fst (cleanupClientState c s))"
  by (simp add: cleanupClientState_def goodReplica_delete)

lemma goodReplica_retryExceeded:
  "goodReplica Ns H i s \<Longrightarrow> goodReplica Ns H i (fst (runRetryExceededCallback c s))"
  using goodReplica_cleanup by (auto simp: runRetryExceededCallback_def split: prod.split) (metis fst_conv)

lemma goodReplica_retry:
  assumes "goodReplica Ns H i s"
  shows "goodReplica Ns H i (fst (retryAmountRequest c s))"
proof (cases "mget (clients s) c")
  case (Some cl)
  have "goodClient Ns (H c) cl" using assms Some by (simp add: goodReplica_def)
  then have "goodReplica Ns H i (setClient c (cl\<lparr>retryCount := n, nodesInfo := []\<rparr>) s)" for n
    by (intro goodReplica_setClient assms) (simp add: goodClient_def)
  with goodReplica_retryExceeded Some show ?thesis
    by (auto simp: retryAmountRequest_def Let_def split: prod.split) (metis fst_conv)
qed (simp add: retryAmountRequest_def assms)

lemma goodReplica_check: "goodReplica Ns H i s \<Longrightarrow> goodReplica Ns H i (fst (checkTotalAndFlush c s))"
  using goodReplica_cleanup [of Ns H i s c] goodReplica_retry [of Ns H i s c]
  by (auto simp: checkTotalAndFlush_def Let_def split: option.split prod.split)

text \<open>The only amount responses are the ones \<open>processAmountRequest\<close> builds.\<close>

definition quiet :: "action list \<Rightarrow> bool" where
  "quiet acts \<longleftrightarrow> (\<forall>m\<in>set (ctlMsgs acts). CtlType m \<noteq> MsgTypeAmountResponse)"

lemma ctlMsgs_simps [simp]:
  "ctlMsgs [] = []" "ctlMsgs (xs @ ys) = ctlMsgs xs @ ctlMsgs ys" "ctlMsgs (SendCtrl m # xs) = m # ctlMsgs xs"
  "ctlMsgs (OnFlush c # xs) = ctlMsgs xs" "ctlMsgs (OnLeaderFlush c k # xs) = ctlMsgs xs"
  "ctlMsgs (OnRetryExceeded c # xs) = ctlMsgs xs" "ctlMsgs (CallAck a # xs) = ctlMsgs xs"
  "ctlMsgs (Sleep d # xs) = ctlMsgs xs" "ctlMsgs (Panic # xs) = ctlMsgs xs"
  by (simp_all add: ctlMsgs_def)

lemma quiet_simps [simp]:
  "quiet []" "quiet (xs @ ys) \<longleftrightarrow> quiet xs \<and> quiet ys" "quiet (broadcastFlush c s)"
  "quiet (broadcastAmountRequest c s)" "quiet (broadcastRetryExceeded c)"
  "quiet (SendCtrl m # xs) \<longleftrightarrow> CtlType m \<noteq> MsgTypeAmountResponse \<and> quiet xs"
  "quiet (OnFlush c # xs) \<longleftrightarrow> quiet xs" "quiet (OnLeaderFlush c k # xs) \<longleftrightarrow> quiet xs"
  "quiet (OnRetryExceeded c # xs) \<longleftrightarrow> quiet xs" "quiet (CallAck a # xs) \<longleftrightarrow> quiet xs"
  "quiet (Sleep d # xs) \<longleftrightarrow> quiet xs" "quiet (Panic # xs) \<longleftrightarrow> quiet xs"
  by (auto simp: quiet_def broadcastFlush_def broadcastAmountRequest_def broadcastRetryExceeded_def ctlMsg_def ctl_type_defs)

lemma quiet_cleanup: "quiet (snd (cleanupClientState c s))"
  by (auto simp: cleanupClientState_def split: option.split)

lemma quiet_retryExceeded: "quiet (snd (runRetryExceededCallback c s))"
  using quiet_cleanup [of c s] by (auto simp: runRetryExceededCallback_def split: prod.split)

lemma quiet_retry: "quiet (snd (retryAmountRequest c s))"
  by (auto simp: retryAmountRequest_def Let_def split: option.split prod.split)
    (metis quiet_retryExceeded snd_conv)

lemma quiet_check: "quiet (snd (checkTotalAndFlush c s))"
  using quiet_cleanup [of c s] quiet_retry [of c s]
  by (auto simp: checkTotalAndFlush_def Let_def split: option.split prod.split)

lemma quiet_SyncEof: "quiet (snd (SyncEof c counts key ack s))"
  using quiet_cleanup [of c s] by (auto simp: SyncEof_def Let_def split: option.split prod.split)

lemma quiet_good: "quiet acts \<Longrightarrow> m \<in> set (ctlMsgs acts) \<Longrightarrow> goodMsg Ns H m"
  by (simp add: quiet_def goodMsg_def)

text \<open>A response, and what the leader makes of it.\<close>

lemma goodReplica_response:
  assumes "goodReplica Ns H i s" "goodMsg Ns H m" "CtlType m = MsgTypeAmountResponse"
    "mget (clients s) (CtlClientID m) = Some cl"
  shows "goodClient Ns (H (CtlClientID m)) (cl\<lparr>nodesInfo := mput (SenderID m)
      \<lparr>rcvByID = decodeIDCounts (ReceivedIDs m), sentByKeyID = snt\<rparr> (nodesInfo cl)\<rparr>)"
proof -
  have "goodClient Ns (H (CtlClientID m)) cl" using assms(1,4) by (simp add: goodReplica_def)
  moreover have "SenderID m \<in> Ns \<and> set (decodeIDCounts (ReceivedIDs m)) \<subseteq> H (CtlClientID m)"
    using assms(2,3) by (simp add: goodMsg_def)
  ultimately show ?thesis
    using set_mput [of "SenderID m" "\<lparr>rcvByID = decodeIDCounts (ReceivedIDs m), sentByKeyID = snt\<rparr>" "nodesInfo cl"]
    by (fastforce simp: goodClient_def)
qed

lemma control_good:
  assumes "goodReplica Ns H i s" "goodMsg Ns H m" "handleControlMessage (Inr m) s = (s', acts, ok)" "i \<in> Ns"
    "\<forall>c. \<forall>(i, n)\<in>H c. length i = 16 \<and> unat n < 2 ^ 32"
  shows "goodReplica Ns H i s' \<and> (\<forall>m'\<in>set (ctlMsgs acts). goodMsg Ns H m')"
proof (cases "UnmarshalControlMessage (Inr m)")
  case (Inl e)
  with assms show ?thesis by (simp add: handleControlMessage_def)
next
  case (Inr m')
  then have m': "m' = m" by (auto simp: UnmarshalControlMessage_def split: if_splits)
  consider (req) "CtlType m = MsgTypeAmountRequest" | (resp) "CtlType m = MsgTypeAmountResponse"
    | (fl) "CtlType m = MsgTypeFlush" | (re) "CtlType m = MsgTypeRetryExceeded"
    | (other) "CtlType m \<notin> {MsgTypeAmountRequest, MsgTypeAmountResponse, MsgTypeFlush, MsgTypeRetryExceeded}"
    by auto
  then show ?thesis
  proof cases
    case req
    let ?s = "ensureClient (CtlClientID m) s" and ?cl = "clientOf (ensureClient (CtlClientID m) s) (CtlClientID m)"
    have g: "goodReplica Ns H i ?s" "goodClient Ns (H (CtlClientID m)) ?cl"
      using goodReplica_ensure [OF assms(1)] by simp_all
    then have "set (msgRcvByID ?cl) \<subseteq> H (CtlClientID m)" by (simp add: goodClient_def)
    moreover from this have "enc_ok (msgRcvByID ?cl)" using assms(5) by (fastforce simp: enc_ok_def)
    ultimately have "set (decodeIDCounts (encodeIDCounts (msgRcvByID ?cl))) \<subseteq> H (CtlClientID m)"
      using set_decode_encode by blast
    with g assms(3,4) show ?thesis
      by (auto simp: handleControlMessage_def Inr m' req processAmountRequest_def Let_def goodMsg_def goodReplica_def)
  next
    case resp
    then have act: "(s', acts) = processAmountResponse m s"
      using assms(3) Inr by (auto simp: handleControlMessage_def m' ctl_type_defs split: prod.splits)
    show ?thesis
    proof (cases "mget (clients s) (CtlClientID m)")
      case None
      with act assms(1) show ?thesis by (simp add: processAmountResponse_def)
    next
      case (Some cl)
      let ?s = "setClient (CtlClientID m) (cl\<lparr>nodesInfo := mput (SenderID m) \<lparr>rcvByID = decodeIDCounts (ReceivedIDs m),
          sentByKeyID = decodeSentIDCounts (SentIDsByKey m)\<rparr> (nodesInfo cl)\<rparr>) s"
      have "goodReplica Ns H i ?s"
        using goodReplica_response [OF assms(1,2) resp Some] by (intro goodReplica_setClient assms(1))
      with goodReplica_check [OF this, of "CtlClientID m"] quiet_check [of "CtlClientID m" ?s] act assms(1) show ?thesis
        by (auto simp: processAmountResponse_def Some Let_def split: if_splits) (metis fst_conv snd_conv quiet_good)+
    qed
  next
    case fl
    then show ?thesis
      using assms(3) goodReplica_cleanup [OF assms(1), of "CtlClientID m"] quiet_cleanup [of "CtlClientID m" s]
      by (auto simp: handleControlMessage_def Inr m' ctl_type_defs processFlush_def split: prod.splits if_splits
          dest: quiet_good)
  next
    case re
    then show ?thesis
      using assms(3) goodReplica_retryExceeded [OF assms(1), of "CtlClientID m"] quiet_retryExceeded [of "CtlClientID m" s]
      by (auto simp: handleControlMessage_def Inr m' ctl_type_defs processRetryExceeded_def split: prod.splits
          dest: quiet_good)
  next
    case other
    with assms(1,3) show ?thesis by (simp add: handleControlMessage_def Inr m')
  qed
qed

section \<open>The invariant holds\<close>

lemma set_publish: "set (publishCtl prefix Ns m q name) \<subseteq> insert m (set (q name))"
  by (auto simp: publishCtl_def split: sum.split destination.split if_splits)

lemma set_emit: "set (fold (publishCtl prefix Ns) ms q name) \<subseteq> set ms \<union> set (q name)"
proof (induction ms arbitrary: q)
  case (Cons m ms)
  then show ?case using set_publish [of prefix Ns m q name] by fastforce
qed simp

text \<open>The history only grows, and everything known stays justified by it.\<close>

definition sameHistory :: "cluster \<Rightarrow> cluster \<Rightarrow> bool" where
  "sameHistory G G' \<longleftrightarrow> received G' = received G \<and> saved G' = saved G"

lemma goodCluster_update:
  assumes "goodCluster u Ns G" "sameHistory G G'" "i \<in> Ns"
    and "goodReplica Ns (recvOf G) i (replica G' i)" "\<And>j. j \<noteq> i \<Longrightarrow> replica G' j = replica G j"
    and "\<And>q m. m \<in> set (eofQueue G' q) \<Longrightarrow> goodMsg Ns (recvOf G) m"
  shows "goodCluster u Ns G'"
proof -
  have "recvOf G' = recvOf G" using assms(2) by (simp add: recvOf_def sameHistory_def fun_eq_iff)
  moreover have "goodReplica Ns (recvOf G) j (replica G' j)" if "j \<in> Ns" for j
    using assms(1,4,5) that by (cases "j = i") (auto simp: goodCluster_def)
  ultimately show ?thesis using assms(1,2,6) by (simp add: goodCluster_def sameHistory_def)
qed

lemma emit_update:
  assumes "goodCluster u Ns G" "i \<in> Ns" "goodReplica Ns (recvOf G) i s'"
    "\<forall>m\<in>set ms. goodMsg Ns (recvOf G) m" "\<forall>q. set (q' q) \<subseteq> set (eofQueue G q)"
  shows "goodCluster u Ns (emit prefix Ns ms (setReplica i s' (G\<lparr>eofQueue := q'\<rparr>)))"
proof (rule goodCluster_update [OF assms(1) _ assms(2)])
  fix q m assume "m \<in> set (eofQueue (emit prefix Ns ms (setReplica i s' (G\<lparr>eofQueue := q'\<rparr>))) q)"
  then have "m \<in> set ms \<or> m \<in> set (eofQueue G q)"
    using set_emit [of prefix Ns ms q' q] assms(5) by (auto simp: emit_def setReplica_def)
  with assms(1,4) show "goodMsg Ns (recvOf G) m" by (auto simp: goodCluster_def)
qed (simp_all add: sameHistory_def emit_def setReplica_def assms(3))

lemma goodCluster_replica:
  "goodCluster u Ns G \<Longrightarrow> i \<in> Ns \<Longrightarrow> goodReplica Ns (recvOf G) i s' \<Longrightarrow> goodCluster u Ns (setReplica i s' G)"
  by (rule goodCluster_update [where i = i]) (auto simp: sameHistory_def setReplica_def goodCluster_def)

lemma goodCluster_recv:
  fixes c :: uuid
  assumes "goodCluster u Ns G" "i \<in> Ns" "length mid = 16" "unat n < 2 ^ 32"
  defines "G' \<equiv> (setReplica i (MessageReceived c mid n (replica G i)) G)\<lparr>received := insert (c, mid, n) (received G)\<rparr>"
  shows "goodCluster u Ns G'"
proof -
  let ?s = "ensureClient c (replica G i)"
  have grow: "recvOf G c' \<subseteq> recvOf G' c'" for c' by (auto simp: recvOf_def G'_def)
  have base: "goodReplica Ns (recvOf G) j (replica G j)" if "j \<in> Ns" for j
    using assms(1) that by (simp add: goodCluster_def)
  have "goodReplica Ns (recvOf G') i ?s" "goodClient Ns (recvOf G' c) (clientOf ?s c)"
    using goodReplica_ensure [OF base [OF assms(2)], of c] goodReplica_mono goodClient_mono grow by blast+
  moreover from this(2) have "goodClient Ns (recvOf G' c)
      ((clientOf ?s c)\<lparr>msgRcvByID := mput mid n (msgRcvByID (clientOf ?s c))\<rparr>)"
    using set_mput [of mid n "msgRcvByID (clientOf ?s c)"] by (auto simp: goodClient_def recvOf_def G'_def)
  ultimately have "goodReplica Ns (recvOf G') i (MessageReceived c mid n (replica G i))"
    by (simp add: MessageReceived_def Let_def goodReplica_setClient)
  moreover have "goodReplica Ns (recvOf G') j (replica G j)" if "j \<in> Ns" for j
    using goodReplica_mono [OF base [OF that] grow] .
  ultimately have "\<forall>j\<in>Ns. goodReplica Ns (recvOf G') j (replica G' j)" by (simp add: G'_def setReplica_def)
  moreover have "\<forall>q. \<forall>m\<in>set (eofQueue G' q). goodMsg Ns (recvOf G') m"
    using assms(1) grow by (fastforce simp: goodCluster_def goodMsg_def G'_def setReplica_def)
  moreover have "\<forall>(c, data)\<in>saved G'. \<forall>cp. data \<noteq> [] \<longrightarrow> u data = Inr cp \<longrightarrow> set (decodeIDCounts (cpRcvByID cp)) \<subseteq> recvOf G' c"
    using assms(1) grow by (fastforce simp: goodCluster_def G'_def setReplica_def)
  ultimately show ?thesis
    using assms(1,3,4) by (auto simp: goodCluster_def G'_def setReplica_def)
qed

lemma cluster_history_ok:
  "goodCluster u Ns G \<Longrightarrow> \<forall>c. \<forall>(i, n)\<in>recvOf G c. length i = 16 \<and> unat n < 2 ^ 32"
  by (fastforce simp: goodCluster_def recvOf_def)

lemma goodClient_eof:
  "goodClient Ns H cl \<Longrightarrow> goodClient Ns H (cl\<lparr>expectedTotal := e, retryCount := r, isLeader := l, eofAck := a\<rparr>)"
  "goodClient Ns H cl \<Longrightarrow> goodClient Ns H (cl\<lparr>msgSentByKeyID := snt\<rparr>)"
  by (simp_all add: goodClient_def)

lemma SyncEof_good: "goodReplica Ns H i s \<Longrightarrow> goodReplica Ns H i (fst (SyncEof c counts key ack s))"
  using goodReplica_cleanup [of Ns H i s c] goodReplica_ensure [of Ns H i s c]
  by (auto simp: SyncEof_def Let_def intro!: goodReplica_setClient goodClient_eof split: prod.split)

definition json_roundtrip :: "(clientCheckpoint \<Rightarrow> bytes result) \<Rightarrow> (bytes \<Rightarrow> clientCheckpoint result) \<Rightarrow> bool" where
  "json_roundtrip marshal unmarshal \<longleftrightarrow> (\<forall>cp data. marshal cp = Inr data \<longrightarrow> unmarshal data = Inr cp)"

lemma snapshot_good:
  assumes "goodCluster u Ns G" "i \<in> Ns" "json_roundtrip marshal u" "eofSnapshotClient marshal c (replica G i) = Inr data"
    "data \<noteq> []" "u data = Inr cp"
  shows "set (decodeIDCounts (cpRcvByID cp)) \<subseteq> recvOf G c"
proof -
  obtain cl where cl: "mget (clients (replica G i)) c = Some cl"
    and m: "marshal \<lparr>cpRcvByID = encodeIDCounts (msgRcvByID cl), cpSentByKeyID = encodeSentIDCounts (msgSentByKeyID cl)\<rparr> = Inr data"
    using assms(4,5) by (auto simp: eofSnapshotClient_def split: option.splits)
  have "cp = \<lparr>cpRcvByID = encodeIDCounts (msgRcvByID cl), cpSentByKeyID = encodeSentIDCounts (msgSentByKeyID cl)\<rparr>"
    using assms(3,6) m by (auto simp: json_roundtrip_def)
  moreover have r: "set (msgRcvByID cl) \<subseteq> recvOf G c"
    using assms(1,2) cl by (auto simp: goodCluster_def goodReplica_def goodClient_def)
  moreover have "enc_ok (msgRcvByID cl)" using r cluster_history_ok [OF assms(1)] by (fastforce simp: enc_ok_def)
  ultimately show ?thesis using set_decode_encode by fastforce
qed

lemma restore_good:
  assumes "goodCluster u Ns G" "i \<in> Ns" "(c, data) \<in> saved G"
  shows "goodReplica Ns (recvOf G) i (snd (eofRestoreClient u c data (replica G i)))"
proof -
  have base: "goodReplica Ns (recvOf G) i (replica G i)" using assms(1,2) by (simp add: goodCluster_def)
  have "set (decodeIDCounts (cpRcvByID cp)) \<subseteq> recvOf G c" if "data \<noteq> []" "u data = Inr cp" for cp
    using assms(1,3) that by (fastforce simp: goodCluster_def)
  then show ?thesis
    using base goodReplica_ensure [OF base, of c]
    by (auto simp: eofRestoreClient_def Let_def goodClient_def intro!: goodReplica_setClient split: sum.split)
qed

lemma cstep_good:
  assumes "cstep prefix marshal u Ns G G'" "json_roundtrip marshal u" "goodCluster u Ns G"
  shows "goodCluster u Ns G'"
  using assms(1)
proof cases
  case (recv i mid n c)
  then show ?thesis using goodCluster_recv [OF assms(3)] by simp
next
  case (sent i c key mid n)
  then have "goodReplica Ns (recvOf G) i (replica G i)" using assms(3) by (simp add: goodCluster_def)
  then have "goodReplica Ns (recvOf G) i (MessageSentWithKey c key mid n (replica G i))"
    using goodReplica_ensure [of Ns "recvOf G" i "replica G i" c]
    by (auto simp: MessageSentWithKey_def Let_def intro!: goodReplica_setClient goodClient_eof)
  with sent goodCluster_replica [OF assms(3)] show ?thesis by simp
next
  case (eof i c counts key ack s' acts ms)
  then have "goodReplica Ns (recvOf G) i (replica G i)" using assms(3) by (simp add: goodCluster_def)
  from SyncEof_good [OF this, of c counts key ack] quiet_SyncEof [of c counts key ack "replica G i"] eof
  have "goodReplica Ns (recvOf G) i s'" "quiet acts" by simp_all
  moreover have "\<forall>m\<in>set ms. goodMsg Ns (recvOf G) m"
    using quiet_good [OF \<open>quiet acts\<close>] eof(4) subseqs_powset [of "ctlMsgs acts"] by blast
  ultimately show ?thesis
    using emit_update [OF assms(3) eof(2), of s' ms "eofQueue G" prefix] by (simp add: eof(1))
next
  case (control i m rest s' acts ok ms gone)
  have good: "goodReplica Ns (recvOf G) i (replica G i)" "goodMsg Ns (recvOf G) m"
    using assms(3) control(2,3) by (auto simp: goodCluster_def) (metis list.set_intros(1))
  note out = control_good [OF good control(4,2) cluster_history_ok [OF assms(3)]]
  then have "\<forall>m\<in>set ms. goodMsg Ns (recvOf G) m" using control(5) subseqs_powset [of "ctlMsgs acts"] by blast
  then show ?thesis
    unfolding control(1) using control(3) out by (intro emit_update assms(3) control(2)) auto
next
  case (crash i)
  then have "goodReplica Ns (recvOf G) i ((replica G i)\<lparr>clients := []\<rparr>)"
    using assms(3) by (simp add: goodCluster_def goodReplica_def)
  with crash goodCluster_replica [OF assms(3)] show ?thesis by simp
next
  case (checkpoint i c data)
  have "\<forall>cp. data \<noteq> [] \<longrightarrow> u data = Inr cp \<longrightarrow> set (decodeIDCounts (cpRcvByID cp)) \<subseteq> recvOf G c"
    using snapshot_good [OF assms(3) checkpoint(2) assms(2) checkpoint(3)] by blast
  moreover have "recvOf G' = recvOf G" by (simp add: checkpoint(1) recvOf_def fun_eq_iff)
  ultimately show ?thesis using assms(3) unfolding goodCluster_def by (simp add: checkpoint(1))
next
  case (restore i c data)
  with goodCluster_replica [OF assms(3)] restore_good [OF assms(3)] show ?thesis by simp
qed

lemma reachable_good:
  "reachable prefix marshal u Ns G \<Longrightarrow> json_roundtrip marshal u \<Longrightarrow> goodCluster u Ns G"
proof (induction rule: reachable.induct)
  case (init G)
  then show ?case by (auto simp: initialCluster_def goodCluster_def goodReplica_def)
next
  case (step G G')
  then show ?case using cstep_good by blast
qed

section \<open>No premature flush\<close>

lemma cleanup_acts: "snd (cleanupClientState c s) = [] \<or> (\<exists>a. snd (cleanupClientState c s) = [CallAck a])"
  by (simp add: cleanupClientState_def split: option.split)

lemma cleanup_no_flush: "OnLeaderFlush c cnts \<notin> set (snd (cleanupClientState c' s))"
  using cleanup_acts [of c' s] by auto

lemma leaderFlush_check:
  assumes "OnLeaderFlush c cnts \<in> set (snd (checkTotalAndFlush c' s))"
  shows "c' = c \<and> (\<exists>cl. mget (clients s) c = Some cl \<and> expectedTotal cl \<le>s mergeReceived (nodesInfo cl)
    \<and> cnts = mergeSentByKey (nodesInfo cl))"
proof (cases "mget (clients s) c'")
  case None
  with assms show ?thesis by (simp add: checkTotalAndFlush_def)
next
  case (Some cl)
  have "OnLeaderFlush c cnts \<notin> set (snd (retryAmountRequest c' s))"
    by (simp add: retryAmountRequest_def runRetryExceededCallback_def broadcastRetryExceeded_def
        broadcastAmountRequest_def Let_def case_prod_unfold cleanup_no_flush split: option.split)
  then show ?thesis
    using assms Some
    by (simp add: cleanup_no_flush checkTotalAndFlush_def Let_def broadcastFlush_def case_prod_unfold split: if_splits)
qed

lemma leaderFlush_handler:
  assumes "handleControlMessage (Inr m) s = (s', acts, ok)" "OnLeaderFlush c cnts \<in> set acts"
  shows "CtlType m = MsgTypeAmountResponse \<and> CtlClientID m = c \<and> (\<exists>cl nodes. mget (clients s) c = Some cl \<and> isLeader cl
    \<and> nodes = mput (SenderID m) \<lparr>rcvByID = decodeIDCounts (ReceivedIDs m), sentByKeyID = decodeSentIDCounts (SentIDsByKey m)\<rparr> (nodesInfo cl)
    \<and> int (length nodes) = totalNodes s \<and> expectedTotal cl \<le>s mergeReceived nodes \<and> cnts = mergeSentByKey nodes)"
proof -
  have "OnLeaderFlush c cnts \<notin> set (snd (runRetryExceededCallback c' s))" for c' s
    using cleanup_no_flush [of c cnts c' s] by (auto simp: runRetryExceededCallback_def split: prod.split)
  moreover have "OnLeaderFlush c cnts \<notin> set (snd (processFlush m s))"
    using cleanup_no_flush [of c cnts "CtlClientID m" s] by (auto simp: processFlush_def split: prod.split)
  ultimately have resp: "CtlType m = MsgTypeAmountResponse" "acts = snd (processAmountResponse m s)"
    using assms
    by (auto simp: handleControlMessage_def UnmarshalControlMessage_def processRetryExceeded_def processAmountRequest_def
        Let_def case_prod_unfold split: if_splits)
  then show ?thesis
    using assms(2) by (auto simp: processAmountResponse_def Let_def setClient_def split: option.splits if_splits
        dest!: leaderFlush_check)
qed

text \<open>
  C2. No premature flush. In every reachable state of the cluster, whatever control messages were lost
  or repeated, whichever replicas crashed, forgot a client or were restored from a checkpoint: when
  a leader emits the EOF of a client to the next stage after counting, every replica has reported to
  it, and there is a set of distinct batches of that client, all really received with those sizes by
  some replica, whose sizes add up to at least the announced total.
\<close>

theorem eof_no_premature_flush:
  assumes "reachable prefix marshal unmarshal Ns G" "json_roundtrip marshal unmarshal"
    and "i \<in> Ns" "m \<in> set (eofQueue G (eofQueueName prefix i))"
    and "handleControlMessage (Inr m) (replica G i) = (s', acts, ok)" "OnLeaderFlush c cnts \<in> set acts"
    and "finite Ns"
  shows "\<exists>cl batches. mget (clients (replica G i)) c = Some cl \<and> isLeader cl
    \<and> insert (SenderID m) (fst ` set (nodesInfo cl)) = Ns
    \<and> distinct (map fst batches) \<and> (\<forall>(i, n)\<in>set batches. (c, i, n) \<in> received G)
    \<and> expectedTotal cl \<le>s sum_list (map snd batches)"
proof -
  have good: "goodReplica Ns (recvOf G) i (replica G i)" "goodMsg Ns (recvOf G) m"
    using reachable_good [OF assms(1,2)] assms(3,4) by (auto simp: goodCluster_def)
  from leaderFlush_handler [OF assms(5,6)] obtain cl nodes where
    m: "CtlType m = MsgTypeAmountResponse" "CtlClientID m = c" and cl: "mget (clients (replica G i)) c = Some cl" "isLeader cl"
    and nodes: "nodes = mput (SenderID m) \<lparr>rcvByID = decodeIDCounts (ReceivedIDs m),
          sentByKeyID = decodeSentIDCounts (SentIDsByKey m)\<rparr> (nodesInfo cl)"
      "int (length nodes) = totalNodes (replica G i)" "expectedTotal cl \<le>s mergeReceived nodes"
    by blast
  have g: "wf_map nodes" "\<forall>(j, info)\<in>set nodes. j \<in> Ns \<and> set (rcvByID info) \<subseteq> recvOf G c"
    using goodReplica_response [OF good m(1)] cl(1) m(2) by (auto simp: goodClient_def nodes(1))
  have "card (fst ` set nodes) = card Ns"
    using g(1) nodes(2) good(1) distinct_card [of "map fst nodes"] by (simp add: wf_map_def goodReplica_def)
  moreover have "fst ` set nodes \<subseteq> Ns" using g(2) by auto
  ultimately have all: "fst ` set nodes = Ns" using assms(7) card_subset_eq by metis
  let ?b = "receivedUnion [] nodes"
  have "distinct (map fst ?b)" using wf_receivedUnion [of "[]" nodes] by (simp add: wf_map_def)
  moreover have "\<forall>(i, n)\<in>set ?b. (c, i, n) \<in> received G"
    using set_receivedUnion [of "[]" nodes] g(2) by (fastforce simp: recvOf_def)
  moreover have "expectedTotal cl \<le>s sum_list (map snd ?b)"
    using nodes(3) by (simp add: mergeReceived_union sumCounts_def)
  ultimately show ?thesis using cl all by (auto simp: nodes(1) keys_mput)
qed

text \<open>A run of one replica: it records a batch of three transactions, receives the EOF, and answers itself.\<close>

definition runClient :: uuid where "runClient = replicate 16 0x41"
definition runBatch :: MsgID where "runBatch = replicate 16 2"

definition run0 :: cluster where
  "run0 = \<lparr>replica = (\<lambda>_. NewSyncEOFController 1 1 0 0 5 True True True), eofQueue = (\<lambda>_. []), received = {}, saved = {}\<rparr>"

definition run1 :: cluster where
  "run1 = (setReplica 1 (MessageReceived runClient runBatch 3 (replica run0 1)) run0)\<lparr>received := {(runClient, runBatch, 3)}\<rparr>"

definition run2 :: cluster where
  "run2 = (case SyncEof runClient (Some [(KeyNil, 3)]) KeyNil (Some 7) (replica run1 1) of
     (s, acts) \<Rightarrow> emit ''eof'' {1} (ctlMsgs acts) (setReplica 1 s run1))"

definition run3 :: cluster where
  "run3 = (case handleControlMessage (Inr (ctlMsg MsgTypeAmountRequest runClient 1)) (replica run2 1) of
     (s, acts, _) \<Rightarrow> emit ''eof'' {1} (ctlMsgs acts) (setReplica 1 s
        (run2\<lparr>eofQueue := (eofQueue run2)(eofQueueName ''eof'' 1 := [])\<rparr>)))"

definition runResponse :: ControlMessage where
  "runResponse = \<lparr>CtlType = MsgTypeAmountResponse, CtlClientID = runClient, RequesterID = 1, SenderID = 1,
     ReceivedIDs = encodeIDCounts [(runBatch, 3)], SentIDsByKey = [], SentCountByKey = []\<rparr>"

lemma run_facts: "length runBatch = 16" "runClient \<noteq> uuid_Nil" "uuid_Nil \<noteq> runClient"
  by (simp_all add: runBatch_def runClient_def uuid_Nil_def)

lemmas run_simps = run_facts MessageReceived_def ensureClient_def clientOf_def setClient_def NewSyncEOFController_def
  NewClient_def SyncEof_def broadcastAmountRequest_def Let_def emit_def setReplica_def publishCtl_def EOFBroker_Send_def
  UnmarshalControlMessage_def ctlMsg_def ctl_type_defs handleControlMessage_def processAmountRequest_def
  encodeSentIDCounts_def mhas_def mgetd_def

lemma run1_replica: "replica run1 1 = (NewSyncEOFController 1 1 0 0 5 True True True)\<lparr>clients :=
    [(runClient, (NewClient runClient)\<lparr>msgRcvByID := [(runBatch, 3)]\<rparr>)]\<rparr>"
  by (simp add: run1_def run0_def run_simps)

lemma run2_state:
  "replica run2 1 = (NewSyncEOFController 1 1 0 0 5 True True True)\<lparr>clients :=
    [(runClient, (NewClient runClient)\<lparr>msgRcvByID := [(runBatch, 3)], expectedTotal := 3, isLeader := True, eofAck := Some 7\<rparr>)]\<rparr>"
  "eofQueue run2 (eofQueueName ''eof'' 1) = [ctlMsg MsgTypeAmountRequest runClient 1]"
  by (simp_all add: run2_def run1_replica run_simps) (simp add: run1_def run0_def run_simps)

lemma run3_state:
  "replica run3 1 = replica run2 1" "eofQueue run3 (eofQueueName ''eof'' 1) = [runResponse]"
  by (simp_all add: run3_def run2_state run_simps runResponse_def)

lemma run3_reachable: "reachable ''eof'' (\<lambda>_. Inl ErrEOF) (\<lambda>_. Inl ErrEOF) {1} run3"
proof -
  let ?R = "reachable ''eof'' (\<lambda>_. Inl ErrEOF) (\<lambda>_. Inl ErrEOF) {1 :: int}"
  have "?R run0" by (rule reachable.init) (simp add: initialCluster_def run0_def NewSyncEOFController_def)
  then have "?R run1"
    using reachable.step [OF _ cstep.recv [of 1 "{1}" runBatch 3 _ _ _ run0 runClient]]
    by (simp add: run1_def run_facts) (simp add: run0_def)
  moreover obtain s acts where se: "SyncEof runClient (Some [(KeyNil, 3)]) KeyNil (Some 7) (replica run1 1) = (s, acts)"
    by fastforce
  ultimately have "?R run2"
    using reachable.step [OF _ cstep.eof [OF _ se, of "{1}" "ctlMsgs acts"]] by (simp add: run2_def se subseqs_refl)
  moreover obtain s3 acts3 ok where h: "handleControlMessage (Inr (ctlMsg MsgTypeAmountRequest runClient 1)) (replica run2 1)
      = (s3, acts3, ok)" by (metis prod_cases3)
  moreover have "ok" using h by (auto simp: run_simps)
  ultimately show ?thesis
    using reachable.step [OF _ cstep.control [OF _ run2_state(2) h, of "{1}" "ctlMsgs acts3" _ _ True]]
    by (simp add: run3_def subseqs_refl)
qed

theorem eof_no_premature_flush_witness:
  "\<exists>cl batches. mget (clients (replica run3 1)) runClient = Some cl \<and> isLeader cl
    \<and> insert (SenderID runResponse) (fst ` set (nodesInfo cl)) = {1}
    \<and> distinct (map fst batches) \<and> (\<forall>(i, n)\<in>set batches. (runClient, i, n) \<in> received run3)
    \<and> expectedTotal cl \<le>s sum_list (map snd batches)"
proof -
  obtain s' acts ok where h: "handleControlMessage (Inr runResponse) (replica run3 1) = (s', acts, ok)"
    by (metis prod_cases3)
  have dec: "decodeIDCounts (runBatch @ PutUint32 3) = [(runBatch, 3)]"
    using decodeIDCounts_encode [of "[(runBatch, 3)]"] by (simp add: run_facts wf_map_def)
  have "OnLeaderFlush runClient [] \<in> set acts"
    using h by (auto simp: run3_state run2_state runResponse_def run_simps processAmountResponse_def dec
        decodeSentIDCounts_def checkTotalAndFlush_def mergeReceived_def mergeSentByKey_def sumCounts_def cleanupClientState_def)
  from eof_no_premature_flush [OF run3_reachable _ _ _ h this] show ?thesis
    by (simp add: run3_state json_roundtrip_def)
qed

end
