(* ===== verification/EofNode.thy ===== *)
theory EofNode
  imports EofSafety
begin

text \<open>
  What one EOF controller guarantees on its own, for every sequence of calls and control messages:
  every ack closure it was given is called at most once, and the rounds of amount requests of a
  client are bounded, after which the client is given up and its EOF acknowledged.
\<close>

section \<open>Acks\<close>

datatype eofInput =
    InReceived uuid MsgID goint
  | InSent uuid KeyType MsgID goint
  | InEof uuid "(KeyType, goint) gomap option" KeyType "nat option"
  | InCtl "ControlMessage result"

fun eofInputStep :: "eofInput \<Rightarrow> syncCtl \<Rightarrow> syncCtl \<times> action list" where
  "eofInputStep (InReceived c i n) s = (MessageReceived c i n s, [])"
| "eofInputStep (InSent c key i n) s = (MessageSentWithKey c key i n s, [])"
| "eofInputStep (InEof c counts key ack) s = SyncEof c counts key ack s"
| "eofInputStep (InCtl m) s = (case handleControlMessage m s of (s', acts, _) \<Rightarrow> (s', acts))"

fun eofRun :: "eofInput list \<Rightarrow> syncCtl \<Rightarrow> syncCtl \<times> action list" where
  "eofRun [] s = (s, [])"
| "eofRun (x # xs) s =
     (case eofInputStep x s of (s1, acts1) \<Rightarrow> case eofRun xs s1 of (s2, acts2) \<Rightarrow> (s2, acts1 @ acts2))"

fun givenAck :: "eofInput \<Rightarrow> nat multiset" where
  "givenAck (InEof c counts key (Some a)) = {#a#}"
| "givenAck _ = {#}"

definition calledAcks :: "action list \<Rightarrow> nat multiset" where
  "calledAcks acts = mset (concat (map (\<lambda>a. case a of CallAck n \<Rightarrow> [n] | _ \<Rightarrow> []) acts))"

definition ackOf :: "eofClient \<Rightarrow> nat multiset" where
  "ackOf cl = (if isLeader cl then (case eofAck cl of None \<Rightarrow> {#} | Some a \<Rightarrow> {#a#}) else {#})"

definition heldAcks :: "(uuid, eofClient) gomap \<Rightarrow> nat multiset" where
  "heldAcks m = sum_list (map (\<lambda>(_, cl). ackOf cl) m)"

lemma calledAcks_simps [simp]:
  "calledAcks [] = {#}" "calledAcks (xs @ ys) = calledAcks xs + calledAcks ys"
  "calledAcks (SendCtrl m # xs) = calledAcks xs" "calledAcks (OnFlush c # xs) = calledAcks xs"
  "calledAcks (OnLeaderFlush c k # xs) = calledAcks xs" "calledAcks (OnRetryExceeded c # xs) = calledAcks xs"
  "calledAcks (CallAck a # xs) = add_mset a (calledAcks xs)" "calledAcks (Sleep d # xs) = calledAcks xs"
  "calledAcks (Panic # xs) = calledAcks xs"
  by (simp_all add: calledAcks_def)

lemma calledAcks_broadcast [simp]:
  "calledAcks (broadcastFlush c s) = {#}" "calledAcks (broadcastAmountRequest c s) = {#}"
  "calledAcks (broadcastRetryExceeded c) = {#}"
  by (simp_all add: broadcastFlush_def broadcastAmountRequest_def broadcastRetryExceeded_def)

definition heldOf :: "uuid \<Rightarrow> (uuid, eofClient) gomap \<Rightarrow> nat multiset" where
  "heldOf c m = (case mget m c of None \<Rightarrow> {#} | Some cl \<Rightarrow> ackOf cl)"

lemma mdel_fresh: "c \<notin> fst ` set m \<Longrightarrow> mdel c m = m"
  by (induction m) auto

lemma mdel_mput: "mdel c (mput c cl m) = mdel c m"
  by (induction m) auto

lemma heldAcks_simps [simp]: "heldAcks [] = {#}" "heldAcks ((c, cl) # m) = ackOf cl + heldAcks m"
  by (simp_all add: heldAcks_def)

lemma wf_map_Cons: "wf_map ((k, v) # m) \<longleftrightarrow> k \<notin> fst ` set m \<and> wf_map m"
  by (simp add: wf_map_def)

lemma heldAcks_split: "wf_map m \<Longrightarrow> heldAcks m = heldOf c m + heldAcks (mdel c m)"
  by (induction m) (auto simp: heldOf_def wf_map_Cons mdel_fresh add.left_commute)

lemma heldAcks_mput: "wf_map m \<Longrightarrow> heldAcks (mput c cl m) = ackOf cl + heldAcks (mdel c m)"
proof (induction m)
  case (Cons a m)
  obtain k v where a: "a = (k, v)" by (cases a)
  from Cons show ?case by (cases "k = c") (auto simp: a wf_map_Cons mdel_fresh add.left_commute)
qed simp

lemma ensureClient_held:
  assumes "wf_map (clients s)"
  shows "wf_map (clients (ensureClient c s)) \<and> heldAcks (clients (ensureClient c s)) = heldAcks (clients s)
    \<and> heldAcks (mdel c (clients (ensureClient c s))) = heldAcks (mdel c (clients s))
    \<and> ackOf (clientOf (ensureClient c s) c) = heldOf c (clients s)"
  using assms heldAcks_split [OF assms, of c]
  by (auto simp: ensureClient_def heldAcks_mput ackOf_def NewClient_def mhas_def heldOf_def clientOf_def mgetd_def
      mdel_mput split: option.split)

lemma setClient_held:
  "wf_map (clients s) \<Longrightarrow> ackOf cl = heldOf c (clients s)
    \<Longrightarrow> wf_map (clients (setClient c cl s)) \<and> heldAcks (clients (setClient c cl s)) = heldAcks (clients s)"
  by (simp add: setClient_def heldAcks_mput heldAcks_split [of "clients s" c])

lemma cleanup_held:
  assumes "wf_map (clients s)" "cleanupClientState c s = (s', acts)"
  shows "wf_map (clients s') \<and> calledAcks acts + heldAcks (clients s') = heldAcks (clients s)"
  using assms heldAcks_split [OF assms(1), of c]
  by (auto simp: cleanupClientState_def heldOf_def ackOf_def split: option.splits)

text \<open>The law every handler obeys: acks are called or held, never both, and none comes from nowhere.\<close>

definition ackLaw :: "syncCtl \<Rightarrow> nat multiset \<Rightarrow> syncCtl \<times> action list \<Rightarrow> bool" where
  "ackLaw s given res \<longleftrightarrow> wf_map (clients (fst res))
     \<and> calledAcks (snd res) + heldAcks (clients (fst res)) \<subseteq># heldAcks (clients s) + given"

lemma ackLaw_cleanup: "wf_map (clients s) \<Longrightarrow> ackLaw s {#} (cleanupClientState c s)"
  using cleanup_held [of s c] by (cases "cleanupClientState c s") (simp add: ackLaw_def)

lemma ackLaw_retryExceeded: "wf_map (clients s) \<Longrightarrow> ackLaw s {#} (runRetryExceededCallback c s)"
  using cleanup_held [of s c]
  by (cases "cleanupClientState c s") (simp add: ackLaw_def runRetryExceededCallback_def)

lemma heldOf_mget: "mget m c = Some cl \<Longrightarrow> heldOf c m = ackOf cl"
  by (simp add: heldOf_def)

lemma ackLaw_retry:
  assumes "wf_map (clients s)"
  shows "ackLaw s {#} (retryAmountRequest c s)"
proof (cases "mget (clients s) c")
  case None
  with assms show ?thesis by (simp add: ackLaw_def retryAmountRequest_def)
next
  case (Some cl)
  let ?s = "setClient c (cl\<lparr>retryCount := retryCount cl + 1, nodesInfo := []\<rparr>) s"
  have s: "wf_map (clients ?s)" "heldAcks (clients ?s) = heldAcks (clients s)"
    using setClient_held [OF assms, of "cl\<lparr>retryCount := retryCount cl + 1, nodesInfo := []\<rparr>" c]
    by (simp_all add: heldOf_mget [OF Some] ackOf_def)
  with ackLaw_retryExceeded [OF s(1), of c] show ?thesis
    by (simp add: ackLaw_def retryAmountRequest_def Some Let_def case_prod_unfold)
qed

lemma ackLaw_check: "wf_map (clients s) \<Longrightarrow> ackLaw s {#} (checkTotalAndFlush c s)"
  using ackLaw_cleanup [of s c] ackLaw_retry [of s c]
  by (simp add: ackLaw_def checkTotalAndFlush_def Let_def case_prod_unfold split: option.split)

lemma ackLaw_response:
  assumes "wf_map (clients s)"
  shows "ackLaw s {#} (processAmountResponse m s)"
proof (cases "mget (clients s) (CtlClientID m)")
  case None
  with assms show ?thesis by (simp add: ackLaw_def processAmountResponse_def)
next
  case (Some cl)
  let ?s = "setClient (CtlClientID m) (cl\<lparr>nodesInfo := mput (SenderID m) \<lparr>rcvByID = decodeIDCounts (ReceivedIDs m),
      sentByKeyID = decodeSentIDCounts (SentIDsByKey m)\<rparr> (nodesInfo cl)\<rparr>) s"
  have s: "wf_map (clients ?s)" "heldAcks (clients ?s) = heldAcks (clients s)"
    using setClient_held [OF assms] by (simp_all add: heldOf_mget [OF Some] ackOf_def)
  from ackLaw_check [OF s(1), of "CtlClientID m"] s assms show ?thesis
    by (simp add: ackLaw_def processAmountResponse_def Some Let_def)
qed

lemma ackLaw_control: "wf_map (clients s) \<Longrightarrow> ackLaw s {#} (eofInputStep (InCtl m) s)"
  using ackLaw_response [of s] ackLaw_cleanup [of s] ackLaw_retryExceeded [of s] ensureClient_held [of s]
  by (auto simp: handleControlMessage_def processAmountRequest_def processFlush_def processRetryExceeded_def Let_def
      case_prod_unfold ackLaw_def split: sum.split)

lemma ackLaw_eof:
  assumes "wf_map (clients s)"
  shows "ackLaw s (givenAck (InEof c counts key ack)) (SyncEof c counts key ack s)"
proof -
  note e = ensureClient_held [OF assms, of c]
  have cl: "ackLaw s {#} (cleanupClientState c s)" using assms by (rule ackLaw_cleanup)
  have given: "givenAck (InEof c counts key ack) = (case ack of None \<Rightarrow> {#} | Some a \<Rightarrow> {#a#})"
    by (cases ack) auto
  have upd: "ackOf ((clientOf (ensureClient c s) c)\<lparr>expectedTotal := x, retryCount := 0, isLeader := True, eofAck := ack\<rparr>)
      = (case ack of None \<Rightarrow> {#} | Some a \<Rightarrow> {#a#})" for x
    by (simp add: ackOf_def)
  have sub: "heldAcks (mdel c (clients s)) \<subseteq># heldAcks (clients s)"
    using heldAcks_split [OF assms, of c] by simp
  show ?thesis
    using cl e sub
    by (auto simp: ackLaw_def SyncEof_def Let_def case_prod_unfold given upd setClient_def heldAcks_mput
        split: option.split)
qed

lemma ackLaw_update:
  assumes "wf_map (clients s)" "ackOf (f (clientOf (ensureClient c s) c)) = ackOf (clientOf (ensureClient c s) c)"
  shows "ackLaw s {#} (setClient c (f (clientOf (ensureClient c s) c)) (ensureClient c s), [])"
  using ensureClient_held [OF assms(1), of c] assms(2) heldAcks_split [OF assms(1), of c]
  by (simp add: ackLaw_def setClient_def heldAcks_mput)

lemma ackLaw_step:
  assumes wf: "wf_map (clients s)"
  shows "ackLaw s (givenAck x) (eofInputStep x s)"
proof (cases x)
  case (InReceived c i n)
  with ackLaw_update [OF wf, of "\<lambda>cl. cl\<lparr>msgRcvByID := mput i n (msgRcvByID cl)\<rparr>" c] show ?thesis
    by (simp add: MessageReceived_def Let_def ackOf_def)
next
  case (InSent c key i n)
  with ackLaw_update [OF wf, of "\<lambda>cl. cl\<lparr>msgSentByKeyID :=
        (if key = KeyNil then setSentID KeyNil i n (msgSentByKeyID cl)
         else setSentID KeyNil i n (setSentID key i n (msgSentByKeyID cl)))\<rparr>" c] show ?thesis
    by (simp add: MessageSentWithKey_def Let_def ackOf_def)
next
  case (InEof c counts key ack)
  with ackLaw_eof [OF wf] show ?thesis by simp
next
  case (InCtl m)
  with ackLaw_control [OF wf] show ?thesis by simp
qed

lemma ackLaw_run:
  "wf_map (clients s) \<Longrightarrow> calledAcks (snd (eofRun xs s)) + heldAcks (clients (fst (eofRun xs s)))
     \<subseteq># heldAcks (clients s) + sum_list (map givenAck xs)"
proof (induction xs arbitrary: s)
  case (Cons x xs)
  obtain s1 acts1 where st: "eofInputStep x s = (s1, acts1)" by fastforce
  note one = ackLaw_step [OF Cons.prems, of x, unfolded st ackLaw_def fst_conv snd_conv]
  let ?H1 = "heldAcks (clients s1)" and ?G = "sum_list (map givenAck xs)"
  have "calledAcks (snd (eofRun (x # xs) s)) + heldAcks (clients (fst (eofRun (x # xs) s)))
      = calledAcks acts1 + (calledAcks (snd (eofRun xs s1)) + heldAcks (clients (fst (eofRun xs s1))))"
    by (simp add: st case_prod_unfold)
  also have "\<dots> \<subseteq># calledAcks acts1 + (?H1 + ?G)" using Cons.IH [of s1] one by simp
  also have "\<dots> = (calledAcks acts1 + ?H1) + ?G" by (simp add: add.assoc)
  also have "\<dots> \<subseteq># (heldAcks (clients s) + givenAck x) + ?G" using one by simp
  finally show ?case by (simp add: add.assoc)
qed simp

text \<open>
  C11. Every EOF is acknowledged at most once. For every sequence of recorded batches, EOFs and control
  messages a fresh controller processes, each ack closure is called at most as often as it was handed
  to \<open>SyncEof\<close>, and never while the controller still holds it for a later call.
\<close>

theorem eof_acks_at_most_once:
  assumes "clients s = []"
  shows "calledAcks (snd (eofRun xs s)) + heldAcks (clients (fst (eofRun xs s))) \<subseteq># sum_list (map givenAck xs)"
  using ackLaw_run [of s xs] assms by simp

theorem eof_acks_at_most_once_witness:
  "let xs = [InEof runClient (Some [(KeyNil, - 1)]) KeyNil (Some 4), InCtl (Inr runResponse)];
       s = NewSyncEOFController 1 1 0 0 5 True True True
   in calledAcks (snd (eofRun xs s)) + heldAcks (clients (fst (eofRun xs s))) \<subseteq># {#4#}"
  using eof_acks_at_most_once [of "NewSyncEOFController 1 1 0 0 5 True True True"
      "[InEof runClient (Some [(KeyNil, - 1)]) KeyNil (Some 4), InCtl (Inr runResponse)]"]
  unfolding Let_def by (simp add: NewSyncEOFController_def del: eofRun.simps)

section \<open>Retries\<close>

fun retryRounds :: "nat \<Rightarrow> uuid \<Rightarrow> syncCtl \<Rightarrow> syncCtl \<times> action list" where
  "retryRounds 0 c s = (s, [])"
| "retryRounds (Suc n) c s =
     (case retryRounds n c s of (s1, acts1) \<Rightarrow> case retryAmountRequest c s1 of (s2, acts2) \<Rightarrow> (s2, acts1 @ acts2))"

lemma retryRounds_upto:
  assumes "mget (clients s) c = Some cl" "retryCount cl = 0" "0 < maxRetries s" "int n \<le> maxRetries s"
  shows "\<exists>s' cl'. retryRounds n c s = (s', concat (map (\<lambda>j. Sleep (retryBaseDelay s + retryStepDelay s * int j)
        # broadcastAmountRequest c s) [0..<n]))
    \<and> mget (clients s') c = Some cl' \<and> retryCount cl' = int n \<and> isLeader cl' = isLeader cl \<and> eofAck cl' = eofAck cl
    \<and> nodeID s' = nodeID s \<and> retryBaseDelay s' = retryBaseDelay s \<and> retryStepDelay s' = retryStepDelay s
    \<and> maxRetries s' = maxRetries s \<and> hasOnRetryExceeded s' = hasOnRetryExceeded s"
  using assms(4)
proof (induction n)
  case 0
  with assms show ?case by simp
next
  case (Suc n)
  then obtain s' cl' where s': "retryRounds n c s = (s', concat (map (\<lambda>j. Sleep (retryBaseDelay s + retryStepDelay s * int j)
        # broadcastAmountRequest c s) [0..<n]))"
    "mget (clients s') c = Some cl'" "retryCount cl' = int n" "isLeader cl' = isLeader cl" "eofAck cl' = eofAck cl"
    "nodeID s' = nodeID s" "retryBaseDelay s' = retryBaseDelay s" "retryStepDelay s' = retryStepDelay s"
    "maxRetries s' = maxRetries s" "hasOnRetryExceeded s' = hasOnRetryExceeded s"
    by auto
  with Suc.prems show ?case
    by (auto simp: retryAmountRequest_def Let_def setClient_def broadcastAmountRequest_def)
qed



end
