(* ===== verification/WireProperties.thy ===== *)
theory WireProperties
  imports Envelope Store
begin

text \<open>
  The properties of the wire formats: what the encoders write is read back, truncated input is
  rejected, ids are stamped in place, and the inputs on which the formats fail.
\<close>

section \<open>Batches\<close>

lemma readFull_short: "length r < n \<Longrightarrow> \<exists>e. readFull n r = Inl e"
  by (cases "readFull n r") (auto simp: readFull_eq_Inr)

lemma readFull_take_short: "k < n \<Longrightarrow> \<exists>e. readFull n (take k r) = Inl e"
  by (rule readFull_short) simp

text \<open>Cutting the encoded items anywhere leaves an input that the framing rejects, whatever the element decoder accepts.\<close>

lemma decodeItems_truncated:
  "encodeItems w enc i xs = Inr bs \<Longrightarrow> n < length bs
    \<Longrightarrow> \<exists>e. decodeItems w' dec (length xs) j (take n bs) = Inl e"
proof (induction xs arbitrary: i j bs n)
  case (Cons x xs)
  from Cons.prems obtain b bs' where b: "length b \<le> MaxUint16" and bs': "encodeItems w enc (Suc i) xs = Inr bs'"
    and bs: "bs = PutUint16 (word_of_nat (length b)) @ b @ bs'"
    by (auto simp: result_simps split: if_splits)
  have len: "unat (word_of_nat (length b) :: 16 word) = length b"
    using b by (simp add: MaxUint16_def unat_of_nat)
  consider (length) "n < 2" | (body) "2 \<le> n" "n < 2 + length b" | (rest) "2 + length b \<le> n" by linarith
  then show ?case
  proof cases
    case length
    then obtain e where "readFull 2 (take n bs) = Inl e" using readFull_take_short by blast
    then show ?thesis by simp
  next
    case body
    then have "n - 2 < length b" by simp
    then obtain e where "readFull (length b) (take (n - 2) b) = Inl e" using readFull_take_short by blast
    with body show ?thesis by (simp add: bs readFull_append len)
  next
    case rest
    with Cons.prems(2) have "n - (2 + length b) < length bs'" by (simp add: bs)
    from Cons.IH [OF bs' this] obtain e where
      "decodeItems w' dec (length xs) (Suc j) (take (n - (2 + length b)) bs') = Inl e" by blast
    with rest show ?thesis by (cases "dec b") (auto simp: bs readFull_append len)
  qed
qed simp

lemma decodeBatch_truncated:
  assumes "encodeBatch w enc xs = Inr bs" "length xs < 2 ^ 32" "n < length bs"
  shows "\<exists>e. decodeBatch w' dec (take n bs) = Inl e"
proof (cases "n < 4")
  case True
  then obtain e where "readFull 4 (take n bs) = Inl e" using readFull_take_short by blast
  then show ?thesis by (simp add: decodeBatch_def)
next
  case False
  from assms(1) obtain body where body: "encodeItems w enc 0 xs = Inr body"
    and bs: "bs = PutUint32 (word_of_nat (length xs)) @ body"
    by (auto simp: encodeBatch_def result_simps)
  have "unat (word_of_nat (length xs) :: 32 word) = length xs" using assms(2) by (simp add: unat_of_nat)
  moreover have "n - 4 < length body" using False assms(3) by (simp add: bs)
  ultimately show ?thesis
    using decodeItems_truncated [OF body] False by (simp add: decodeBatch_def bs readFull_append)
qed

definition exampleTx :: Transaction where
  "exampleTx = \<lparr>Timestamp = ''2022/09/01 00:20'', FromBank = ''10'', FromAccount = ''8000EBD30'', ToBank = ''10'',
     ToAccount = ''8000EBD31'', AmountReceived = 0, ReceivingCurrency = ''US Dollar'', AmountPaid = 0,
     PaymentCurrency = ''US Dollar'', PaymentFormat = ''Reinvestment'', IsLaundering = False\<rparr>"

lemma exampleTx_encodes: "\<exists>bs. EncodeTransactionBatch [exampleTx] = Inr bs \<and> 0 < length bs"
  by (simp add: EncodeTransactionBatch_def encodeBatch_def encodeTransaction_def exampleTx_def account_wire_defs
      writeString_def MaxUint16_def writeFloat64_def writeBool_def)

text \<open>
  C22. Transaction and account batches survive the wire: decoding what the encoder produced gives the
  same records in the same order, for every batch the encoder accepts.
\<close>

theorem batches_roundtrip:
  "(EncodeTransactionBatch txs = Inr bs \<and> length txs < 2 ^ 32 \<longrightarrow> DecodeTransactionBatch bs = Inr txs)
   \<and> (EncodeAccountBatch accs = Inr bs \<and> length accs < 2 ^ 32 \<longrightarrow> DecodeAccountBatch bs = Inr accs)"
  using transaction.decodeBatch_encodeBatch_exact [of txs] accountData.decodeBatch_encodeBatch_exact [of accs]
  by (auto simp: EncodeTransactionBatch_def DecodeTransactionBatch_def EncodeAccountBatch_def DecodeAccountBatch_def)

theorem batches_roundtrip_witness:
  "\<exists>bs. EncodeTransactionBatch [exampleTx] = Inr bs \<and> DecodeTransactionBatch bs = Inr [exampleTx]"
  using exampleTx_encodes batches_roundtrip [of "[exampleTx]"] by auto

text \<open>
  C23. Truncated batches are rejected: no proper prefix of an encoded transaction batch decodes, so a
  message cut short in transit is an error and never a shorter batch.
\<close>

theorem truncated_batch_rejected:
  assumes "EncodeTransactionBatch txs = Inr bs" "length txs < 2 ^ 32" "n < length bs"
  shows "\<exists>e. DecodeTransactionBatch (take n bs) = Inl e"
  using decodeBatch_truncated [OF assms(1) [unfolded EncodeTransactionBatch_def] assms(2,3)]
  by (simp add: DecodeTransactionBatch_def)

theorem truncated_batch_rejected_witness:
  "\<exists>bs e. EncodeTransactionBatch [exampleTx] = Inr bs \<and> DecodeTransactionBatch (take 0 bs) = Inl e"
  using exampleTx_encodes truncated_batch_rejected [of "[exampleTx]" _ 0] by force

section \<open>Envelopes\<close>

text \<open>
  C24. Internal envelopes survive the wire, and \<open>SetEnvelopeMsgID\<close> changes the message id of an encoded
  envelope and nothing else.
\<close>

theorem envelope_roundtrip_and_stamp:
  assumes "wf_envelope e" "length i = 16"
  shows "DecodeInternalEnvelope (EncodeInternalEnvelope e) = Some (Inr e)
    \<and> DecodeInternalEnvelope (SetEnvelopeMsgID (EncodeInternalEnvelope e) i) = Some (Inr (e\<lparr>MsgID := i\<rparr>))"
proof -
  have "wf_envelope (e\<lparr>MsgID := i\<rparr>)" using assms by (simp add: wf_envelope_def)
  with assms(1) show ?thesis by (simp add: DecodeInternalEnvelope_Encode SetEnvelopeMsgID_Encode)
qed

definition exampleEnvelope :: InternalEnvelope where
  "exampleEnvelope = \<lparr>MsgType = MsgTransactionsBatch, ClientId = replicate 16 7, MsgID = replicate 16 3, Payload = [1, 2]\<rparr>"

lemma exampleEnvelope_wf: "wf_envelope exampleEnvelope"
  by (simp add: wf_envelope_def exampleEnvelope_def)

theorem envelope_roundtrip_and_stamp_witness:
  "DecodeInternalEnvelope (SetEnvelopeMsgID (EncodeInternalEnvelope exampleEnvelope) (replicate 16 9))
     = Some (Inr (exampleEnvelope\<lparr>MsgID := replicate 16 9\<rparr>))"
  using envelope_roundtrip_and_stamp [OF exampleEnvelope_wf, of "replicate 16 9"] by simp

text \<open>
  C25. The pre-MsgID layout is still read, with the zero id, when the payload is shorter than 16 bytes;
  but a legacy message whose payload has four zero bytes at offset 12 is taken for the new layout:
  its payload is dropped and its length field and first bytes become the message id.
\<close>

theorem legacy_envelope_decoding:
  assumes "length cid = 16"
  shows "(length p < 16 \<longrightarrow> DecodeInternalEnvelope (legacyEnvelope mt cid p) = Some (Inr (internalEnvelope mt cid p)))
    \<and> (length a = 12 \<longrightarrow> DecodeInternalEnvelope (legacyEnvelope mt cid (a @ [0, 0, 0, 0] @ rest))
          = Some (Inr \<lparr>MsgType = mt, ClientId = cid,
                       MsgID = PutUint32 (word_of_nat (16 + length rest)) @ a, Payload = []\<rparr>))"
proof (intro conjI impI)
  show "DecodeInternalEnvelope (legacyEnvelope mt cid p) = Some (Inr (internalEnvelope mt cid p))" if "length p < 16"
    using DecodeInternalEnvelope_legacy [OF assms that] .
  assume a: "length a = 12"
  let ?i = "PutUint32 (word_of_nat (16 + length rest)) @ a"
  define h where "h = mt # cid @ ?i @ [0, 0, 0, 0]"
  have m: "legacyEnvelope mt cid (a @ [0, 0, 0, 0] @ rest) = h @ rest" using a by (simp add: legacyEnvelope_def h_def)
  have h: "length h = InternalHeaderSize" using assms a by (simp add: h_def InternalHeaderSize_def)
  have "Uint32 [0, 0, 0, 0] = 0" by (simp add: Uint32_def be_nat_def)
  then have "DecodeInternalHeader h = (mt, cid, ?i, 0)"
    unfolding h_def using assms a by (subst DecodeInternalHeader_Encode) simp_all
  moreover have "envelopeSlice InternalHeaderSize 0 (h @ rest) = Some []"
    by (simp add: envelopeSlice_def InternalHeaderSize_def slice_def)
  ultimately show "DecodeInternalEnvelope (legacyEnvelope mt cid (a @ [0, 0, 0, 0] @ rest))
      = Some (Inr \<lparr>MsgType = mt, ClientId = cid, MsgID = ?i, Payload = []\<rparr>)"
    unfolding m DecodeInternalEnvelope_def by (simp add: h)
qed

theorem legacy_envelope_decoding_witness:
  "DecodeInternalEnvelope (legacyEnvelope MsgTransactionsBatch (replicate 16 7) (replicate 12 1 @ [0, 0, 0, 0] @ [5]))
     = Some (Inr \<lparr>MsgType = MsgTransactionsBatch, ClientId = replicate 16 7,
          MsgID = PutUint32 17 @ replicate 12 1, Payload = []\<rparr>)"
  using legacy_envelope_decoding [of "replicate 16 7" "[]" MsgTransactionsBatch "replicate 12 1" "[5]"] by simp

section \<open>EOF counts\<close>

text \<open>
  C26. EOF counts survive the wire as a map, whatever order the encoder's map was walked in: two maps
  with the same entries have the same encoding, and decoding it yields a map with those entries.
\<close>

theorem eof_counts_roundtrip:
  assumes "wf_map m" "wf_map m'" "map_of m = map_of m'" "EncodeEOFCounts m = Inr bs" "length m < 2 ^ 32"
  shows "EncodeEOFCounts m' = Inr bs
    \<and> (\<exists>d. DecodeEOFCounts bs = Inr d \<and> wf_map d \<and> map_of d = map_of m \<and> (IsFlushEOF d \<longleftrightarrow> IsFlushEOF m))"
proof -
  obtain d where "DecodeEOFCounts bs = Inr d" "map_of d = map_of m" "wf_map d"
    using DecodeEOFCounts_Encode_map [OF assms(5,4)] by blast
  moreover from this have "IsFlushEOF d \<longleftrightarrow> IsFlushEOF m" using assms(1) by (simp add: IsFlushEOF_map)
  ultimately show ?thesis using EncodeEOFCounts_order_independent [OF assms(1-3)] assms(4) by auto
qed

theorem eof_counts_roundtrip_witness:
  "\<exists>bs d. EncodeEOFCounts [(KeyDollarTransaction, 5), (KeyNil, 7)] = Inr bs
    \<and> EncodeEOFCounts [(KeyNil, 7), (KeyDollarTransaction, 5)] = Inr bs \<and> DecodeEOFCounts bs = Inr d
    \<and> map_of d KeyNil = Some 7"
proof -
  let ?m = "[(KeyDollarTransaction, 5), (KeyNil, 7)] :: (KeyType, goint) gomap"
  obtain bs where bs: "EncodeEOFCounts ?m = Inr bs"
    by (simp add: EncodeEOFCounts_def KeyType_defs writeString_def)
  have perm: "map_of ?m = map_of [(KeyNil, 7), (KeyDollarTransaction, 5)]" by (rule ext) (simp add: KeyType_defs)
  from eof_counts_roundtrip [OF _ _ perm bs] show ?thesis using bs by (auto simp: wf_map_def KeyType_defs)
qed

section \<open>Query results\<close>

lemma readString_length: "readString r = Inr (s, r') \<Longrightarrow> length s \<le> 255"
  using unsigned_less [of "hd r", where 'a = nat]
  by (cases r) (auto simp: readString_def result_simps)

lemma decodeQuery2Result_name: "decodeQuery2Result r = Inr (q, r') \<Longrightarrow> length (q2BankName q) \<le> 255"
  using readString_length by (auto simp: decodeQuery2Result_def result_simps)

lemma decodeItems_all:
  "decodeItems w dec n i r = Inr xs \<Longrightarrow> (\<And>r x r'. dec r = Inr (x, r') \<Longrightarrow> P x) \<Longrightarrow> \<forall>x\<in>set xs. P x"
  by (induction n arbitrary: i r xs) (auto simp: result_simps)

text \<open>
  A query-2 result whose bank name exceeds 255 bytes is corrupted silently: encoding it succeeds,
  and what it decodes to is never the result that was sent.
\<close>

lemma query2_long_bank_name_corrupts:
  assumes "length (q2BankName r) > 255" "length (q2FromBank r) \<le> 255" "length (q2FromAccount r) \<le> 255"
  shows "\<exists>bs. EncodeQuery2ResultBatch [r] = Inr bs \<and> DecodeQuery2ResultBatch bs \<noteq> Inr [r]"
proof -
  obtain bs where "EncodeQuery2ResultBatch [r] = Inr bs"
    using assms by (simp add: EncodeQuery2ResultBatch_def encodeBatch_def encodeQuery2Result_def
        encodeTransactionAccount_def writeString_def writeFloat64_def MaxUint16_def)
  moreover have "DecodeQuery2ResultBatch bs \<noteq> Inr [r]"
  proof
    assume "DecodeQuery2ResultBatch bs = Inr [r]"
    then have "length (q2BankName r) \<le> 255"
      using decodeItems_all [where P = "\<lambda>q. length (q2BankName q) \<le> 255"] decodeQuery2Result_name
      by (fastforce simp: DecodeQuery2ResultBatch_def decodeBatch_def result_simps)
    with assms(1) show False by simp
  qed
  ultimately show ?thesis by blast
qed

lemma query2_long_bank_name_corrupts_witness:
  "\<exists>bs. EncodeQuery2ResultBatch [\<lparr>q2FromBank = ''1'', q2FromAccount = ''2'', q2BankName = replicate 256 CHR ''x'', q2AmountPaid = 0\<rparr>]
     = Inr bs \<and> DecodeQuery2ResultBatch bs
        \<noteq> Inr [\<lparr>q2FromBank = ''1'', q2FromAccount = ''2'', q2BankName = replicate 256 CHR ''x'', q2AmountPaid = 0\<rparr>]"
  by (rule query2_long_bank_name_corrupts) simp_all

text \<open>
  A query-5 result survives the wire, but a payload that does not decode, or that holds no result,
  makes \<open>DecodeQuery5Result\<close> panic instead of returning an error.
\<close>

lemma query5_roundtrip_or_panic:
  "(EncodeQuery5Result r = Inr bs \<longrightarrow> DecodeQuery5Result bs = Some (Inr r))
   \<and> (length payload < 4 \<longrightarrow> DecodeQuery5Result payload = None)
   \<and> DecodeQuery5Result [0, 0, 0, 0] = None"
proof (intro conjI impI)
  show "DecodeQuery5Result bs = Some (Inr r)" if "EncodeQuery5Result r = Inr bs"
    using query5.decodeBatch_encodeBatch_exact [of "[r]" "''result''" bs "''result''"] that
    by (simp add: EncodeQuery5Result_def DecodeQuery5Result_def)
  show "DecodeQuery5Result payload = None" if "length payload < 4"
    using readFull_short [OF that] by (auto simp: DecodeQuery5Result_def decodeBatch_def)
  show "DecodeQuery5Result [0, 0, 0, 0] = None"
    by (simp add: DecodeQuery5Result_def decodeBatch_def readFull_def Uint32_def be_nat_def)
qed

lemma query5_roundtrip_or_panic_witness: "DecodeQuery5Result [] = None"
  using query5_roundtrip_or_panic [of "\<lparr>q5Count = 1\<rparr>" "[]" "[]"] by simp

section \<open>Query 4 and checkpoints\<close>

text \<open>
  C27. The query-4 messages survive the wire: phase-one batches with their role, heavy-account batches
  with sender and role, and phase-three maps as maps.
\<close>

theorem query4_messages_roundtrip:
  "(EncodeTxQ4PhaseOneBatchEnvelope cid ty txs = Inr bs \<and> length txs < 2 ^ 32 \<longrightarrow>
      (\<exists>p. bs = EncodeInternalEnvelope (internalEnvelope MsgTxQ4 cid p) \<and> DecodeTxQ4PhaseOneBatch p = Inr (ty, txs)))
   \<and> (EncodeQ4HeavyBatchEnvelope cid sid role as = Inr bs \<and> length as < 2 ^ 32 \<longrightarrow>
      (\<exists>p. bs = EncodeInternalEnvelope (internalEnvelope MsgQ4HeavyBatch cid p) \<and> DecodeQ4HeavyBatch p = Inr (sid, role, as)))
   \<and> (encodeTxQ4PhaseThree m = Inr bs \<and> length m < 2 ^ 63 \<longrightarrow>
      (\<exists>m'. DecodeTxQ4PhaseThreeEnvelope bs = Inr m' \<and> map_of m' = map_of m \<and> wf_map m'))"
  using DecodeTxQ4PhaseOneBatch_Encode [of cid ty txs bs] DecodeQ4HeavyBatch_Encode [of cid sid role as bs]
    DecodeTxQ4PhaseThree_Encode [of m bs]
  by blast

theorem query4_messages_roundtrip_witness:
  "\<exists>bs p. EncodeTxQ4PhaseOneBatchEnvelope (replicate 16 7) ''scatter'' [exampleTx] = Inr bs
     \<and> DecodeTxQ4PhaseOneBatch p = Inr (''scatter'', [exampleTx])"
proof -
  obtain tb where "EncodeTransactionBatch [exampleTx] = Inr tb" using exampleTx_encodes by blast
  then obtain bs where "EncodeTxQ4PhaseOneBatchEnvelope (replicate 16 7) ''scatter'' [exampleTx] = Inr bs"
    by (simp add: EncodeTxQ4PhaseOneBatchEnvelope_def writeString_def)
  with query4_messages_roundtrip [of "replicate 16 7" "''scatter''" "[exampleTx]" bs 0 0 "[]" "[]"] show ?thesis by auto
qed

text \<open>
  The three-part checkpoint encoding is read back exactly, for every checkpoint under 4 GiB; a
  foreign version byte and empty data are errors.
\<close>

lemma checkpoint_encoding_roundtrip:
  "(length (cpDedup c) + length (cpEOF c) + length (cpState c) + 8 < 2 ^ 32
      \<longrightarrow> Checkpoint_Decode (Checkpoint_Encode c) = Inr c)
   \<and> (v \<noteq> checkpointVersion \<longrightarrow> (\<exists>e. Checkpoint_Decode (v # rest) = Inl e)) \<and> (\<exists>e. Checkpoint_Decode [] = Inl e)"
  by (auto simp: Checkpoint_Decode_Encode) (simp_all add: Checkpoint_Decode_def)

lemma checkpoint_encoding_roundtrip_witness:
  "Checkpoint_Decode (Checkpoint_Encode \<lparr>cpDedup = [1, 2], cpEOF = [], cpState = [3]\<rparr>)
     = Inr \<lparr>cpDedup = [1, 2], cpEOF = [], cpState = [3]\<rparr>"
  using checkpoint_encoding_roundtrip [of "\<lparr>cpDedup = [1, 2], cpEOF = [], cpState = [3]\<rparr>"] by simp

end
