(* ===== verification/Worker.thy ===== *)
theory Worker
  imports Durability SyncEOF
begin

text \<open>
  What the stream workers of \<open>workers/\<close> have in common: a publisher, an EOF controller and a
  checkpoint coordinator around them, the consumer loop of \<open>Run\<close> and the execution of the actions an
  EOF handler takes. A node is a coordinator (\<open>coord\<close>) whose host is the worker; \<open>worker\<close> is
  extensible, because some workers keep state of their own. One delivery or one control message is
  one step. A panic or a crash of the process sets \<open>wDown\<close>; a stopped node takes no further step.
  An ack closure is a number, as in the coordinator; \<open>wNacked\<close> lists the rejected deliveries.
\<close>

record worker =
  wPub :: dedupState
  wCtl :: syncCtl
  wNet :: net
  wCtlOut :: "ControlMessage list"
  wNacked :: "nat list"
  wDown :: bool

type_synonym 'x wnode = "'x worker_scheme coord"
type_synonym ('x, 'a) act = "'x wnode \<Rightarrow> 'a result \<times> 'x wnode"

abbreviation nodePub :: "'x wnode \<Rightarrow> dedupState" where "nodePub s \<equiv> wPub (coHost s)"
abbreviation nodeCtl :: "'x wnode \<Rightarrow> syncCtl" where "nodeCtl s \<equiv> wCtl (coHost s)"
abbreviation nodeNet :: "'x wnode \<Rightarrow> net" where "nodeNet s \<equiv> wNet (coHost s)"
abbreviation nodeDown :: "'x wnode \<Rightarrow> bool" where "nodeDown s \<equiv> wDown (coHost s)"

definition updHost :: "('x worker_scheme \<Rightarrow> 'x worker_scheme) \<Rightarrow> 'x wnode \<Rightarrow> 'x wnode" where
  "updHost f s = s\<lparr>coHost := f (coHost s)\<rparr>"

definition putPub :: "dedupState \<Rightarrow> 'x wnode \<Rightarrow> 'x wnode" where
  "putPub d = updHost (\<lambda>w. w\<lparr>wPub := d\<rparr>)"

definition stopNode :: "'x wnode \<Rightarrow> 'x wnode" where
  "stopNode = updHost (\<lambda>w. w\<lparr>wDown := True\<rparr>)"

definition updCtl :: "(syncCtl \<Rightarrow> syncCtl) \<Rightarrow> 'x wnode \<Rightarrow> 'x wnode" where
  "updCtl f = updHost (\<lambda>w. w\<lparr>wCtl := f (wCtl w)\<rparr>)"

section \<open>Sequencing\<close>

definition wbind :: "('x, 'a) act \<Rightarrow> ('a \<Rightarrow> ('x, 'b) act) \<Rightarrow> ('x, 'b) act" where
  "wbind m f s = (case m s of (Inl e, s') \<Rightarrow> (Inl e, s') | (Inr x, s') \<Rightarrow> f x s')"

definition wresult :: "'a result \<Rightarrow> ('x, 'a) act" where
  "wresult r s = (r, s)"

definition wmodify :: "('x wnode \<Rightarrow> 'x wnode) \<Rightarrow> ('x, unit) act" where
  "wmodify f s = (Inr (), f s)"

definition wpanic :: "('x, 'a) act" where
  "wpanic s = (Inl (Errorf ''panic'' []), stopNode s)"

text \<open>An operation of the coordinator; a crash in it stops the node.\<close>

definition fromIo :: "('x worker_scheme coord, 'a) iom \<Rightarrow> ('x, 'a) act" where
  "fromIo m s =
     (case m s of (IOk x, s') \<Rightarrow> (Inr x, s') | (IErr e, s') \<Rightarrow> (Inl e, s') | (ICrash, s') \<Rightarrow> wpanic s')"

text \<open>A call whose error is ignored or only logged.\<close>

definition ignoring :: "('x, 'a) act \<Rightarrow> ('x, unit) act" where
  "ignoring m s = (case m s of (_, s') \<Rightarrow> if nodeDown s' then wpanic s' else (Inr (), s'))"

section \<open>Environment and checkpoint sources\<close>

text \<open>
  \<open>config.WorkerConfig\<close>. \<open>Params\<close> is a decoded YAML tree, \<open>goany\<close> its dynamically typed values. The two
  retry delays are in nanoseconds. The last four fields are third-party code and \<open>encoding/json\<close>
  below the workers: the text form of a UUID and the marshalling of a controller checkpoint.
\<close>

datatype goany = AString string | AFloat float64 | AInt int | ABool bool | AList "goany list" | AMap "(string \<times> goany) list"

record syncCfg =
  RetryBaseDelay :: int
  RetryStepDelay :: int
  MaxRetries :: int
  InputKeys :: "string list"

record workerCfg =
  Params :: "(string, goany) gomap"
  Query :: int
  WorkerID :: int
  WorkerPrefix :: string
  WorkerAmount :: int
  PrevWorkerAmount :: int
  NextWorkerAmount :: int
  NextWorkerPrefix :: string
  Threshold :: int
  SyncEOFConfig :: syncCfg
  CheckpointInterval :: int
  cfgUuidString :: "uuid \<Rightarrow> string"
  cfgUuidParse :: "string \<Rightarrow> uuid option"
  cfgMarshal :: "clientCheckpoint \<Rightarrow> bytes result"
  cfgUnmarshal :: "bytes \<Rightarrow> clientCheckpoint result"

definition cfgEofKey :: "workerCfg \<Rightarrow> KeyType" where
  "cfgEofKey cfg = SyncKeyFromInputKeys (InputKeys (SyncEOFConfig cfg))"

definition controllerSource :: "workerCfg \<Rightarrow> 'x worker_scheme Checkpointable" where
  "controllerSource cfg =
     \<lparr>snapshotClient = (\<lambda>c w. (eofSnapshotClient (cfgMarshal cfg) c (wCtl w), w)),
      restoreClient = (\<lambda>c data w.
        case eofRestoreClient (cfgUnmarshal cfg) c data (wCtl w) of (r, ctl) \<Rightarrow> (r, w\<lparr>wCtl := ctl\<rparr>))\<rparr>"

definition workerSources :: "workerCfg \<Rightarrow> 'x worker_scheme Checkpointable option \<Rightarrow> 'x worker_scheme sources" where
  "workerSources cfg st =
     \<lparr>srcSeen = publisherSource wPub (\<lambda>d w. w\<lparr>wPub := d\<rparr>), srcEof = Some (controllerSource cfg),
      srcState = st, uuidString = cfgUuidString cfg, uuidParse = cfgUuidParse cfg\<rparr>"

section \<open>Starting a worker\<close>

text \<open>
  The first part of \<open>Run\<close>: a new controller with its three callbacks, a new coordinator on the disk
  \<open>f\<close>, and its recovery; when that fails \<open>Run\<close> returns the error and the process ends. \<open>x\<close> is the
  worker's own state.
\<close>

definition newHost :: "workerCfg \<Rightarrow> 'x \<Rightarrow> net \<Rightarrow> 'x worker_scheme" where
  "newHost cfg x n =
     \<lparr>wPub = newDedupState,
      wCtl = NewSyncEOFController (WorkerID cfg) (WorkerAmount cfg) (RetryBaseDelay (SyncEOFConfig cfg))
        (RetryStepDelay (SyncEOFConfig cfg)) (MaxRetries (SyncEOFConfig cfg)) True True True,
      wNet = n, wCtlOut = [], wNacked = [], wDown = False, \<dots> = x\<rparr>"

definition bootNode :: "workerCfg \<Rightarrow> 'x worker_scheme sources \<Rightarrow> 'x \<Rightarrow> fs \<Rightarrow> net \<Rightarrow> 'x wnode" where
  "bootNode cfg src x f n =
     (case fromIo (Recover src) (NewCoordinator (newHost cfg x n) f (CheckpointInterval cfg)) of
        (Inr _, s) \<Rightarrow> s
      | (Inl e, s) \<Rightarrow> stopNode s)"

section \<open>Publishing and counting\<close>

definition publishWithID :: "uuid \<Rightarrow> MsgType \<Rightarrow> KeyType \<Rightarrow> bytes \<Rightarrow> MsgID \<Rightarrow> ('x, unit) act" where
  "publishWithID c t key payload i s =
     (case PublishInternalWithID c t key payload i (nodeNet s) of
        (r, n) \<Rightarrow> (r, updHost (\<lambda>w. w\<lparr>wNet := n\<rparr>) s))"

definition publishRaw :: "KeyType \<Rightarrow> bytes \<Rightarrow> MsgID \<Rightarrow> ('x, unit) act" where
  "publishRaw key envelope i s =
     (case PublishRawWithID key envelope i (nodeNet s) of (r, n) \<Rightarrow> (r, updHost (\<lambda>w. w\<lparr>wNet := n\<rparr>) s))"

definition countReceived :: "uuid \<Rightarrow> MsgID \<Rightarrow> nat \<Rightarrow> ('x, unit) act" where
  "countReceived c i n = wmodify (updCtl (MessageReceived c i (word_of_nat n)))"

definition countSent :: "uuid \<Rightarrow> KeyType \<Rightarrow> MsgID \<Rightarrow> nat \<Rightarrow> ('x, unit) act" where
  "countSent c key i n = wmodify (updCtl (MessageSentWithKey c key i (word_of_nat n)))"

definition flushCounts :: "(KeyType, goint) gomap" where
  "flushCounts = [(KeyNil, -1)]"

section \<open>EOF actions\<close>

record 'x callbacks =
  cbFlush :: "uuid \<Rightarrow> ('x, unit) act"
  cbLeaderFlush :: "uuid \<Rightarrow> (KeyType, goint) gomap \<Rightarrow> ('x, unit) act"
  cbRetryExceeded :: "uuid \<Rightarrow> ('x, unit) act"

definition callAck :: "nat \<Rightarrow> 'x wnode \<Rightarrow> 'x wnode" where
  "callAck a s = s\<lparr>coAcked := coAcked s @ [a]\<rparr>"

definition callNack :: "nat \<Rightarrow> 'x wnode \<Rightarrow> 'x wnode" where
  "callNack a = updHost (\<lambda>w. w\<lparr>wNacked := wNacked w @ [a]\<rparr>)"

fun runAction :: "'x callbacks \<Rightarrow> action \<Rightarrow> ('x, unit) act" where
  "runAction cb (SendCtrl m) = wmodify (updHost (\<lambda>w. w\<lparr>wCtlOut := wCtlOut w @ [m]\<rparr>))"
| "runAction cb (OnFlush c) = ignoring (cbFlush cb c)"
| "runAction cb (OnLeaderFlush c counts) = ignoring (cbLeaderFlush cb c counts)"
| "runAction cb (OnRetryExceeded c) = ignoring (cbRetryExceeded cb c)"
| "runAction cb (CallAck a) = wmodify (callAck a)"
| "runAction cb (Sleep d) = wresult (Inr ())"
| "runAction cb Panic = wpanic"

fun runActions :: "'x callbacks \<Rightarrow> action list \<Rightarrow> ('x, unit) act" where
  "runActions cb [] = wresult (Inr ())"
| "runActions cb (a # as) = wbind (runAction cb a) (\<lambda>_. runActions cb as)"

text \<open>
  The handlers of the controller call the callbacks before they delete the client, so the actions
  run first and the new controller state is stored after them.
\<close>

definition controllerStep :: "'x callbacks \<Rightarrow> syncCtl \<times> action list \<Rightarrow> ('x, unit) act" where
  "controllerStep cb r = wbind (runActions cb (snd r)) (\<lambda>_. wmodify (updCtl (\<lambda>_. fst r)))"

definition controlStep :: "'x callbacks \<Rightarrow> ControlMessage result \<Rightarrow> 'x wnode \<Rightarrow> 'x wnode" where
  "controlStep cb parsed s =
     (if nodeDown s then s
      else case handleControlMessage parsed (nodeCtl s) of
             (ctl, acts, _) \<Rightarrow> snd (controllerStep cb (ctl, acts) s))"

section \<open>What the workers share verbatim\<close>

text \<open>\<open>onflush\<close>: flush the coordinator, forget the client's ids, delete its files.\<close>

definition onflush :: "'x worker_scheme sources \<Rightarrow> uuid \<Rightarrow> ('x, unit) act" where
  "onflush src c =
     wbind (fromIo (coFlush src)) (\<lambda>_.
     wbind (wmodify (\<lambda>s. putPub (forget c (nodePub s)) s)) (\<lambda>_.
     fromIo (coDelete src c)))"

text \<open>\<open>handleEOFMessage\<close>; the error of \<open>coord.Flush\<close> is ignored.\<close>

definition handleEOF ::
  "workerCfg \<Rightarrow> 'x worker_scheme sources \<Rightarrow> 'x callbacks \<Rightarrow> nat \<Rightarrow> 'x wnode handler" where
  "handleEOF cfg src cb ack env =
     wbind (wresult (DecodeEOFCounts (Payload env))) (\<lambda>counts.
     wbind (ignoring (fromIo (coFlush src))) (\<lambda>_ s.
     controllerStep cb (SyncEof (ClientId env) (Some counts) (cfgEofKey cfg) (Some ack) (nodeCtl s)) s))"

text \<open>The callback of \<open>StartConsuming\<close> in \<open>Run\<close>; \<open>hm\<close> is the worker's \<open>handleMessage\<close>.\<close>

type_synonym 'x dispatcher = "Message \<Rightarrow> nat \<Rightarrow> 'x wnode \<Rightarrow> (uuid \<times> MsgType \<times> gerr option \<times> 'x wnode) option"

definition consume :: "'x worker_scheme sources \<Rightarrow> 'x dispatcher \<Rightarrow> Message \<Rightarrow> nat \<Rightarrow> 'x wnode \<Rightarrow> 'x wnode" where
  "consume src hm msg ack s =
     (if nodeDown s then s
      else case hm msg ack s of
        None \<Rightarrow> stopNode s
      | Some (c, t, err, s') \<Rightarrow>
         if nodeDown s' then s'
         else case err of
             Some e \<Rightarrow> callNack ack s'
           | None \<Rightarrow>
               if t \<noteq> MsgTransactionsEOF then snd (ignoring (fromIo (Track src c ack)) s')
               else if c = uuid_Nil then callAck ack s'
               else s')"

datatype nodeInput = Deliver Message nat | Control "ControlMessage result"

fun nodeStep :: "'x worker_scheme sources \<Rightarrow> 'x dispatcher \<Rightarrow> 'x callbacks \<Rightarrow> nodeInput \<Rightarrow> 'x wnode \<Rightarrow> 'x wnode" where
  "nodeStep src hm cb (Deliver m a) s = consume src hm m a s"
| "nodeStep src hm cb (Control m) s = controlStep cb m s"

definition nodeRun ::
  "'x worker_scheme sources \<Rightarrow> 'x dispatcher \<Rightarrow> 'x callbacks \<Rightarrow> nodeInput list \<Rightarrow> 'x wnode \<Rightarrow> 'x wnode" where
  "nodeRun src hm cb = fold (nodeStep src hm cb)"

end
