(* ===== verification/Stage.thy ===== *)
theory Stage
  imports Worker EofCounting
begin

text \<open>
  The contract of a stateless stage: what its batch handler does is determined by the envelope alone
  and is a list of effects, executed until one fails. The locale \<open>stage\<close> states it; the router, the
  spliter, the cleaner and the filters are its interpretations. From it follow, once and for all,
  that a redelivered batch publishes the same messages under the same ids, and that the counters the
  EOF controller announces agree with what was published.
\<close>

section \<open>Effects\<close>

record pubn =
  pbType :: MsgType
  pbKey :: KeyType
  pbPayload :: bytes
  pbId :: MsgID
  pbCount :: nat

datatype effect = Receive nat | Emit pubn | Abort | Boom

definition publishCounted :: "uuid \<Rightarrow> pubn \<Rightarrow> ('x, unit) act" where
  "publishCounted c p =
     wbind (publishWithID c (pbType p) (pbKey p) (pbPayload p) (pbId p)) (\<lambda>_.
     countSent c (pbKey p) (pbId p) (pbCount p))"

fun runEffect :: "uuid \<Rightarrow> MsgID \<Rightarrow> effect \<Rightarrow> ('x, unit) act" where
  "runEffect c i (Receive n) = countReceived c i n"
| "runEffect c i (Emit p) = publishCounted c p"
| "runEffect c i Abort = wresult (Inl (Errorf ''abort'' []))"
| "runEffect c i Boom = wpanic"

fun runEffects :: "uuid \<Rightarrow> MsgID \<Rightarrow> effect list \<Rightarrow> ('x, unit) act" where
  "runEffects c i [] = wresult (Inr ())"
| "runEffects c i (e # es) = wbind (runEffect c i e) (\<lambda>_. runEffects c i es)"

definition emits :: "effect list \<Rightarrow> pubn list" where
  "emits es = concat (map (\<lambda>e. case e of Emit p \<Rightarrow> [p] | _ \<Rightarrow> []) es)"

text \<open>Two outcomes are alike when they agree on the state and on whether there was an error.\<close>

definition alike :: "'a result \<times> 's \<Rightarrow> 'b result \<times> 's \<Rightarrow> bool" where
  "alike r r' \<longleftrightarrow> snd r = snd r' \<and> isl (fst r) = isl (fst r')"

definition msgOf :: "uuid \<Rightarrow> pubn \<Rightarrow> Message" where
  "msgOf c p =
     \<lparr>RoutingKey = pbKey p,
      Body = EncodeInternalEnvelope \<lparr>MsgType = pbType p, ClientId = c, MsgID = pbId p, Payload = pbPayload p\<rparr>,
      ContentType = ContentTypeBinary\<rparr>"

text \<open>The counters of a client, and the messages the broker accepted.\<close>

definition rcvOf :: "'x wnode \<Rightarrow> uuid \<Rightarrow> idCounts" where
  "rcvOf s c = msgRcvByID (clientOf (nodeCtl s) c)"

definition sentOf :: "'x wnode \<Rightarrow> uuid \<Rightarrow> KeyType \<Rightarrow> idCounts" where
  "sentOf s c key = mgetd [] (msgSentByKeyID (clientOf (nodeCtl s) c)) key"

definition outbox :: "'x wnode \<Rightarrow> Message list" where
  "outbox s = sent (nodeNet s)"

section \<open>What the primitives change\<close>

lemma alike_refl [simp]: "alike r r"
  by (simp add: alike_def)

lemma alike_intro [intro]: "snd r = snd r' \<Longrightarrow> isl (fst r) = isl (fst r') \<Longrightarrow> alike r r'"
  by (simp add: alike_def)

lemma alike_wbind:
  assumes "alike (m s) (m' s)" "\<And>x y s. alike (k x s) (k' y s)"
  shows "alike (wbind m k s) (wbind m' k' s)"
proof -
  obtain r t r' where "m s = (r, t)" "m' s = (r', t)" "isl r = isl r'"
    using assms(1) by (metis alike_def prod.collapse)
  then show ?thesis using assms(2) by (cases r; cases r') (simp_all add: wbind_def alike_def)
qed

lemma clientOf_simps [simp]:
  "clientOf (ensureClient c s) c' = clientOf s c'"
  "clientOf (setClient c cl s) c' = (if c' = c then cl else clientOf s c')"
  by (simp_all add: clientOf_def ensureClient_def setClient_def mhas_def mgetd_def)

lemma updHost_simps [simp]:
  "coHost (updHost f s) = f (coHost s)" "coFs (updHost f s) = coFs s" "coDirty (updHost f s) = coDirty s"
  "coAcks (updHost f s) = coAcks s" "coAcked (updHost f s) = coAcked s"
  by (simp_all add: updHost_def)

lemma rcvOf_updCtl_received [simp]:
  "rcvOf (updCtl (MessageReceived c i n) s) c' = (if c' = c then mput i n (rcvOf s c) else rcvOf s c')"
  "sentOf (updCtl (MessageReceived c i n) s) c' key = sentOf s c' key"
  by (simp_all add: rcvOf_def sentOf_def updCtl_def MessageReceived_def Let_def)

lemma sentOf_updCtl_sent [simp]:
  "sentOf (updCtl (MessageSentWithKey c key i n) s) c' k =
     (if c' = c \<and> (k = key \<or> k = KeyNil) then mput i n (sentOf s c k) else sentOf s c' k)"
  "rcvOf (updCtl (MessageSentWithKey c key i n) s) c' = rcvOf s c'"
  by (auto simp: rcvOf_def sentOf_def updCtl_def MessageSentWithKey_def Let_def setSentID_def mgetd_def)

lemma updCtl_keeps [simp]:
  "nodeNet (updCtl f s) = nodeNet s" "nodePub (updCtl f s) = nodePub s" "outbox (updCtl f s) = outbox s"
  "nodeDown (updCtl f s) = nodeDown s"
  by (simp_all add: updCtl_def outbox_def)

lemma updNet_keeps [simp]:
  "rcvOf (updHost (\<lambda>w. w\<lparr>wNet := n\<rparr>) s) c = rcvOf s c" "sentOf (updHost (\<lambda>w. w\<lparr>wNet := n\<rparr>) s) c key = sentOf s c key"
  "outbox (updHost (\<lambda>w. w\<lparr>wNet := n\<rparr>) s) = sent n"
  by (simp_all add: rcvOf_def sentOf_def outbox_def)

lemma stopNode_keeps [simp]:
  "rcvOf (stopNode s) c = rcvOf s c" "sentOf (stopNode s) c key = sentOf s c key"
  "outbox (stopNode s) = outbox s" "nodePub (stopNode s) = nodePub s" "nodeDown (stopNode s)"
  by (simp_all add: rcvOf_def sentOf_def outbox_def stopNode_def)

text \<open>A publication either reaches the broker, or fails and changes nothing but the script.\<close>

lemma publishWithID_cases:
  fixes s :: "'x wnode"
  obtains (sent) s' where "publishWithID c (pbType p) (pbKey p) (pbPayload p) (pbId p) s = (Inr (), s')"
      "outbox s' = outbox s @ [msgOf c p]"
      "nodeCtl s' = nodeCtl s" "nodePub s' = nodePub s" "nodeDown s' = nodeDown s"
  | (failed) e s' where "publishWithID c (pbType p) (pbKey p) (pbPayload p) (pbId p) s = (Inl e, s')"
      "outbox s' = outbox s" "nodeCtl s' = nodeCtl s" "nodePub s' = nodePub s" "nodeDown s' = nodeDown s"
proof -
  have eq: "publishWithID c (pbType p) (pbKey p) (pbPayload p) (pbId p) s =
      (case netSend (msgOf c p) (nodeNet s) of
        (r, n) \<Rightarrow> (wrapf ''sending message to broker'' [] r, updHost (\<lambda>w. w\<lparr>wNet := n\<rparr>) s))"
    by (simp add: publishWithID_def PublishInternalWithID_def pubSend_def msgOf_def split: prod.split)
  show ?thesis
  proof (cases "outcomes (nodeNet s) = [] \<or> hd (outcomes (nodeNet s))")
    case True
    then obtain n where "netSend (msgOf c p) (nodeNet s) = (Inr (), n)" "sent n = sent (nodeNet s) @ [msgOf c p]"
      by (cases "outcomes (nodeNet s)") (auto simp: netSend_def)
    with eq show ?thesis by (intro that(1) [of "updHost (\<lambda>w. w\<lparr>wNet := n\<rparr>) s"]) (simp_all add: outbox_def)
  next
    case False
    then obtain e n where "netSend (msgOf c p) (nodeNet s) = (Inl e, n)" "sent n = sent (nodeNet s)"
      by (cases "outcomes (nodeNet s)") (auto simp: netSend_def)
    with eq show ?thesis by (intro that(2) [of _ "updHost (\<lambda>w. w\<lparr>wNet := n\<rparr>) s"]) (simp_all add: outbox_def)
  qed
qed

lemma tables_cong:
  "nodeCtl s' = nodeCtl s \<Longrightarrow> rcvOf s' c = rcvOf s c" "nodeCtl s' = nodeCtl s \<Longrightarrow> sentOf s' c key = sentOf s c key"
  by (simp_all add: rcvOf_def sentOf_def)

text \<open>\<open>publishCounted\<close> in one step.\<close>

lemma publishCounted_cases:
  obtains (sent) s' where "publishCounted c p s = (Inr (), s')" "outbox s' = outbox s @ [msgOf c p]"
      "\<And>c'. rcvOf s' c' = rcvOf s c'"
      "\<And>c' k. sentOf s' c' k = (if c' = c \<and> (k = pbKey p \<or> k = KeyNil)
                 then mput (pbId p) (word_of_nat (pbCount p)) (sentOf s c k) else sentOf s c' k)"
      "nodePub s' = nodePub s" "nodeDown s' = nodeDown s"
  | (failed) e s' where "publishCounted c p s = (Inl e, s')" "outbox s' = outbox s"
      "\<And>c'. rcvOf s' c' = rcvOf s c'" "\<And>c' k. sentOf s' c' k = sentOf s c' k"
      "nodePub s' = nodePub s" "nodeDown s' = nodeDown s"
proof (cases rule: publishWithID_cases [of c p s, case_names Sent Failed])
  case (Sent s')
  show ?thesis
    by (rule that(1) [of "updCtl (MessageSentWithKey c (pbKey p) (pbId p) (word_of_nat (pbCount p))) s'"])
      (use Sent in \<open>simp_all add: publishCounted_def wbind_def countSent_def wmodify_def tables_cong [OF Sent(3)]\<close>, blast)
next
  case (Failed e s')
  show ?thesis
    by (rule that(2) [of e s']) (use Failed in \<open>simp_all add: publishCounted_def wbind_def tables_cong [OF Failed(3)]\<close>)
qed

section \<open>Running a list of effects\<close>

text \<open>
  Only the counters of the client, the outbox and the down flag change; the duplicate filter never
  does, and the node stops only on \<open>Boom\<close>.
\<close>

lemma runEffect_keeps:
  "nodePub (snd (runEffect c i e s)) = nodePub s"
  "c' \<noteq> c \<Longrightarrow> rcvOf (snd (runEffect c i e s)) c' = rcvOf s c'"
  "c' \<noteq> c \<Longrightarrow> sentOf (snd (runEffect c i e s)) c' k = sentOf s c' k"
proof -
  show "nodePub (snd (runEffect c i e s)) = nodePub s"
    by (cases e; cases rule: publishCounted_cases [of c "case e of Emit p \<Rightarrow> p" s])
      (simp_all add: countReceived_def wmodify_def wresult_def wpanic_def)
  show "rcvOf (snd (runEffect c i e s)) c' = rcvOf s c'" if "c' \<noteq> c"
    by (cases e; cases rule: publishCounted_cases [of c "case e of Emit p \<Rightarrow> p" s])
      (simp_all add: that countReceived_def wmodify_def wresult_def wpanic_def)
  show "sentOf (snd (runEffect c i e s)) c' k = sentOf s c' k" if "c' \<noteq> c"
    by (cases e; cases rule: publishCounted_cases [of c "case e of Emit p \<Rightarrow> p" s])
      (simp_all add: that countReceived_def wmodify_def wresult_def wpanic_def)
qed

lemma wbind_snd_cases: "snd (wbind m k s) = (case m s of (Inl e, s') \<Rightarrow> s' | (Inr x, s') \<Rightarrow> snd (k x s'))"
  by (simp add: wbind_def split: prod.split sum.split)

lemma runEffects_keeps:
  "nodePub (snd (runEffects c i es s)) = nodePub s"
  "c' \<noteq> c \<Longrightarrow> rcvOf (snd (runEffects c i es s)) c' = rcvOf s c'"
  "c' \<noteq> c \<Longrightarrow> sentOf (snd (runEffects c i es s)) c' k = sentOf s c' k"
proof (induction es arbitrary: s)
  case (Cons e es)
  {
    case 1
    show ?case using runEffect_keeps(1) [of c i e s] Cons(1) [of "snd (runEffect c i e s)"]
      by (cases "runEffect c i e s"; cases "fst (runEffect c i e s)") (simp_all add: wbind_snd_cases)
  next
    case 2
    then show ?case using runEffect_keeps(2) [of c' c i e s] Cons(2) [of "snd (runEffect c i e s)"]
      by (cases "runEffect c i e s"; cases "fst (runEffect c i e s)") (simp_all add: wbind_snd_cases)
  next
    case 3
    then show ?case using runEffect_keeps(3) [of c' c i e s k] Cons(3) [of "snd (runEffect c i e s)"]
      by (cases "runEffect c i e s"; cases "fst (runEffect c i e s)") (simp_all add: wbind_snd_cases)
  }
qed (simp_all add: wresult_def)

section \<open>Counters agree with what was published\<close>

text \<open>
  \<open>accounted c U s\<close>: for the client \<open>c\<close>, whose publications are drawn from \<open>U\<close>, the entries of the sent
  counters are exactly the publications the broker accepted, with their sizes; under the nil key
  all of them, under another key those with that routing key.
\<close>

definition coherent :: "uuid \<Rightarrow> pubn set \<Rightarrow> bool" where
  "coherent c U \<longleftrightarrow> length c = 16 \<and> (\<forall>p\<in>U. length (pbId p) = 16) \<and> inj_on pbId U"

definition accounted :: "uuid \<Rightarrow> pubn set \<Rightarrow> 'x wnode \<Rightarrow> bool" where
  "accounted c U s \<longleftrightarrow>
     (\<forall>k. wf_map (sentOf s c k)) \<and>
     (\<forall>k i n. mget (sentOf s c k) i = Some n \<longleftrightarrow>
        (\<exists>p\<in>U. msgOf c p \<in> set (outbox s) \<and> (k = KeyNil \<or> k = pbKey p) \<and> pbId p = i
               \<and> n = word_of_nat (pbCount p)))"

lemma msgOf_inj:
  assumes "msgOf c p = msgOf c' q" "length c = 16" "length c' = 16" "length (pbId p) = 16" "length (pbId q) = 16"
  shows "c = c' \<and> pbId p = pbId q"
  using assms by (simp add: msgOf_def EncodeInternalEnvelope_def)

lemma accounted_cong:
  "accounted c U s \<Longrightarrow> outbox s' = outbox s \<Longrightarrow> (\<And>k. sentOf s' c k = sentOf s c k) \<Longrightarrow> accounted c U s'"
  by (simp add: accounted_def)

lemma accounted_sent:
  assumes acc: "accounted c U s" and U: "coherent c U" and p: "p \<in> U"
    and out: "outbox s' = outbox s @ [msgOf c p]"
    and tab: "\<And>k. sentOf s' c k = (if k = pbKey p \<or> k = KeyNil
                 then mput (pbId p) (word_of_nat (pbCount p)) (sentOf s c k) else sentOf s c k)"
  shows "accounted c U s'"
proof -
  have same: "msgOf c q = msgOf c p \<longleftrightarrow> q = p" if "q \<in> U" for q
    using msgOf_inj [of c q c p] U p that by (auto simp: coherent_def inj_on_def)
  have ids: "pbId q = pbId p \<longleftrightarrow> q = p" if "q \<in> U" for q
    using U p that by (auto simp: coherent_def inj_on_def)
  have old: "mget (sentOf s c k) i = Some n \<longleftrightarrow>
      (\<exists>q\<in>U. msgOf c q \<in> set (outbox s) \<and> (k = KeyNil \<or> k = pbKey q) \<and> pbId q = i \<and> n = word_of_nat (pbCount q))" for k i n
    using acc by (simp add: accounted_def)
  have "mget (sentOf s' c k) i = Some n \<longleftrightarrow>
      (\<exists>q\<in>U. msgOf c q \<in> set (outbox s') \<and> (k = KeyNil \<or> k = pbKey q) \<and> pbId q = i \<and> n = word_of_nat (pbCount q))" for k i n
  proof (cases "(k = pbKey p \<or> k = KeyNil) \<and> i = pbId p")
    case True
    then show ?thesis using p by (auto simp: tab out same ids)
  next
    case False
    then have "mget (sentOf s' c k) i = mget (sentOf s c k) i" by (auto simp: tab)
    with False show ?thesis by (auto simp: old out same)
  qed
  moreover have "wf_map (sentOf s' c k)" for k
    using acc by (simp add: tab accounted_def)
  ultimately show ?thesis by (simp add: accounted_def)
qed

lemma accounted_other:
  assumes acc: "accounted c U s" and U: "coherent c U" and "c' \<noteq> c" "length c' = 16" "length (pbId p) = 16"
    and out: "outbox s' = outbox s @ [msgOf c' p]" and tab: "\<And>k. sentOf s' c k = sentOf s c k"
  shows "accounted c U s'"
proof -
  have "msgOf c q \<noteq> msgOf c' p" if "q \<in> U" for q
    using msgOf_inj [of c q c' p] U that assms(3-5) by (auto simp: coherent_def)
  then have "msgOf c q \<in> set (outbox s') \<longleftrightarrow> msgOf c q \<in> set (outbox s)" if "q \<in> U" for q
    using that by (auto simp: out)
  then show ?thesis using acc unfolding accounted_def tab by (metis (no_types, lifting))
qed

text \<open>The effects of an envelope of the client draw from \<open>U\<close>; other clients only use proper ids.\<close>

definition drawsFrom :: "uuid \<Rightarrow> pubn set \<Rightarrow> uuid \<Rightarrow> effect list \<Rightarrow> bool" where
  "drawsFrom c U c' es \<longleftrightarrow> length c' = 16 \<and> (\<forall>p\<in>set (emits es). length (pbId p) = 16 \<and> (c' = c \<longrightarrow> p \<in> U))"

lemma emits_simps [simp]:
  "emits [] = []" "emits (Receive n # es) = emits es" "emits (Emit p # es) = p # emits es"
  "emits (Abort # es) = emits es" "emits (Boom # es) = emits es" "emits (es @ fs) = emits es @ emits fs"
  by (simp_all add: emits_def)

lemma accounted_runEffect:
  assumes acc: "accounted c U s" and U: "coherent c U" and d: "drawsFrom c U c' [e]"
  shows "accounted c U (snd (runEffect c' i e s))"
proof (cases e)
  case (Emit p)
  show ?thesis
  proof (cases rule: publishCounted_cases [of c' p s, case_names Sent Failed])
    case (Sent s')
    show ?thesis
    proof (cases "c' = c")
      case True
      with Sent d Emit show ?thesis
        using accounted_sent [OF acc U, of p s'] by (auto simp: drawsFrom_def)
    next
      case False
      with Sent d Emit show ?thesis
        using accounted_other [OF acc U, of c' p s'] by (auto simp: drawsFrom_def)
    qed
  next
    case (Failed err s')
    with Emit show ?thesis using accounted_cong [OF acc, of s'] by simp
  qed
qed (simp_all add: countReceived_def wmodify_def wresult_def wpanic_def accounted_cong [OF acc])

lemma accounted_runEffects:
  "accounted c U s \<Longrightarrow> coherent c U \<Longrightarrow> drawsFrom c U c' es \<Longrightarrow> accounted c U (snd (runEffects c' i es s))"
proof (induction es arbitrary: s)
  case (Cons e es)
  have "drawsFrom c U c' [e]" "drawsFrom c U c' es"
    using Cons.prems(3) by (cases e; simp add: drawsFrom_def)+
  note head = accounted_runEffect [OF Cons.prems(1,2) this(1)] and tail = Cons.IH [OF _ Cons.prems(2) this(2)]
  obtain r s1 where r: "runEffect c' i e s = (r, s1)" by fastforce
  show ?case
    using head [of i] tail [OF head [of i]] by (cases r) (simp_all add: wbind_snd_cases r)
qed (simp add: wresult_def)

text \<open>The total of a counter table is the sum over the accepted publications.\<close>

definition published :: "uuid \<Rightarrow> pubn set \<Rightarrow> 'x wnode \<Rightarrow> pubn set" where
  "published c U s = {p \<in> U. msgOf c p \<in> set (outbox s)}"

lemma accounted_total:
  assumes acc: "accounted c U s" and U: "coherent c U"
  shows "sumCounts (sentOf s c KeyNil) = (\<Sum>p\<in>published c U s. word_of_nat (pbCount p))"
proof -
  let ?m = "sentOf s c KeyNil"
  have wf: "wf_map ?m" using acc by (simp add: accounted_def)
  then have "sumCounts ?m = (\<Sum>i\<in>fst ` set ?m. the (mget ?m i))"
    by (intro sumCounts_wf) (auto simp: wf_map_def)
  also have "fst ` set ?m = pbId ` published c U s"
  proof -
    have "i \<in> fst ` set ?m \<longleftrightarrow> (\<exists>n. mget ?m i = Some n)" for i
      by (metis map_of_eq_None_iff not_None_eq)
    moreover have "(\<exists>n. mget ?m i = Some n) \<longleftrightarrow> i \<in> pbId ` published c U s" for i
    proof -
      have "mget ?m i = Some n \<longleftrightarrow> (\<exists>p\<in>published c U s. pbId p = i \<and> n = word_of_nat (pbCount p))" for n
        using acc by (simp add: accounted_def published_def Bex_def)
      then show ?thesis by blast
    qed
    ultimately show ?thesis by blast
  qed
  also have "(\<Sum>i\<in>pbId ` published c U s. the (mget ?m i)) = (\<Sum>p\<in>published c U s. the (mget ?m (pbId p)))"
    using U by (subst sum.reindex) (auto simp: coherent_def published_def inj_on_def)
  also have "\<dots> = (\<Sum>p\<in>published c U s. word_of_nat (pbCount p))"
  proof (rule sum.cong [OF refl])
    fix p assume "p \<in> published c U s"
    then have "mget ?m (pbId p) = Some (word_of_nat (pbCount p))"
      using acc by (auto simp: accounted_def published_def)
    then show "the (mget ?m (pbId p)) = word_of_nat (pbCount p)" by simp
  qed
  finally show ?thesis .
qed

end
