(* ===== verification/Nodes.thy ===== *)
theory Nodes
  imports Stage
begin

text \<open>
  From handlers to nodes: the coordinator's operations leave what a worker counts and publishes
  alone, and the consumer loop around a stage handler keeps the accounting and acknowledges a batch
  only after everything it gives rise to has been accepted by the broker.
\<close>

section \<open>The coordinator does not touch the worker's tables\<close>

definition sameWork :: "'x worker_scheme \<Rightarrow> 'x worker_scheme \<Rightarrow> bool" where
  "sameWork w w' \<longleftrightarrow> wCtl w' = wCtl w \<and> wNet w' = wNet w \<and> wCtlOut w' = wCtlOut w \<and> wNacked w' = wNacked w
     \<and> wDown w' = wDown w \<and> (\<forall>c. seenIDs (wPub w') c = seenIDs (wPub w) c) \<and> worker.more w' = worker.more w"

lemma sameWork_refl [simp]: "sameWork w w"
  and sameWork_trans: "sameWork u v \<Longrightarrow> sameWork v w \<Longrightarrow> sameWork u w"
  by (simp_all add: sameWork_def)

definition keepsWork :: "('x worker_scheme coord, 'a) iom \<Rightarrow> bool" where
  "keepsWork m \<longleftrightarrow> (\<forall>s. sameWork (coHost s) (coHost (snd (m s))))"

lemma keepsWork_iobind: "keepsWork m \<Longrightarrow> (\<And>x. keepsWork (k x)) \<Longrightarrow> keepsWork (iobind m k)"
  unfolding keepsWork_def iobind_def
  by (auto split: prod.split io.split) (metis sameWork_trans snd_conv)+

lemma keepsWork_basic [simp]:
  "keepsWork (ioret x)" "keepsWork (liftFs f)" "keepsWork (commitGen c g)"
  by (auto simp: keepsWork_def ioret_def liftFs_def commitGen_def split: prod.splits)

lemma keepsWork_liftHost: "(\<And>w. sameWork w (snd (h w))) \<Longrightarrow> keepsWork (liftHost h)"
  unfolding keepsWork_def liftHost_def by (auto split: prod.split sum.split) (metis snd_conv)+

text \<open>A worker's own state has a snapshot that does not change the worker.\<close>

definition pureState :: "'x worker_scheme Checkpointable option \<Rightarrow> bool" where
  "pureState st \<longleftrightarrow> (\<forall>x c w. st = Some x \<longrightarrow> snd (snapshotClient x c w) = w)"

lemma pureState_None [simp]: "pureState None"
  by (simp add: pureState_def)

text \<open>
  Checkpoint sources that read the worker but do not change what it does: snapshots are pure, and
  draining and committing touch only the pending ids of the duplicate filter.
\<close>

definition quietSources :: "'x worker_scheme sources \<Rightarrow> bool" where
  "quietSources src \<longleftrightarrow>
     (\<forall>(dir, x) \<in> set (slots src). \<forall>c w. sameWork w (snd (snapshotClient x c w)))
   \<and> (\<forall>c w. sameWork w (snd (srcDrain (srcSeen src) c w)) \<and> sameWork w (snd (srcCommit (srcSeen src) c w)))"

lemma publisherSource_quiet:
  "sameWork w (snd (srcDrain (publisherSource wPub (\<lambda>d w. w\<lparr>wPub := d\<rparr>)) c w))"
  "sameWork w (snd (srcCommit (publisherSource wPub (\<lambda>d w. w\<lparr>wPub := d\<rparr>)) c w))"
  by (simp_all add: publisherSource_def sameWork_def)

lemma workerSources_quiet: "pureState st \<Longrightarrow> quietSources (workerSources cfg st)"
  using publisherSource_quiet
  by (auto simp: quietSources_def slots_def workerSources_def controllerSource_def pureState_def split: option.splits)

lemma keepsWork_slots:
  "\<forall>(dir, x)\<in>set xs. \<forall>c w. sameWork w (snd (snapshotClient x c w)) \<Longrightarrow> keepsWork (stageSlots xs c key g)"
  "keepsWork (promoteSlots ys key g)"
proof -
  show "\<forall>(dir, x)\<in>set xs. \<forall>c w. sameWork w (snd (snapshotClient x c w)) \<Longrightarrow> keepsWork (stageSlots xs c key g)"
    by (induction xs) (auto intro!: keepsWork_iobind keepsWork_liftHost)
  show "keepsWork (promoteSlots ys key g)"
    by (induction ys) (auto intro!: keepsWork_iobind)
qed

lemma quiet_checkpoint:
  assumes "quietSources src"
  shows "keepsWork (coCheckpoint src c)"
proof -
  have "keepsWork (stageSlots (slots src) c key g)" "keepsWork (promoteSlots (slots src) key g)" for key g
    using assms by (intro keepsWork_slots; simp add: quietSources_def)+
  moreover have "keepsWork (liftHost (srcDrain (srcSeen src) c))" "keepsWork (liftHost (srcCommit (srcSeen src) c))"
    using assms by (intro keepsWork_liftHost; simp add: quietSources_def)+
  ultimately have "keepsWork (iobind (stageSlots (slots src) c (uuidString src c) g) (\<lambda>_.
      iobind (liftHost (srcDrain (srcSeen src) c)) (\<lambda>delta.
      iobind (liftFs (ap_Append seenDir (uuidString src c) g delta)) (\<lambda>_.
      iobind (commitGen c g) (\<lambda>_.
      iobind (liftHost (srcCommit (srcSeen src) c)) (\<lambda>_.
      promoteSlots (slots src) (uuidString src c) g))))))" for g
    by (intro keepsWork_iobind keepsWork_basic) auto
  then show ?thesis by (simp add: keepsWork_def coCheckpoint_def Let_def)
qed

lemma quiet_checkpointAll: "quietSources src \<Longrightarrow> keepsWork (checkpointAll src cs)"
  by (induction cs) (auto intro!: keepsWork_iobind quiet_checkpoint)

lemma quiet_flush:
  assumes "quietSources src"
  shows "keepsWork (coFlush src)"
  unfolding keepsWork_def
proof
  fix s :: "'a worker_scheme coord"
  let ?s = "s\<lparr>coDirty := [], coAcks := [], coPending := 0\<rparr>"
  have "sameWork (coHost ?s) (coHost (snd (checkpointAll src (coDirty s) ?s)))"
    using quiet_checkpointAll [OF assms] unfolding keepsWork_def by blast
  then show "sameWork (coHost s) (coHost (snd (coFlush src s)))"
    by (auto simp: coFlush_def Let_def iobind_def split: prod.splits io.splits)
qed

lemma quiet_Track:
  assumes "quietSources src"
  shows "keepsWork (Track src c ack)"
  unfolding keepsWork_def
proof
  fix s :: "'a worker_scheme coord"
  let ?s = "s\<lparr>coDirty := (if c \<noteq> uuid_Nil then List.insert c (coDirty s) else coDirty s),
              coAcks := coAcks s @ [ack], coPending := Suc (coPending s)\<rparr>"
  have "sameWork (coHost ?s) (coHost (snd (coFlush src ?s)))"
    using quiet_flush [OF assms] unfolding keepsWork_def by blast
  then show "sameWork (coHost s) (coHost (snd (Track src c ack s)))"
    by (simp add: Track_def Let_def)
qed

lemmas keepsWork_checkpoint = quiet_checkpoint [OF workerSources_quiet]
  and keepsWork_checkpointAll = quiet_checkpointAll [OF workerSources_quiet]
  and keepsWork_flush = quiet_flush [OF workerSources_quiet]
  and keepsWork_Track = quiet_Track [OF workerSources_quiet]

text \<open>Acks come only from the tracked ones.\<close>

definition acksOf :: "'x wnode \<Rightarrow> nat set" where
  "acksOf s = set (coAcked s) \<union> set (coAcks s)"

lemma acksOf_flush: "acksOf (snd (coFlush src s)) \<subseteq> acksOf s"
proof (cases "coFlush src s")
  case (Pair r s')
  obtain co1 where co1: "checkpointAll src (coDirty s) (s\<lparr>coDirty := [], coAcks := [], coPending := 0\<rparr>) = (r, co1)"
      "coAcked s' = coAcked co1 @ (if r = IOk () then coAcks s else [])"
    using coFlush_result [OF Pair] by blast
  have "coAcked co1 = coAcked s" "coAcks co1 = []"
    using acked_checkpointAll [of src "coDirty s" "s\<lparr>coDirty := [], coAcks := [], coPending := 0\<rparr>"] co1(1) by simp_all
  moreover have "coAcks s' = coAcks co1"
    using Pair co1(1) by (auto simp: coFlush_def Let_def iobind_def split: io.splits)
  ultimately show ?thesis using Pair co1(2) by (auto simp: acksOf_def)
qed

lemma acksOf_Track: "acksOf (snd (Track src c ack s)) \<subseteq> insert ack (acksOf s)"
proof -
  let ?s = "s\<lparr>coDirty := (if c \<noteq> uuid_Nil then List.insert c (coDirty s) else coDirty s),
              coAcks := coAcks s @ [ack], coPending := Suc (coPending s)\<rparr>"
  have "snd (Track src c ack s) = (if coInterval s \<le> Suc (coPending s) then snd (coFlush src ?s) else ?s)"
    by (simp add: Track_def Let_def)
  moreover have "acksOf ?s = insert ack (acksOf s)" by (auto simp: acksOf_def)
  ultimately show ?thesis using acksOf_flush [of src ?s] by auto
qed

lemma decoded_client_length:
  "DecodeInternalEnvelope msg = Some (Inr env) \<Longrightarrow> length (ClientId env) = 16"
  by (auto simp: DecodeInternalEnvelope_def DecodeInternalHeader_def Let_def slice_def InternalHeaderSize_def
      oldInternalHeaderSize_def split: if_splits)

section \<open>Stages\<close>

lemma runEffects_append: "runEffects c i (es @ fs) s = wbind (runEffects c i es) (\<lambda>_. runEffects c i fs) s"
  by (induction es arbitrary: s) (auto simp: wbind_def wresult_def split: prod.splits sum.splits)

text \<open>The messages a batch gives rise to.\<close>

definition outputs :: "(InternalEnvelope \<Rightarrow> effect list) \<Rightarrow> InternalEnvelope \<Rightarrow> Message set" where
  "outputs effects env = msgOf (ClientId env) ` set (emits (effects env))"

lemma coInterval_updHost [simp]: "coInterval (updHost f s) = coInterval s"
  by (simp add: updHost_def)

lemma updHost_twice [simp]: "updHost f (updHost g s) = updHost (f \<circ> g) s"
  by (simp add: updHost_def)

lemma acksOf_updHost [simp]: "acksOf (updHost f s) = acksOf s"
  by (simp add: acksOf_def)

lemma publishWithID_host: "\<exists>f. snd (publishWithID c t key payload i s) = updHost f s"
  by (auto simp: publishWithID_def split: prod.split)

lemma effect_acks:
  "acksOf (snd (runEffect c i e s)) = acksOf s \<and> coInterval (snd (runEffect c i e s)) = coInterval s"
proof (cases e)
  case (Emit p)
  obtain f where f: "snd (publishWithID c (pbType p) (pbKey p) (pbPayload p) (pbId p) s) = updHost f s"
    using publishWithID_host by blast
  then show ?thesis
    by (cases "publishWithID c (pbType p) (pbKey p) (pbPayload p) (pbId p) s")
      (auto simp: Emit publishCounted_def wbind_def countSent_def wmodify_def updCtl_def split: sum.split)
qed (simp_all add: countReceived_def wmodify_def wresult_def wpanic_def updCtl_def stopNode_def)

lemma effects_ack_state:
  "acksOf (snd (runEffects c i es s)) = acksOf s \<and> coInterval (snd (runEffects c i es s)) = coInterval s"
proof (induction es arbitrary: s)
  case (Cons e es)
  obtain r s1 where r: "runEffect c i e s = (r, s1)" by fastforce
  show ?case using effect_acks [of c i e s] Cons [of s1] by (cases r) (simp_all add: wbind_def r)
qed (simp add: wresult_def)

lemmas effects_acks = conjunct1 [OF effects_ack_state] and effects_interval = conjunct2 [OF effects_ack_state]

locale stage =
  fixes handle :: "'x wnode handler"
    and effects :: "InternalEnvelope \<Rightarrow> effect list"
  assumes handle_effects: "length (ClientId env) = 16 \<Longrightarrow>
      alike (handle env s) (runEffects (ClientId env) (MsgID env) (effects env) s)"
begin

lemma handle_state:
  "length (ClientId env) = 16 \<Longrightarrow>
     snd (handle env s) = snd (runEffects (ClientId env) (MsgID env) (effects env) s)"
  using handle_effects by (simp add: alike_def)

lemma handle_keeps_pub: "length (ClientId env) = 16 \<Longrightarrow> nodePub (snd (handle env s)) = nodePub s"
  by (simp add: handle_state runEffects_keeps)

lemma handle_accounted:
  "accounted c U s \<Longrightarrow> coherent c U \<Longrightarrow> drawsFrom c U (ClientId env) (effects env)
    \<Longrightarrow> accounted c U (snd (handle env s))"
  by (simp add: handle_state accounted_runEffects drawsFrom_def)

lemma effects_done_all:
  "set (outbox s) \<subseteq> set (outbox (snd (runEffects c i es s)))
   \<and> (fst (runEffects c i es s) = Inr () \<longrightarrow>
        msgOf c ` set (emits es) \<subseteq> set (outbox (snd (runEffects c i es s)))
      \<and> nodeDown (snd (runEffects c i es s)) = nodeDown s)"
proof (induction es arbitrary: s)
  case (Cons e es)
  obtain r s1 where r: "runEffect c i e s = (r, s1)" by fastforce
  have out: "set (outbox s) \<subseteq> set (outbox s1) \<and> (r = Inr () \<longrightarrow> msgOf c ` set (emits [e]) \<subseteq> set (outbox s1) \<and> nodeDown s1 = nodeDown s)"
  proof (cases e)
    case (Emit p)
    with r show ?thesis
      by (cases rule: publishCounted_cases [of c p s]) auto
  qed (use r in \<open>auto simp: countReceived_def wmodify_def wresult_def wpanic_def\<close>)
  have em: "set (emits (e # es)) = set (emits [e]) \<union> set (emits es)" by (cases e) simp_all
  show ?case using Cons [of s1] out by (cases r) (auto simp: wbind_def r em)
qed (simp add: wresult_def)

lemmas effects_done =
  conjunct1 [OF effects_done_all] conjunct1 [OF mp [OF conjunct2 [OF effects_done_all]]]
  conjunct2 [OF mp [OF conjunct2 [OF effects_done_all]]]

lemma handle_ok_iff:
  "length (ClientId env) = 16 \<Longrightarrow>
     fst (handle env s) = Inr () \<longleftrightarrow> fst (runEffects (ClientId env) (MsgID env) (effects env) s) = Inr ()"
  using handle_effects [of env s] by (cases "fst (handle env s)";
    cases "fst (runEffects (ClientId env) (MsgID env) (effects env) s)") (auto simp: alike_def)

lemma handle_mono: "length (ClientId env) = 16 \<Longrightarrow> set (outbox s) \<subseteq> set (outbox (snd (handle env s)))"
  by (simp add: handle_state effects_done)

lemma handle_done:
  assumes "length (ClientId env) = 16" "fst (handle env s) = Inr ()"
  shows "outputs effects env \<subseteq> set (outbox (snd (handle env s))) \<and> nodeDown (snd (handle env s)) = nodeDown s"
  using assms effects_done(2,3) [of "ClientId env" "MsgID env" "effects env" s]
  by (simp add: handle_state handle_ok_iff outputs_def)

end

section \<open>Nodes around a stage\<close>

text \<open>A batch delivery, and what a run over a list of them has to satisfy.\<close>

definition batchOf :: "Message \<Rightarrow> InternalEnvelope option" where
  "batchOf m =
     (case DecodeInternalEnvelope (Body m) of
        Some (Inr env) \<Rightarrow> if MsgType env = MsgTransactionsBatch then Some env else None
      | _ \<Rightarrow> None)"

lemma batchOf_Some:
  "batchOf m = Some env \<longleftrightarrow> DecodeInternalEnvelope (Body m) = Some (Inr env) \<and> MsgType env = MsgTransactionsBatch"
  by (auto simp: batchOf_def split: option.splits sum.splits)

text \<open>
  Deliveries of the same client with the same non-zero id are redeliveries of one batch, so they
  have the same effects.
\<close>

definition redeliveriesAgree :: "(InternalEnvelope \<Rightarrow> effect list) \<Rightarrow> Message list \<Rightarrow> bool" where
  "redeliveriesAgree effects ms \<longleftrightarrow>
     (\<forall>m\<in>set ms. \<forall>m'\<in>set ms. \<forall>env env'. batchOf m = Some env \<longrightarrow> batchOf m' = Some env' \<longrightarrow>
        ClientId env = ClientId env' \<longrightarrow> MsgID env = MsgID env' \<longrightarrow> MsgID env \<noteq> zeroMsgID \<longrightarrow>
        outputs effects env = outputs effects env')"

lemma redeliveriesAgree_mono: "set ms \<subseteq> set ms' \<Longrightarrow> redeliveriesAgree effects ms' \<Longrightarrow> redeliveriesAgree effects ms"
  unfolding redeliveriesAgree_def by blast



text \<open>
  \<open>delivered\<close>: every known id and every pending or called ack belongs to a delivery whose messages
  the broker has.
\<close>

definition settledNode :: "(InternalEnvelope \<Rightarrow> effect list) \<Rightarrow> (Message \<times> nat) set \<Rightarrow> 'x wnode \<Rightarrow> bool" where
  "settledNode effects D s \<longleftrightarrow>
     (\<forall>c i. alreadySeen (nodePub s) c i \<longrightarrow>
        (\<exists>(m, a)\<in>D. \<exists>env. batchOf m = Some env \<and> ClientId env = c \<and> MsgID env = i
           \<and> outputs effects env \<subseteq> set (outbox s)))
   \<and> (\<forall>a\<in>acksOf s. \<exists>m env. (m, a) \<in> D \<and> batchOf m = Some env \<and> outputs effects env \<subseteq> set (outbox s))"

definition sameTables :: "'x wnode \<Rightarrow> 'x wnode \<Rightarrow> bool" where
  "sameTables s s' \<longleftrightarrow> outbox s' = outbox s \<and> rcvOf s' = rcvOf s \<and> sentOf s' = sentOf s
     \<and> (\<forall>c i. alreadySeen (nodePub s') c i = alreadySeen (nodePub s) c i)"

lemma sameTables_refl [simp]: "sameTables s s"
  by (simp add: sameTables_def)

lemma accounted_same: "sameTables s s' \<Longrightarrow> accounted c U s \<Longrightarrow> accounted c U s'"
  by (simp add: sameTables_def accounted_def)

lemma sameTables_work: "sameWork (coHost s) (coHost s') \<Longrightarrow> sameTables s s' \<and> sameTables s (stopNode s')"
  by (auto simp: sameTables_def sameWork_def outbox_def rcvOf_def sentOf_def fun_eq_iff alreadySeen_def stopNode_def)

lemma nacked_tables: "sameTables s (callNack a s)" "acksOf (callNack a s) = acksOf s"
  by (auto simp: sameTables_def callNack_def outbox_def rcvOf_def sentOf_def fun_eq_iff acksOf_def)

lemma acksOf_stopNode [simp]: "acksOf (stopNode s) = acksOf s"
  by (simp add: acksOf_def stopNode_def)

lemma ignored_io:
  "snd (ignoring (fromIo m) s) = snd (m s) \<or> snd (ignoring (fromIo m) s) = stopNode (snd (m s))
   \<or> snd (ignoring (fromIo m) s) = stopNode (stopNode (snd (m s)))"
  by (auto simp: ignoring_def fromIo_def wpanic_def split: prod.split io.split)

lemma stopNode_twice [simp]: "stopNode (stopNode s) = stopNode s"
  by (simp add: stopNode_def updHost_def)

lemma tracked_tables:
  "pureState st \<Longrightarrow> sameTables s (snd (ignoring (fromIo (Track (workerSources cfg st) c a)) s))"
  using keepsWork_Track [of st cfg c a] ignored_io [of "Track (workerSources cfg st) c a" s]
    sameTables_work [of s "snd (Track (workerSources cfg st) c a s)"]
  by (auto simp: keepsWork_def)

lemma tracked_acks: "acksOf (snd (ignoring (fromIo (Track src c a)) s)) \<subseteq> insert a (acksOf s)"
  using acksOf_Track [of src c a s] ignored_io [of "Track src c a" s] by auto

locale stage_node = stage handle effects
  for handle :: "'x wnode handler" and effects +
  fixes cfg :: workerCfg
    and st :: "'x worker_scheme Checkpointable option"
    and hs :: "nat \<Rightarrow> (MsgType, 'x wnode handler) gomap"
  assumes pure: "pureState st"
    and batch_handler: "mget (hs ack) MsgTransactionsBatch = Some handle"
begin

abbreviation (input) consumer :: "Message \<Rightarrow> nat \<Rightarrow> 'x wnode \<Rightarrow> 'x wnode" where
  "consumer \<equiv> consume (workerSources cfg st) (\<lambda>m a. Dispatch nodePub putPub (hs a) m)"

text \<open>A delivery is skipped when the node is down or knows its id.\<close>

definition skipped :: "InternalEnvelope \<Rightarrow> 'x wnode \<Rightarrow> bool" where
  "skipped env s \<longleftrightarrow> nodeDown s \<or> (MsgID env \<noteq> zeroMsgID \<and> alreadySeen (nodePub s) (ClientId env) (MsgID env))"

lemma consume_cases:
  assumes b: "batchOf m = Some env"
  obtains (skip) "skipped env s" "sameTables s (consumer m a s)"
      "acksOf (consumer m a s) \<subseteq> (if nodeDown s then acksOf s else insert a (acksOf s))"
  | (failed) "\<not> skipped env s" "fst (handle env s) \<noteq> Inr ()" "sameTables (snd (handle env s)) (consumer m a s)"
      "acksOf (consumer m a s) = acksOf (snd (handle env s))"
  | (handled) s2 where "\<not> skipped env s" "fst (handle env s) = Inr ()"
      "s2 = (if MsgID env \<noteq> zeroMsgID
             then putPub (markSeen (ClientId env) (MsgID env) (nodePub (snd (handle env s)))) (snd (handle env s))
             else snd (handle env s))"
      "sameTables s2 (consumer m a s)" "acksOf (consumer m a s) \<subseteq> insert a (acksOf s2)"
proof -
  have dec: "DecodeInternalEnvelope (Body m) = Some (Inr env)" and ty: "MsgType env = MsgTransactionsBatch"
    using b by (simp_all add: batchOf_Some)
  have h: "mget (hs a) (MsgType env) = Some handle" by (simp add: ty batch_handler)
  have neof: "MsgTransactionsBatch \<noteq> MsgTransactionsEOF" by (simp add: MsgType_defs)
  note D = Dispatch_handled [OF dec h, of nodePub putPub s]
  consider "nodeDown s" | "\<not> nodeDown s" "skipped env s" | "\<not> skipped env s" "fst (handle env s) \<noteq> Inr ()"
    | "\<not> skipped env s" "fst (handle env s) = Inr ()" by blast
  then show ?thesis
  proof cases
    case 1
    then show ?thesis by (intro that(1)) (simp_all add: skipped_def consume_def)
  next
    case 2
    then have "consumer m a s = snd (ignoring (fromIo (Track (workerSources cfg st) uuid_Nil a)) s)"
      by (simp add: skipped_def consume_def D ty neof)
    with 2 show ?thesis
      by (intro that(1)) (simp_all add: tracked_tables [OF pure] tracked_acks)
  next
    case 3
    obtain e s1 where h1: "handle env s = (Inl e, s1)" using 3(2) by (cases "handle env s"; cases "fst (handle env s)") auto
    then have "consumer m a s = (if nodeDown s1 then s1 else callNack a s1)"
      using 3(1) by (auto simp: skipped_def consume_def D)
    with 3 h1 show ?thesis by (intro that(2)) (simp_all add: nacked_tables)
  next
    case 4
    obtain s1 where h1: "handle env s = (Inr (), s1)" using 4(2) by (cases "handle env s") simp
    have up: "\<not> nodeDown s1"
      using handle_done [OF decoded_client_length [OF dec], of s] 4 by (simp add: h1 skipped_def)
    define s2 where "s2 = (if MsgID env \<noteq> zeroMsgID
        then putPub (markSeen (ClientId env) (MsgID env) (nodePub s1)) s1 else s1)"
    have "\<not> nodeDown s2" using up by (simp add: s2_def putPub_def)
    then have "consumer m a s = snd (ignoring (fromIo (Track (workerSources cfg st) (ClientId env) a)) s2)"
      using 4(1) by (auto simp: skipped_def consume_def D h1 ty neof s2_def)
    then show ?thesis
      by (intro that(3) [of s2] 4) (simp_all add: h1 s2_def tracked_tables [OF pure] tracked_acks)
  qed
qed

lemma consume_accounted:
  assumes "batchOf m = Some env" "accounted c U s" "coherent c U" "drawsFrom c U (ClientId env) (effects env)"
  shows "accounted c U (consumer m a s)"
proof (cases rule: consume_cases [OF assms(1), where s = s and a = a, case_names Skip Failed Handled])
  case Skip
  from Skip(2) assms(2) show ?thesis by (rule accounted_same)
next
  case Failed
  from Failed(3) handle_accounted [OF assms(2-4)] show ?thesis by (rule accounted_same)
next
  case (Handled s2)
  have "accounted c U s2"
    by (rule accounted_cong [OF handle_accounted [OF assms(2-4)]])
      (simp_all add: Handled(3) putPub_def outbox_def sentOf_def)
  with Handled(4) show ?thesis by (rule accounted_same)
qed

lemma consume_settled:
  assumes b: "batchOf m = Some env" and D: "settledNode effects D s"
    and agree: "\<And>m' a' env'. (m', a') \<in> D \<Longrightarrow> batchOf m' = Some env' \<Longrightarrow> ClientId env = ClientId env'
      \<Longrightarrow> MsgID env = MsgID env' \<Longrightarrow> MsgID env \<noteq> zeroMsgID \<Longrightarrow> outputs effects env = outputs effects env'"
  shows "settledNode effects (insert (m, a) D) (consumer m a s)"
proof -
  have len: "length (ClientId env) = 16" using b by (auto simp: batchOf_Some intro: decoded_client_length)
  have grow: "settledNode effects (insert (m, a) D) s'"
    if mono: "set (outbox s) \<subseteq> set (outbox s')"
      and seen: "\<And>c i. alreadySeen (nodePub s') c i \<Longrightarrow> alreadySeen (nodePub s) c i
          \<or> (c = ClientId env \<and> i = MsgID env \<and> outputs effects env \<subseteq> set (outbox s'))"
      and acks: "\<And>b. b \<in> acksOf s' \<Longrightarrow> b \<in> acksOf s \<or> (b = a \<and> outputs effects env \<subseteq> set (outbox s'))" for s'
  proof -
    have "\<exists>(m', a')\<in>insert (m, a) D. \<exists>env'. batchOf m' = Some env' \<and> ClientId env' = c \<and> MsgID env' = i
        \<and> outputs effects env' \<subseteq> set (outbox s')" if "alreadySeen (nodePub s') c i" for c i
    proof (cases "c = ClientId env \<and> i = MsgID env \<and> outputs effects env \<subseteq> set (outbox s')")
      case True
      with b show ?thesis by blast
    next
      case False
      then have "alreadySeen (nodePub s) c i" using seen [OF that] by blast
      then obtain m' a' env' where "(m', a') \<in> D" "batchOf m' = Some env'" "ClientId env' = c" "MsgID env' = i"
          "outputs effects env' \<subseteq> set (outbox s)"
        using D unfolding settledNode_def by fast
      with mono show ?thesis by blast
    qed
    moreover have "\<exists>m' env'. (m', x) \<in> insert (m, a) D \<and> batchOf m' = Some env' \<and> outputs effects env' \<subseteq> set (outbox s')"
      if "x \<in> acksOf s'" for x
    proof (cases "x = a \<and> outputs effects env \<subseteq> set (outbox s')")
      case True
      with b show ?thesis by blast
    next
      case False
      then have "x \<in> acksOf s" using acks [OF that] by blast
      with D obtain m' env' where "(m', x) \<in> D" "batchOf m' = Some env'" "outputs effects env' \<subseteq> set (outbox s)"
        unfolding settledNode_def by blast
      with mono show ?thesis by blast
    qed
    ultimately show ?thesis unfolding settledNode_def by blast
  qed
  show ?thesis
  proof (cases rule: consume_cases [OF b, where s = s and a = a, case_names Skip Failed Handled])
    case Skip
    have "outputs effects env \<subseteq> set (outbox s)" if "\<not> nodeDown s"
    proof -
      have nz: "MsgID env \<noteq> zeroMsgID" and "alreadySeen (nodePub s) (ClientId env) (MsgID env)"
        using Skip(1) that by (auto simp: skipped_def)
      then obtain m' a' env' where "(m', a') \<in> D" "batchOf m' = Some env'" "ClientId env' = ClientId env"
          "MsgID env' = MsgID env" "outputs effects env' \<subseteq> set (outbox s)"
        using D unfolding settledNode_def by fastforce
      then show ?thesis using agree [of m' a' env'] nz by simp
    qed
    with Skip(2,3) show ?thesis by (intro grow) (auto simp: sameTables_def split: if_splits)
  next
    case Failed
    have "acksOf (snd (handle env s)) = acksOf s" by (simp add: handle_state [OF len] effects_acks)
    with Failed(3,4) handle_mono [OF len, of s] show ?thesis
      by (intro grow) (auto simp: sameTables_def handle_keeps_pub [OF len])
  next
    case (Handled s2)
    have all: "outputs effects env \<subseteq> set (outbox (snd (handle env s)))"
      using handle_done [OF len Handled(2)] by simp
    have "acksOf (snd (handle env s)) = acksOf s" by (simp add: handle_state [OF len] effects_acks)
    then have s2: "outbox s2 = outbox (snd (handle env s)) \<and> acksOf s2 = acksOf s
        \<and> (\<forall>c i. alreadySeen (nodePub s2) c i \<longrightarrow> alreadySeen (nodePub s) c i \<or> (c = ClientId env \<and> i = MsgID env))"
      using Handled(3) by (cases "MsgID env = zeroMsgID") (auto simp: putPub_def outbox_def handle_keeps_pub [OF len])
    show ?thesis
      using Handled(4,5) handle_mono [OF len, of s] all s2
      by (intro grow) (auto simp: sameTables_def)
  qed
qed

lemma batches_accounted:
  assumes "\<forall>(m, a)\<in>set ds. \<exists>env. batchOf m = Some env \<and> drawsFrom c U (ClientId env) (effects env)"
    and "coherent c U" "accounted c U s"
  shows "accounted c U (fold (\<lambda>(m, a) s. consumer m a s) ds s)"
  using assms(1,3)
proof (induction ds arbitrary: s)
  case (Cons d ds)
  obtain m a where d: "d = (m, a)" by (cases d)
  from Cons.prems(1) d obtain env where "batchOf m = Some env" "drawsFrom c U (ClientId env) (effects env)" by auto
  with Cons.prems(2) assms(2) have "accounted c U (consumer m a s)" by (intro consume_accounted)
  with Cons show ?case by (simp add: d)
qed simp

lemma batches_settled:
  assumes "\<forall>(m, a)\<in>set ds. batchOf m \<noteq> None" "redeliveriesAgree effects (map fst ds)" "settledNode effects {} s"
  shows "settledNode effects (set ds) (fold (\<lambda>(m, a) s. consumer m a s) ds s)"
  using assms(1,2)
proof (induction ds rule: rev_induct)
  case (snoc d ds)
  obtain m a where d: "d = (m, a)" by (cases d)
  from snoc.prems(1) d obtain env where env: "batchOf m = Some env" by auto
  have IH: "settledNode effects (set ds) (fold (\<lambda>(m, a) s. consumer m a s) ds s)"
    using snoc redeliveriesAgree_mono [of "map fst ds" "map fst (ds @ [d])"] by auto
  have "settledNode effects (insert (m, a) (set ds)) (consumer m a (fold (\<lambda>(m, a) s. consumer m a s) ds s))"
  proof (rule consume_settled [OF env IH])
    fix m' a' env'
    assume "(m', a') \<in> set ds" "batchOf m' = Some env'" "ClientId env = ClientId env'" "MsgID env = MsgID env'"
      "MsgID env \<noteq> zeroMsgID"
    moreover from this(1) have "m' \<in> set (map fst (ds @ [d]))" by force
    moreover have "m \<in> set (map fst (ds @ [d]))" by (simp add: d)
    ultimately show "outputs effects env = outputs effects env'"
      using snoc.prems(2) env unfolding redeliveriesAgree_def by blast
  qed
  then show ?case by (simp add: d)
qed (use assms(3) in simp)

end

end
