(* ===== verification/Liveness.thy ===== *)
theory Liveness
  imports Nodes
begin

text \<open>
  What happens when the disk does not fail: every operation of the coordinator succeeds, so a flush
  acknowledges all tracked deliveries and the consumer loop eventually acknowledges every delivery
  it tracks.
\<close>

text \<open>\<open>runsOk f m\<close>: with a fault-free script (read by \<open>f\<close>), \<open>m\<close> succeeds and keeps it fault-free.\<close>

definition runsOk :: "('s \<Rightarrow> fs) \<Rightarrow> ('s, 'a) iom \<Rightarrow> bool" where
  "runsOk f m \<longleftrightarrow> (\<forall>s. script (f s) = [] \<longrightarrow> (\<exists>x s'. m s = (IOk x, s') \<and> script (f s') = []))"

lemma runsOk_iobind: "runsOk f m \<Longrightarrow> (\<And>x. runsOk f (k x)) \<Longrightarrow> runsOk f (iobind m k)"
  unfolding runsOk_def
proof (intro allI impI)
  fix s
  assume m: "\<forall>s. script (f s) = [] \<longrightarrow> (\<exists>x s'. m s = (IOk x, s') \<and> script (f s') = [])"
    and k: "\<And>x. \<forall>s. script (f s) = [] \<longrightarrow> (\<exists>y s'. k x s = (IOk y, s') \<and> script (f s') = [])"
    and s: "script (f s) = []"
  from m s obtain x s1 where "m s = (IOk x, s1)" "script (f s1) = []" by blast
  with k [of x] show "\<exists>x s'. iobind m k s = (IOk x, s') \<and> script (f s') = []" by (simp add: iobind_def)
qed

lemma runsOk_basic [simp]: "runsOk f (ioret x)" "runsOk id getFiles"
  by (simp_all add: runsOk_def ioret_def getFiles_def)

lemma runsOk_valid: "validKey key = Inr () \<Longrightarrow> runsOk f (ioresult (validKey key))"
  by (simp add: ioresult_def)

lemma runsOk_doOp [simp]: "runsOk id (doOp p)"
  by (simp add: runsOk_def doOp_def)

lemma runsOk_stores:
  assumes "validKey key = Inr ()"
  shows "runsOk id (ow_Stage dir key g b)" "runsOk id (ow_Promote dir key g)" "runsOk id (ap_Append dir key g b)"
  unfolding ow_Stage_def ow_Promote_def ap_Append_def Let_def
  by (intro runsOk_iobind runsOk_valid [OF assms]; simp add: runsOk_iobind)+

lemma runsOk_lift:
  fixes h :: "'w \<Rightarrow> 'b result \<times> 'w"
  shows "runsOk id m \<Longrightarrow> runsOk (coFs :: 'w coord \<Rightarrow> fs) (liftFs m)" "(\<And>w. \<exists>x w'. h w = (Inr x, w')) \<Longrightarrow> runsOk coFs (liftHost h)"
  "runsOk coFs (commitGen c g)"
proof -
  show "runsOk (coFs :: 'w coord \<Rightarrow> fs) (liftFs m)" if m: "runsOk id m"
    unfolding runsOk_def
  proof (intro allI impI)
    fix co :: "'w coord" assume "script (coFs co) = []"
    with m obtain x f where "m (coFs co) = (IOk x, f)" "script f = []" by (auto simp: runsOk_def)
    then show "\<exists>x s'. liftFs m co = (IOk x, s') \<and> script (coFs s') = []" by (simp add: liftFs_def)
  qed
  show "runsOk coFs (liftHost h)" if h: "\<And>w. \<exists>x w'. h w = (Inr x, w')"
    unfolding runsOk_def
  proof (intro allI impI)
    fix co :: "'w coord" assume "script (coFs co) = []"
    moreover obtain x w where "h (coHost co) = (Inr x, w)" using h by blast
    ultimately show "\<exists>x s'. liftHost h co = (IOk x, s') \<and> script (coFs s') = []" by (simp add: liftHost_def)
  qed
qed (simp add: runsOk_def commitGen_def)

text \<open>Sources whose callbacks do not fail and whose keys are file names.\<close>

definition soundSources :: "'w sources \<Rightarrow> bool" where
  "soundSources src \<longleftrightarrow>
     (\<forall>(dir, x)\<in>set (slots src). \<forall>c w. \<exists>d w'. snapshotClient x c w = (Inr d, w'))
   \<and> (\<forall>c w. \<exists>d w'. srcDrain (srcSeen src) c w = (Inr d, w'))
   \<and> (\<forall>c w. \<exists>d w'. srcCommit (srcSeen src) c w = (Inr d, w'))"

lemma runsOk_slots:
  "(\<forall>(dir, x)\<in>set xs. \<forall>c w. \<exists>d w'. snapshotClient x c w = (Inr d, w')) \<Longrightarrow> validKey key = Inr () \<Longrightarrow>
     runsOk coFs (stageSlots xs c key g)"
  "validKey key = Inr () \<Longrightarrow> runsOk coFs (promoteSlots xs key g)"
  by (induction xs) (auto intro!: runsOk_iobind runsOk_lift runsOk_stores)

lemma runsOk_checkpoint:
  assumes "soundSources src" "validKey (uuidString src c) = Inr ()"
  shows "runsOk coFs (coCheckpoint src c)"
proof -
  note sound = assms(2) assms(1) [unfolded soundSources_def]
  have "runsOk coFs (iobind (stageSlots (slots src) c (uuidString src c) g) (\<lambda>_.
      iobind (liftHost (srcDrain (srcSeen src) c)) (\<lambda>delta.
      iobind (liftFs (ap_Append seenDir (uuidString src c) g delta)) (\<lambda>_.
      iobind (commitGen c g) (\<lambda>_.
      iobind (liftHost (srcCommit (srcSeen src) c)) (\<lambda>_.
      promoteSlots (slots src) (uuidString src c) g))))))" for g
    by (intro runsOk_iobind runsOk_slots runsOk_lift runsOk_stores) (use sound in auto)
  then show ?thesis by (simp add: runsOk_def coCheckpoint_def Let_def)
qed

lemma runsOk_checkpointAll:
  "soundSources src \<Longrightarrow> \<forall>c\<in>set cs. validKey (uuidString src c) = Inr () \<Longrightarrow> runsOk coFs (checkpointAll src cs)"
  by (induction cs) (auto intro!: runsOk_iobind runsOk_checkpoint)

lemma flush_ok:
  assumes "soundSources src" "\<forall>c\<in>set (coDirty co). validKey (uuidString src c) = Inr ()" "script (coFs co) = []"
  shows "\<exists>co'. coFlush src co = (IOk (), co') \<and> coAcked co' = coAcked co @ coAcks co \<and> coAcks co' = []
    \<and> coPending co' = 0 \<and> coInterval co' = coInterval co \<and> script (coFs co') = []"
proof -
  let ?co = "co\<lparr>coDirty := [], coAcks := [], coPending := 0\<rparr>"
  obtain co1 where co1: "checkpointAll src (coDirty co) ?co = (IOk (), co1)" "script (coFs co1) = []"
    using runsOk_checkpointAll [OF assms(1,2)] assms(3) unfolding runsOk_def by (auto elim!: allE [of _ ?co])
  have "coAcked co1 = coAcked co" "coAcks co1 = []" "coPending co1 = 0" "coInterval co1 = coInterval co"
    using acked_checkpointAll [of src "coDirty co" ?co] co1(1) by simp_all
  with co1 show ?thesis by (simp add: coFlush_def Let_def iobind_def)
qed

text \<open>
  C28. Liveness of \<open>Flush\<close>: when no disk operation fails and no snapshot does, \<open>Flush\<close> returns without
  error and has called every tracked ack, in order; nothing stays tracked.
\<close>

theorem flush_acknowledges_everything:
  assumes "soundSources src" "\<forall>c\<in>set (coDirty co). validKey (uuidString src c) = Inr ()" "script (coFs co) = []"
  shows "\<exists>co'. coFlush src co = (IOk (), co') \<and> coAcked co' = coAcked co @ coAcks co \<and> coAcks co' = []
    \<and> coPending co' = 0"
  using flush_ok [OF assms] by blast

theorem flush_acknowledges_everything_witness:
  "\<exists>co'. coFlush fixtureSources fixtureCoord = (IOk (), co') \<and> coAcked co' = [1] \<and> coAcks co' = []"
proof -
  have "soundSources fixtureSources"
    by (simp add: soundSources_def fixture_basic publisherSource_def)
  from flush_acknowledges_everything [OF this, of fixtureCoord] show ?thesis
    by (auto simp: fixture_simps)
qed

section \<open>Healthy nodes\<close>

text \<open>The node runs, its disk and its broker do not fail.\<close>

definition healthy :: "'x wnode \<Rightarrow> bool" where
  "healthy s \<longleftrightarrow> \<not> nodeDown s \<and> script (coFs s) = [] \<and> outcomes (nodeNet s) = []"

lemma healthy_publish:
  assumes "outcomes (nodeNet s) = []"
  shows "\<exists>s'. publishCounted c p s = (Inr (), s') \<and> outcomes (nodeNet s') = [] \<and> coFs s' = coFs s
    \<and> nodeDown s' = nodeDown s"
  using assms
  by (simp add: publishCounted_def publishWithID_def PublishInternalWithID_def pubSend_def netSend_def wbind_def
      countSent_def wmodify_def updCtl_def)

lemma healthy_effects:
  "healthy s \<Longrightarrow> Abort \<notin> set es \<Longrightarrow> Boom \<notin> set es \<Longrightarrow>
     fst (runEffects c i es s) = Inr () \<and> healthy (snd (runEffects c i es s))"
proof (induction es arbitrary: s)
  case (Cons e es)
  have "\<exists>s1. runEffect c i e s = (Inr (), s1) \<and> healthy s1"
  proof (cases e)
    case (Emit p)
    then show ?thesis using healthy_publish [of s c p] Cons.prems(1) by (auto simp: healthy_def)
  qed (use Cons.prems in \<open>auto simp: countReceived_def wmodify_def healthy_def updCtl_def\<close>)
  then obtain s1 where "runEffect c i e s = (Inr (), s1)" "healthy s1" by blast
  with Cons show ?case by (simp add: wbind_def)
qed (simp add: wresult_def)

lemma sound_worker:
  assumes "\<And>cp. \<exists>b. cfgMarshal cfg cp = Inr b"
  shows "soundSources (workerSources cfg (None :: 'x worker_scheme Checkpointable option))"
  using assms
  by (auto simp: soundSources_def workerSources_def slots_def controllerSource_def publisherSource_def
      eofSnapshotClient_def split: option.split)

lemma Track_ok:
  assumes "soundSources src" "\<And>c. validKey (uuidString src c) = Inr ()" "script (coFs s) = []"
  shows "\<exists>s'. Track src c a s = (IOk (), s') \<and> acksOf s' = insert a (acksOf s) \<and> script (coFs s') = []
    \<and> coInterval s' = coInterval s \<and> (coInterval s \<le> 1 \<longrightarrow> coAcks s' = [])"
proof -
  let ?s = "s\<lparr>coDirty := (if c \<noteq> uuid_Nil then List.insert c (coDirty s) else coDirty s),
              coAcks := coAcks s @ [a], coPending := Suc (coPending s)\<rparr>"
  obtain s' where s': "coFlush src ?s = (IOk (), s')" "coAcked s' = coAcked s @ coAcks s @ [a]" "coAcks s' = []"
      "script (coFs s') = []" "coInterval s' = coInterval s"
    using flush_ok [OF assms(1), of ?s] assms(2,3) by auto
  show ?thesis
  proof (cases "coInterval s \<le> Suc (coPending s)")
    case True
    then have "Track src c a s = (IOk (), s')" using s'(1) by (simp add: Track_def Let_def)
    with s' show ?thesis by (auto simp: acksOf_def)
  next
    case False
    then have "Track src c a s = (IOk (), ?s)" by (simp add: Track_def Let_def)
    with False assms(3) show ?thesis by (auto simp: acksOf_def)
  qed
qed

context stage_node begin

lemma consume_healthy:
  assumes b: "batchOf m = Some env" and s: "healthy s" and es: "Abort \<notin> set (effects env)" "Boom \<notin> set (effects env)"
    and src: "soundSources (workerSources cfg st)" "\<And>c. validKey (cfgUuidString cfg c) = Inr ()"
  shows "healthy (consumer m a s) \<and> acksOf (consumer m a s) = insert a (acksOf s)
    \<and> coInterval (consumer m a s) = coInterval s \<and> (coInterval s \<le> 1 \<longrightarrow> coAcks (consumer m a s) = [])"
proof -
  have dec: "DecodeInternalEnvelope (Body m) = Some (Inr env)" and ty: "MsgType env = MsgTransactionsBatch"
    using b by (simp_all add: batchOf_Some)
  have h: "mget (hs a) (MsgType env) = Some handle" by (simp add: ty batch_handler)
  have neof: "MsgTransactionsBatch \<noteq> MsgTransactionsEOF" by (simp add: MsgType_defs)
  note D = Dispatch_handled [OF dec h, of nodePub putPub s]
  have len: "length (ClientId env) = 16" by (rule decoded_client_length [OF dec])
  have ok: "fst (handle env s) = Inr ()" "healthy (snd (handle env s))"
    using healthy_effects [OF s es] by (simp_all add: handle_ok_iff [OF len] handle_state [OF len])
  then obtain s1 where h1: "handle env s = (Inr (), s1)" "healthy s1" by (cases "handle env s") simp
  define c where "c = (if skipped env s then uuid_Nil else ClientId env)"
  define s2 where "s2 = (if skipped env s then s else if MsgID env \<noteq> zeroMsgID
      then putPub (markSeen (ClientId env) (MsgID env) (nodePub s1)) s1 else s1)"
  have acks1: "acksOf s1 = acksOf s" using h1(1) handle_state [OF len, of s] effects_acks [of "ClientId env" "MsgID env"]
    by (metis snd_conv)
  have int1: "coInterval s1 = coInterval s" using h1(1) handle_state [OF len, of s] effects_interval [of "ClientId env" "MsgID env"]
    by (metis snd_conv)
  have s2: "healthy s2" "acksOf s2 = acksOf s" "coInterval s2 = coInterval s"
    using s h1(2) acks1 int1 by (auto simp: s2_def healthy_def putPub_def updHost_def acksOf_def)
  have "consumer m a s = snd (ignoring (fromIo (Track (workerSources cfg st) c a)) s2)"
    using s s2(1) h1 by (auto simp: consume_def D skipped_def healthy_def c_def s2_def ty neof)
  moreover obtain s3 where s3: "Track (workerSources cfg st) c a s2 = (IOk (), s3)" "acksOf s3 = insert a (acksOf s2)"
      "script (coFs s3) = []" "coInterval s3 = coInterval s2" "coInterval s2 \<le> 1 \<longrightarrow> coAcks s3 = []"
    using Track_ok [OF src(1), of s2 c a] src(2) s2(1) by (auto simp: workerSources_def healthy_def)
  moreover have "sameWork (coHost s2) (coHost s3)"
    using keepsWork_Track [OF pure, of cfg c a] s3(1) unfolding keepsWork_def by (metis snd_conv)
  ultimately show ?thesis using s2 by (auto simp: ignoring_def fromIo_def healthy_def sameWork_def)
qed

lemma batches_healthy:
  assumes ds: "\<forall>(m, a)\<in>set ds. \<exists>env. batchOf m = Some env \<and> Abort \<notin> set (effects env) \<and> Boom \<notin> set (effects env)"
    and src: "soundSources (workerSources cfg st)" "\<And>c. validKey (cfgUuidString cfg c) = Inr ()"
  shows "healthy s \<Longrightarrow> let s' = fold (\<lambda>(m, a) s. consumer m a s) ds s in
     healthy s' \<and> acksOf s' = snd ` set ds \<union> acksOf s \<and> coInterval s' = coInterval s
   \<and> (coInterval s \<le> 1 \<longrightarrow> coAcks s = [] \<longrightarrow> coAcks s' = [])"
  using ds
proof (induction ds arbitrary: s)
  case (Cons d ds)
  obtain m a where d: "d = (m, a)" by (cases d)
  with Cons.prems obtain env where env: "batchOf m = Some env" "Abort \<notin> set (effects env)" "Boom \<notin> set (effects env)"
    by auto
  note step = consume_healthy [OF env(1) Cons.prems(1) env(2,3) src, of a]
  show ?case using Cons.IH [of "consumer m a s"] step Cons.prems(2) by (auto simp: d Let_def)
qed simp

end

end
