(* ===== verification/Transit.thy ===== *)
theory Transit
  imports Envelope Stage
begin

text \<open>
  What a stage can rely on when it re-encodes what it decoded: every text of a decoded transaction
  is short enough to be written, so a batch of (parts of) decoded transactions always encodes.
\<close>

definition wireTx :: "Transaction \<Rightarrow> bool" where
  "wireTx t \<longleftrightarrow> length (Timestamp t) \<le> 255 \<and> length (FromBank t) \<le> 255 \<and> length (FromAccount t) \<le> 255
     \<and> length (ToBank t) \<le> 255 \<and> length (ToAccount t) \<le> 255 \<and> length (ReceivingCurrency t) \<le> 255
     \<and> length (PaymentCurrency t) \<le> 255 \<and> length (PaymentFormat t) \<le> 255"

lemma readString_short: "readString r = Inr (s, r') \<Longrightarrow> length s \<le> 255"
proof -
  have "unat (n :: byte) \<le> 255" for n using unsigned_less [of n, where 'a = nat] by simp
  then show "readString r = Inr (s, r') \<Longrightarrow> length s \<le> 255"
    by (auto simp: readString_def result_simps)
qed

lemma readMoney_short:
  "decodeMoney r = Inr ((a, c), r') \<Longrightarrow> length c \<le> 255"
  "decodeTransactionAccount r = Inr ((b, n), r') \<Longrightarrow> length b \<le> 255 \<and> length n \<le> 255"
  by (auto simp: decodeMoney_def decodeTransactionAccount_def result_simps dest: readString_short)

lemma decodeTransaction_wire: "decodeTransaction r = Inr (t, r') \<Longrightarrow> wireTx t"
  unfolding decodeTransaction_def
  by (auto simp: result_simps wireTx_def dest!: readString_short readMoney_short split: prod.splits)

lemma decodeItems_each:
  "(\<And>b x r. dec b = Inr (x, r) \<Longrightarrow> P x) \<Longrightarrow> decodeItems what dec n i r = Inr xs \<Longrightarrow> \<forall>x\<in>set xs. P x"
proof (induction n arbitrary: i r xs)
  case (Suc n)
  from Suc.prems(2) show ?case
    using Suc.IH [OF Suc.prems(1)] Suc.prems(1) by (auto simp: result_simps)
qed simp

lemma decodeItems_length: "decodeItems what dec n i r = Inr xs \<Longrightarrow> length xs = n"
  by (induction n arbitrary: i r xs) (auto simp: result_simps)

lemma DecodeTransactionBatch_wire:
  assumes "DecodeTransactionBatch p = Inr txs"
  shows "(\<forall>t\<in>set txs. wireTx t) \<and> length txs < 2 ^ 32"
proof -
  obtain cb r where r: "decodeItems ''tx'' decodeTransaction (unat (Uint32 cb)) 0 r = Inr txs"
    using assms by (auto simp: DecodeTransactionBatch_def decodeBatch_def result_simps)
  have "length txs < 2 ^ 32"
    using decodeItems_length [OF r] unsigned_less [of "Uint32 cb", where 'a = nat] by simp
  moreover have "\<forall>t\<in>set txs. wireTx t"
    by (rule decodeItems_each [OF _ r]) (rule decodeTransaction_wire)
  ultimately show ?thesis by blast
qed

lemma encodeTransaction_short: "wireTx t \<Longrightarrow> \<exists>b. encodeTransaction t = Inr b \<and> length b \<le> MaxUint16"
  by (simp add: wireTx_def encodeTransaction_def encodeTransactionAccount_def encodeMoney_def writeString_def
      writeFloat64_def writeBool_def MaxUint16_def)

lemma encodeItems_ok:
  "(\<And>x. x \<in> set xs \<Longrightarrow> \<exists>b. enc x = Inr b \<and> length b \<le> MaxUint16) \<Longrightarrow> \<exists>bs. encodeItems what enc i xs = Inr bs"
proof (induction xs arbitrary: i)
  case (Cons x xs)
  obtain b where "enc x = Inr b" "length b \<le> MaxUint16" using Cons.prems by auto
  moreover obtain bs where "encodeItems what enc (Suc i) xs = Inr bs" using Cons.IH Cons.prems by auto
  ultimately show ?case by simp
qed simp

lemma EncodeTransactionBatch_ok: "(\<And>t. t \<in> set txs \<Longrightarrow> wireTx t) \<Longrightarrow> \<exists>bs. EncodeTransactionBatch txs = Inr bs"
proof -
  assume "\<And>t. t \<in> set txs \<Longrightarrow> wireTx t"
  then obtain bs where "encodeItems ''tx'' encodeTransaction 0 txs = Inr bs"
    using encodeItems_ok [of txs encodeTransaction] encodeTransaction_short by blast
  then show ?thesis by (simp add: EncodeTransactionBatch_def encodeBatch_def)
qed

text \<open>The batch a publication carries, as the next stage decodes it.\<close>

lemma batch_arrives:
  assumes "EncodeTransactionBatch txs = Inr bs" "length txs < 2 ^ 32"
  shows "DecodeTransactionBatch bs = Inr txs"
  using transaction.decodeBatch_encodeBatch_exact [of txs] assms
  by (auto simp: EncodeTransactionBatch_def DecodeTransactionBatch_def)

end
