(* ===== verification/Cleaner.thy ===== *)
theory Cleaner
  imports Liveness Transit
begin

text \<open>
  \<open>workers/cleaner/cleaner.go\<close>: blanks the configured columns of every transaction of a batch and
  republishes the batch.
\<close>

record cleaner =
  clCfg :: workerCfg
  fieldsToClean :: "string list"

definition cleanField :: "string \<Rightarrow> Transaction \<Rightarrow> Transaction" where
  "cleanField field tx =
     (if field = ''from_bank'' then tx\<lparr>FromBank := ''''\<rparr>
      else if field = ''from_account'' then tx\<lparr>FromAccount := ''''\<rparr>
      else if field = ''to_bank'' then tx\<lparr>ToBank := ''''\<rparr>
      else if field = ''to_account'' then tx\<lparr>ToAccount := ''''\<rparr>
      else if field = ''payment_format'' then tx\<lparr>PaymentFormat := ''''\<rparr>
      else tx)"

definition cleanTransaction :: "cleaner \<Rightarrow> Transaction \<Rightarrow> Transaction" where
  "cleanTransaction w tx = fold cleanField (fieldsToClean w) tx"

definition Cleaner_sources :: "cleaner \<Rightarrow> worker sources" where
  "Cleaner_sources w = workerSources (clCfg w) None"

definition Cleaner_onLeaderFlush :: "cleaner \<Rightarrow> uuid \<Rightarrow> (KeyType, goint) gomap \<Rightarrow> (unit, unit) act" where
  "Cleaner_onLeaderFlush w c finalSent =
     wbind (wresult (EncodeEOFCounts finalSent)) (\<lambda>payload.
     publishWithID c MsgTransactionsEOF KeyControlEOF payload (StageMsgID c (WorkerPrefix (clCfg w)) ''eof'' 0))"

definition Cleaner_onRetryExceeded :: "cleaner \<Rightarrow> uuid \<Rightarrow> (unit, unit) act" where
  "Cleaner_onRetryExceeded w c =
     wbind (wresult (EncodeEOFCounts flushCounts)) (\<lambda>payload.
     publishWithID c MsgTransactionsEOF KeyControlEOF payload (StageMsgID c (WorkerPrefix (clCfg w)) ''eof'' 0))"

definition Cleaner_onflush :: "cleaner \<Rightarrow> uuid \<Rightarrow> (unit, unit) act" where
  "Cleaner_onflush w = onflush (Cleaner_sources w)"

definition Cleaner_callbacks :: "cleaner \<Rightarrow> unit callbacks" where
  "Cleaner_callbacks w =
     \<lparr>cbFlush = Cleaner_onflush w, cbLeaderFlush = Cleaner_onLeaderFlush w,
      cbRetryExceeded = Cleaner_onRetryExceeded w\<rparr>"

definition Cleaner_handleTransactionMessage :: "cleaner \<Rightarrow> unit wnode handler" where
  "Cleaner_handleTransactionMessage w env =
     wbind (wresult (DecodeTransactionBatch (Payload env))) (\<lambda>txs.
     wbind (countReceived (ClientId env) (MsgID env) (length txs)) (\<lambda>_.
     wbind (wresult (EncodeTransactionBatch (map (cleanTransaction w) txs))) (\<lambda>payload.
     let txID = DeriveMsgID (MsgID env) KeyNil 0 in
     wbind (publishWithID (ClientId env) MsgTransactionsBatch KeyNil payload txID) (\<lambda>_.
     countSent (ClientId env) KeyNil txID (length txs)))))"

definition Cleaner_handleEOFMessage :: "cleaner \<Rightarrow> nat \<Rightarrow> unit wnode handler" where
  "Cleaner_handleEOFMessage w ack = handleEOF (clCfg w) (Cleaner_sources w) (Cleaner_callbacks w) ack"

definition Cleaner_handlers :: "cleaner \<Rightarrow> nat \<Rightarrow> (MsgType, unit wnode handler) gomap" where
  "Cleaner_handlers w ack =
     [(MsgTransactionsBatch, Cleaner_handleTransactionMessage w),
      (MsgTransactionsEOF, Cleaner_handleEOFMessage w ack)]"

definition Cleaner_handleMessage :: "cleaner \<Rightarrow> unit dispatcher" where
  "Cleaner_handleMessage w msg ack = Dispatch nodePub putPub (Cleaner_handlers w ack) msg"

definition Cleaner_Start :: "cleaner \<Rightarrow> fs \<Rightarrow> net \<Rightarrow> unit wnode" where
  "Cleaner_Start w = bootNode (clCfg w) (Cleaner_sources w) ()"

definition Cleaner_Run :: "cleaner \<Rightarrow> nodeInput list \<Rightarrow> unit wnode \<Rightarrow> unit wnode" where
  "Cleaner_Run w = nodeRun (Cleaner_sources w) (Cleaner_handleMessage w) (Cleaner_callbacks w)"

section \<open>The cleaner as a stage\<close>

definition Cleaner_effects :: "cleaner \<Rightarrow> InternalEnvelope \<Rightarrow> effect list" where
  "Cleaner_effects w env =
     (case DecodeTransactionBatch (Payload env) of
        Inl e \<Rightarrow> [Abort]
      | Inr txs \<Rightarrow> Receive (length txs) #
          (case EncodeTransactionBatch (map (cleanTransaction w) txs) of
             Inl e \<Rightarrow> [Abort]
           | Inr payload \<Rightarrow>
               [Emit \<lparr>pbType = MsgTransactionsBatch, pbKey = KeyNil, pbPayload = payload,
                      pbId = DeriveMsgID (MsgID env) KeyNil 0, pbCount = length txs\<rparr>]))"

interpretation cleaner: stage_node "Cleaner_handleTransactionMessage w" "Cleaner_effects w" "clCfg w" None
    "Cleaner_handlers w" for w
proof
  fix env :: InternalEnvelope and s :: "unit wnode"
  show "alike (Cleaner_handleTransactionMessage w env s)
     (runEffects (ClientId env) (MsgID env) (Cleaner_effects w env) s)"
    by (auto simp: Cleaner_handleTransactionMessage_def Cleaner_effects_def alike_def wbind_def wresult_def
        publishCounted_def countReceived_def wmodify_def Let_def split: sum.splits prod.splits)
qed (simp_all add: Cleaner_handlers_def)

end
