(* ===== verification/Router.thy ===== *)
theory Router
  imports Liveness Transit
begin

text \<open>
  \<open>workers/router\<close>: the router partitions the transactions of a batch over the replicas of the next
  stage by the FNV-1a hash of one field; the spliter sends every transaction to the shard of its
  origin and to the shard of its destination, as one message per (role, shard). Both group with a Go
  map, whose iteration order is the parameter \<open>order\<close> of the worker: it rearranges the groups.
\<close>

section \<open>Sharding (service.go)\<close>

text \<open>\<open>fmt.Sprintf("%s_%d", prefix, int(h.Sum32()) % n)\<close>; the remainder by zero panics (\<open>None\<close>).\<close>

definition shardOf :: "string \<Rightarrow> int \<Rightarrow> string \<Rightarrow> string option" where
  "shardOf prefix n value =
     (if n = 0 then None
      else Some (prefix @ ''_'' @ itoa (unat (fnv32a (str_bytes value)) mod nat \<bar>n\<bar>)))"

definition accountField :: "Account option \<Rightarrow> string \<Rightarrow> string" where
  "accountField a field =
     (case a of None \<Rightarrow> ''''
      | Some a \<Rightarrow> if field = ''BankID'' then BankID a else if field = ''ID'' then ID a else '''')"

definition moneyField :: "Money option \<Rightarrow> string \<Rightarrow> string" where
  "moneyField m field =
     (case m of None \<Rightarrow> '''' | Some m \<Rightarrow> if field = ''Currency'' then Currency m else '''')"

record router =
  roCfg :: workerCfg
  sectionToRouteBy :: string
  fieldToRouteBy :: string
  nextWorkerAmount :: int
  roOrder :: "(string, Transaction list) gomap \<Rightarrow> (string, Transaction list) gomap"

definition extractFieldValue :: "router \<Rightarrow> Transaction \<Rightarrow> string" where
  "extractFieldValue w tx =
     (if sectionToRouteBy w = ''origin'' then
        accountField (Some \<lparr>BankID = FromBank tx, ID = FromAccount tx\<rparr>) (fieldToRouteBy w)
      else if sectionToRouteBy w = ''dest'' then
        accountField (Some \<lparr>BankID = ToBank tx, ID = ToAccount tx\<rparr>) (fieldToRouteBy w)
      else if sectionToRouteBy w = ''paid'' then
        moneyField (Some \<lparr>Amount = AmountPaid tx, Currency = PaymentCurrency tx\<rparr>) (fieldToRouteBy w)
      else if sectionToRouteBy w = ''format'' then PaymentFormat tx
      else '''')"

definition shardByField :: "router \<Rightarrow> Transaction \<Rightarrow> string option" where
  "shardByField w tx = shardOf (NextWorkerPrefix (roCfg w)) (nextWorkerAmount w) (extractFieldValue w tx)"

section \<open>Router (router.go)\<close>

definition Router_sources :: "router \<Rightarrow> worker sources" where
  "Router_sources w = workerSources (roCfg w) None"

definition Router_encodeAndSendBatch ::
  "uuid \<Rightarrow> MsgType \<Rightarrow> bytes \<Rightarrow> KeyType \<Rightarrow> nat \<Rightarrow> MsgID \<Rightarrow> (unit, unit) act" where
  "Router_encodeAndSendBatch c msgType payload routingKey batchLength i =
     wbind (publishWithID c msgType routingKey payload i) (\<lambda>_. countSent c routingKey i batchLength)"

definition Router_onLeaderFlush :: "router \<Rightarrow> uuid \<Rightarrow> (KeyType, goint) gomap \<Rightarrow> (unit, unit) act" where
  "Router_onLeaderFlush w c finalSent =
     wbind (wresult (EncodeEOFCounts finalSent)) (\<lambda>payload.
     Router_encodeAndSendBatch c MsgTransactionsEOF payload KeyControlEOF 0
       (StageMsgID c (WorkerPrefix (roCfg w)) ''eof'' 0))"

definition Router_onRetryExceeded :: "router \<Rightarrow> uuid \<Rightarrow> (unit, unit) act" where
  "Router_onRetryExceeded w c =
     wbind (wresult (EncodeEOFCounts flushCounts)) (\<lambda>payload.
     Router_encodeAndSendBatch c MsgTransactionsEOF payload KeyControlEOF 0
       (StageMsgID c (WorkerPrefix (roCfg w)) ''eof'' 0))"

definition Router_onflush :: "router \<Rightarrow> uuid \<Rightarrow> (unit, unit) act" where
  "Router_onflush w = onflush (Router_sources w)"

definition Router_callbacks :: "router \<Rightarrow> unit callbacks" where
  "Router_callbacks w =
     \<lparr>cbFlush = Router_onflush w, cbLeaderFlush = Router_onLeaderFlush w,
      cbRetryExceeded = Router_onRetryExceeded w\<rparr>"

fun routeAll :: "router \<Rightarrow> Transaction list \<Rightarrow> (string, Transaction list) gomap
    \<Rightarrow> (string, Transaction list) gomap option" where
  "routeAll w [] m = Some m"
| "routeAll w (tx # txs) m =
     (case shardByField w tx of
        None \<Rightarrow> None
      | Some key \<Rightarrow> routeAll w txs (mput key (mgetd [] m key @ [tx]) m))"

fun Router_sendAll :: "InternalEnvelope \<Rightarrow> (string, Transaction list) gomap \<Rightarrow> (unit, unit) act" where
  "Router_sendAll env [] = wresult (Inr ())"
| "Router_sendAll env ((key, txs) # m) =
     wbind (wresult (EncodeTransactionBatch txs)) (\<lambda>payload.
     wbind (Router_encodeAndSendBatch (ClientId env) MsgTransactionsBatch payload key (length txs)
              (DeriveMsgID (MsgID env) key 0)) (\<lambda>_.
     Router_sendAll env m))"

definition Router_handleTransactionMessage :: "router \<Rightarrow> unit wnode handler" where
  "Router_handleTransactionMessage w env =
     wbind (wresult (DecodeTransactionBatch (Payload env))) (\<lambda>txs.
     wbind (countReceived (ClientId env) (MsgID env) (length txs)) (\<lambda>_.
     case routeAll w txs [] of
       None \<Rightarrow> wpanic
     | Some m \<Rightarrow> Router_sendAll env (roOrder w m)))"

definition Router_handleEOFMessage :: "router \<Rightarrow> nat \<Rightarrow> unit wnode handler" where
  "Router_handleEOFMessage w ack = handleEOF (roCfg w) (Router_sources w) (Router_callbacks w) ack"

definition Router_handlers :: "router \<Rightarrow> nat \<Rightarrow> (MsgType, unit wnode handler) gomap" where
  "Router_handlers w ack =
     [(MsgTransactionsBatch, Router_handleTransactionMessage w),
      (MsgTransactionsEOF, Router_handleEOFMessage w ack)]"

definition Router_handleMessage :: "router \<Rightarrow> unit dispatcher" where
  "Router_handleMessage w msg ack = Dispatch nodePub putPub (Router_handlers w ack) msg"

definition Router_Start :: "router \<Rightarrow> fs \<Rightarrow> net \<Rightarrow> unit wnode" where
  "Router_Start w = bootNode (roCfg w) (Router_sources w) ()"

definition Router_Run :: "router \<Rightarrow> nodeInput list \<Rightarrow> unit wnode \<Rightarrow> unit wnode" where
  "Router_Run w = nodeRun (Router_sources w) (Router_handleMessage w) (Router_callbacks w)"

section \<open>Spliter (spliter.go)\<close>

record bucketKey =
  txType :: TypeTxQ4
  routingKey :: string

record spliter =
  spCfg :: workerCfg
  fieldsToRouteBy :: "string list"
  spNextWorkerAmount :: int
  spOrder :: "(bucketKey, Transaction list) gomap \<Rightarrow> (bucketKey, Transaction list) gomap"

definition Spliter_sources :: "spliter \<Rightarrow> worker sources" where
  "Spliter_sources w = workerSources (spCfg w) None"

definition shardByValue :: "spliter \<Rightarrow> string \<Rightarrow> string option" where
  "shardByValue w value = shardOf (NextWorkerPrefix (spCfg w)) (spNextWorkerAmount w) value"

definition Spliter_onflush :: "spliter \<Rightarrow> uuid \<Rightarrow> (unit, unit) act" where
  "Spliter_onflush w = onflush (Spliter_sources w)"

definition Spliter_onLeaderFlush :: "spliter \<Rightarrow> uuid \<Rightarrow> (KeyType, goint) gomap \<Rightarrow> (unit, unit) act" where
  "Spliter_onLeaderFlush w c finalSent =
     wbind (wresult (EncodeEOFCountsEnvelope c finalSent)) (\<lambda>envelope.
     publishRaw KeyControlEOF envelope (StageMsgID c (WorkerPrefix (spCfg w)) ''eof'' 0))"

definition Spliter_onRetryExceeded :: "spliter \<Rightarrow> uuid \<Rightarrow> (unit, unit) act" where
  "Spliter_onRetryExceeded w c =
     wbind (wresult (EncodeEOFCountsEnvelope c flushCounts)) (\<lambda>envelope.
     publishRaw KeyControlEOF envelope (StageMsgID c (WorkerPrefix (spCfg w)) ''eof'' 0))"

definition Spliter_callbacks :: "spliter \<Rightarrow> unit callbacks" where
  "Spliter_callbacks w =
     \<lparr>cbFlush = Spliter_onflush w, cbLeaderFlush = Spliter_onLeaderFlush w,
      cbRetryExceeded = Spliter_onRetryExceeded w\<rparr>"

definition sendPhaseOneBatch ::
  "uuid \<Rightarrow> TypeTxQ4 \<Rightarrow> KeyType \<Rightarrow> Transaction list \<Rightarrow> MsgID \<Rightarrow> (unit, unit) act" where
  "sendPhaseOneBatch c ty key txs parentID =
     wbind (wresult (EncodeTxQ4PhaseOneBatchEnvelope c ty txs)) (\<lambda>envelope.
     let i = DeriveMsgID parentID (ty @ '':'' @ key) 0 in
     wbind (publishRaw key envelope i) (\<lambda>_. countSent c key i (length txs)))"

text \<open>The inner loop over the fields of one transaction; \<open>Inl None\<close> is the panic of the remainder.\<close>

fun bucketTx :: "spliter \<Rightarrow> Transaction \<Rightarrow> string list \<Rightarrow> (bucketKey, Transaction list) gomap
    \<Rightarrow> gerr option + (bucketKey, Transaction list) gomap" where
  "bucketTx w tx [] m = Inr m"
| "bucketTx w tx (field # fs) m =
     (let value = GetTransactionField tx field in
      if value = '''' then Inl (Some (Errorf ''transaction missing routing field'' []))
      else case shardByValue w value of
        None \<Rightarrow> Inl None
      | Some key \<Rightarrow>
         let bk = \<lparr>txType = GetTypeTxQ4ByField field, routingKey = key\<rparr> in
         bucketTx w tx fs (mput bk (mgetd [] m bk @ [tx]) m))"

fun bucketAll :: "spliter \<Rightarrow> Transaction list \<Rightarrow> (bucketKey, Transaction list) gomap
    \<Rightarrow> gerr option + (bucketKey, Transaction list) gomap" where
  "bucketAll w [] m = Inr m"
| "bucketAll w (tx # txs) m =
     (case bucketTx w tx (fieldsToRouteBy w) m of Inl e \<Rightarrow> Inl e | Inr m' \<Rightarrow> bucketAll w txs m')"

fun Spliter_sendAll :: "InternalEnvelope \<Rightarrow> (bucketKey, Transaction list) gomap \<Rightarrow> (unit, unit) act" where
  "Spliter_sendAll env [] = wresult (Inr ())"
| "Spliter_sendAll env ((bk, txs) # m) =
     wbind (sendPhaseOneBatch (ClientId env) (txType bk) (routingKey bk) txs (MsgID env)) (\<lambda>_.
     Spliter_sendAll env m)"

definition Spliter_handleTransactionBatchMessage :: "spliter \<Rightarrow> unit wnode handler" where
  "Spliter_handleTransactionBatchMessage w env =
     wbind (wresult (DecodeTransactionBatch (Payload env))) (\<lambda>txs.
     case bucketAll w txs [] of
       Inl None \<Rightarrow> wpanic
     | Inl (Some e) \<Rightarrow> wresult (Inl e)
     | Inr m \<Rightarrow>
         wbind (Spliter_sendAll env (spOrder w m)) (\<lambda>_.
         countReceived (ClientId env) (MsgID env) (length txs)))"

definition Spliter_handleEOFMessage :: "spliter \<Rightarrow> nat \<Rightarrow> unit wnode handler" where
  "Spliter_handleEOFMessage w ack = handleEOF (spCfg w) (Spliter_sources w) (Spliter_callbacks w) ack"

definition Spliter_handlers :: "spliter \<Rightarrow> nat \<Rightarrow> (MsgType, unit wnode handler) gomap" where
  "Spliter_handlers w ack =
     [(MsgTransactionsBatch, Spliter_handleTransactionBatchMessage w),
      (MsgTransactionsEOF, Spliter_handleEOFMessage w ack)]"

definition Spliter_handleMessage :: "spliter \<Rightarrow> unit dispatcher" where
  "Spliter_handleMessage w msg ack = Dispatch nodePub putPub (Spliter_handlers w ack) msg"

definition Spliter_Start :: "spliter \<Rightarrow> fs \<Rightarrow> net \<Rightarrow> unit wnode" where
  "Spliter_Start w = bootNode (spCfg w) (Spliter_sources w) ()"

definition Spliter_Run :: "spliter \<Rightarrow> nodeInput list \<Rightarrow> unit wnode \<Rightarrow> unit wnode" where
  "Spliter_Run w = nodeRun (Spliter_sources w) (Spliter_handleMessage w) (Spliter_callbacks w)"

section \<open>Router and spliter as stages\<close>

definition batchPubn :: "InternalEnvelope \<Rightarrow> KeyType \<Rightarrow> bytes \<Rightarrow> nat \<Rightarrow> pubn" where
  "batchPubn env key payload n =
     \<lparr>pbType = MsgTransactionsBatch, pbKey = key, pbPayload = payload,
      pbId = DeriveMsgID (MsgID env) key 0, pbCount = n\<rparr>"

fun Router_emits :: "InternalEnvelope \<Rightarrow> (string, Transaction list) gomap \<Rightarrow> effect list" where
  "Router_emits env [] = []"
| "Router_emits env ((key, txs) # m) =
     (case EncodeTransactionBatch txs of
        Inl e \<Rightarrow> [Abort]
      | Inr payload \<Rightarrow> Emit (batchPubn env key payload (length txs)) # Router_emits env m)"

definition Router_effects :: "router \<Rightarrow> InternalEnvelope \<Rightarrow> effect list" where
  "Router_effects w env =
     (case DecodeTransactionBatch (Payload env) of
        Inl e \<Rightarrow> [Abort]
      | Inr txs \<Rightarrow> Receive (length txs) #
          (case routeAll w txs [] of None \<Rightarrow> [Boom] | Some m \<Rightarrow> Router_emits env (roOrder w m)))"

lemma Router_sendAll_effects:
  "alike (Router_sendAll env m s) (runEffects (ClientId env) (MsgID env) (Router_emits env m) s)"
proof (induction env m arbitrary: s rule: Router_sendAll.induct)
  case (2 env key txs m)
  show ?case
  proof (cases "EncodeTransactionBatch txs")
    case (Inr payload)
    with 2 show ?thesis
      by (simp add: wbind_def [of "wresult (Inr payload)"] wresult_def [of "Inr payload"])
        (rule alike_wbind; simp add: Router_encodeAndSendBatch_def publishCounted_def batchPubn_def)
  qed (simp add: alike_def wbind_def wresult_def)
qed simp

interpretation router: stage_node "Router_handleTransactionMessage w" "Router_effects w" "roCfg w" None
    "Router_handlers w" for w
proof
  fix env :: InternalEnvelope and s :: "unit wnode"
  show "alike (Router_handleTransactionMessage w env s)
     (runEffects (ClientId env) (MsgID env) (Router_effects w env) s)"
  proof (cases "DecodeTransactionBatch (Payload env)")
    case (Inr txs)
    show ?thesis
    proof (cases "routeAll w txs []")
      case None
      with Inr show ?thesis
        by (simp add: Router_handleTransactionMessage_def Router_effects_def wbind_def wresult_def countReceived_def
            wmodify_def alike_def wpanic_def)
    next
      case (Some m)
      with Inr show ?thesis
        using Router_sendAll_effects [of env "roOrder w m"]
        by (simp add: Router_handleTransactionMessage_def Router_effects_def wbind_def wresult_def countReceived_def
            wmodify_def)
    qed
  qed (simp add: Router_handleTransactionMessage_def Router_effects_def wbind_def wresult_def alike_def)
qed (simp_all add: Router_handlers_def)

definition phaseOnePubn :: "InternalEnvelope \<Rightarrow> bucketKey \<Rightarrow> bytes \<Rightarrow> nat \<Rightarrow> pubn" where
  "phaseOnePubn env bk payload n =
     \<lparr>pbType = MsgTxQ4, pbKey = routingKey bk, pbPayload = payload,
      pbId = DeriveMsgID (MsgID env) (txType bk @ '':'' @ routingKey bk) 0, pbCount = n\<rparr>"

fun Spliter_emits :: "InternalEnvelope \<Rightarrow> (bucketKey, Transaction list) gomap \<Rightarrow> effect list" where
  "Spliter_emits env [] = []"
| "Spliter_emits env ((bk, txs) # m) =
     (case rbind (writeString (txType bk)) (\<lambda>b. rbind (EncodeTransactionBatch txs) (\<lambda>tb. Inr (b @ tb))) of
        Inl e \<Rightarrow> [Abort]
      | Inr payload \<Rightarrow> Emit (phaseOnePubn env bk payload (length txs)) # Spliter_emits env m)"

definition Spliter_effects :: "spliter \<Rightarrow> InternalEnvelope \<Rightarrow> effect list" where
  "Spliter_effects w env =
     (case DecodeTransactionBatch (Payload env) of
        Inl e \<Rightarrow> [Abort]
      | Inr txs \<Rightarrow>
          (case bucketAll w txs [] of
             Inl None \<Rightarrow> [Boom]
           | Inl (Some e) \<Rightarrow> [Abort]
           | Inr m \<Rightarrow> Spliter_emits env (spOrder w m) @ [Receive (length txs)]))"

lemma publishRaw_envelope:
  assumes "length c = 16"
  shows "publishRaw key (EncodeInternalEnvelope (internalEnvelope t c payload)) i = publishWithID c t key payload i"
proof -
  have "SetEnvelopeMsgID (EncodeInternalEnvelope (internalEnvelope t c payload)) i
      = EncodeInternalEnvelope \<lparr>MsgType = t, ClientId = c, MsgID = i, Payload = payload\<rparr>"
    using assms
    by (simp add: SetEnvelopeMsgID_def InternalHeaderSize_def EncodeInternalEnvelope_def internalEnvelope_def)
  then show ?thesis
    by (simp add: fun_eq_iff publishRaw_def publishWithID_def PublishRawWithID_def PublishInternalWithID_def)
qed

lemma sendPhaseOneBatch_effects:
  assumes "length (ClientId env) = 16"
  shows "alike (sendPhaseOneBatch (ClientId env) (txType bk) (routingKey bk) txs (MsgID env) s)
    (case rbind (writeString (txType bk)) (\<lambda>b. rbind (EncodeTransactionBatch txs) (\<lambda>tb. Inr (b @ tb))) of
       Inl e \<Rightarrow> (Inl e, s) | Inr payload \<Rightarrow> publishCounted (ClientId env) (phaseOnePubn env bk payload (length txs)) s)"
  by (cases "writeString (txType bk)"; cases "EncodeTransactionBatch txs")
    (simp_all add: sendPhaseOneBatch_def EncodeTxQ4PhaseOneBatchEnvelope_def wbind_def wresult_def alike_def Let_def
      publishRaw_envelope [OF assms] publishCounted_def phaseOnePubn_def)

lemma Spliter_sendAll_effects:
  "length (ClientId env) = 16 \<Longrightarrow>
     alike (Spliter_sendAll env m s) (runEffects (ClientId env) (MsgID env) (Spliter_emits env m) s)"
proof (induction env m arbitrary: s rule: Spliter_sendAll.induct)
  case (2 env bk txs m)
  note head = sendPhaseOneBatch_effects [OF 2(2), of bk txs s]
  show ?case
  proof (cases "rbind (writeString (txType bk)) (\<lambda>b. rbind (EncodeTransactionBatch txs) (\<lambda>tb. Inr (b @ tb)))")
    case (Inl e)
    with head obtain e' where "sendPhaseOneBatch (ClientId env) (txType bk) (routingKey bk) txs (MsgID env) s = (Inl e', s)"
      by (cases "sendPhaseOneBatch (ClientId env) (txType bk) (routingKey bk) txs (MsgID env) s")
        (auto simp: alike_def isl_def)
    with Inl show ?thesis by (simp add: wbind_def wresult_def alike_def)
  next
    case (Inr payload)
    with head 2 show ?thesis by (auto intro!: alike_wbind)
  qed
qed simp

interpretation spliter: stage_node "Spliter_handleTransactionBatchMessage w" "Spliter_effects w" "spCfg w" None
    "Spliter_handlers w" for w
proof
  fix env :: InternalEnvelope and s :: "unit wnode"
  assume len: "length (ClientId env) = 16"
  show "alike (Spliter_handleTransactionBatchMessage w env s)
     (runEffects (ClientId env) (MsgID env) (Spliter_effects w env) s)"
  proof (cases "DecodeTransactionBatch (Payload env)")
    case (Inr txs)
    show ?thesis
    proof (cases "bucketAll w txs []")
      case (Inl e)
      with Inr show ?thesis
        by (cases e) (simp_all add: Spliter_handleTransactionBatchMessage_def Spliter_effects_def wbind_def wresult_def
            alike_def wpanic_def)
    next
      case m: (Inr m)
      have "alike (wbind (Spliter_sendAll env (spOrder w m)) (\<lambda>_. countReceived (ClientId env) (MsgID env) (length txs)) s)
          (wbind (runEffects (ClientId env) (MsgID env) (Spliter_emits env (spOrder w m)))
             (\<lambda>_. runEffects (ClientId env) (MsgID env) [Receive (length txs)]) s)"
        by (rule alike_wbind [where m = "Spliter_sendAll env (spOrder w m)"])
          (simp_all add: Spliter_sendAll_effects [OF len] wbind_def wresult_def countReceived_def wmodify_def)
      with Inr m show ?thesis
        by (simp add: Spliter_handleTransactionBatchMessage_def Spliter_effects_def wbind_def [of "wresult (Inr txs)"]
            wresult_def [of "Inr txs"] runEffects_append)
    qed
  qed (simp add: Spliter_handleTransactionBatchMessage_def Spliter_effects_def wbind_def wresult_def alike_def)
qed (simp_all add: Spliter_handlers_def)

end
