(* ===== verification/Float64.thy ===== *)
theory Float64
  imports Models
begin

text \<open>
  IEEE-754 double precision on bit patterns, as far as the workers use Go's \<open>float64\<close>: the
  comparisons, and sums, products and quotients rounded to nearest, ties to even. A finite number is
  its sign, significand and exponent: \<open>(-1)^s * m * 2^e\<close>.
\<close>

unbundle bit_operations_syntax

section \<open>Fields\<close>

definition fl_sign :: "float64 \<Rightarrow> bool" where "fl_sign x \<longleftrightarrow> bit x 63"
definition fl_exp :: "float64 \<Rightarrow> int" where "fl_exp x = uint (take_bit 11 (drop_bit 52 x))"
definition fl_frac :: "float64 \<Rightarrow> int" where "fl_frac x = uint (take_bit 52 x)"

definition fl_isNaN :: "float64 \<Rightarrow> bool" where "fl_isNaN x \<longleftrightarrow> fl_exp x = 2047 \<and> fl_frac x \<noteq> 0"
definition fl_isInf :: "float64 \<Rightarrow> bool" where "fl_isInf x \<longleftrightarrow> fl_exp x = 2047 \<and> fl_frac x = 0"

text \<open>The magnitude bits order the non-negative numbers, infinities included.\<close>

definition fl_key :: "float64 \<Rightarrow> int" where
  "fl_key x = (if fl_sign x then - uint (take_bit 63 x) else uint (take_bit 63 x))"

definition fl_less :: "float64 \<Rightarrow> float64 \<Rightarrow> bool" where
  "fl_less x y \<longleftrightarrow> \<not> fl_isNaN x \<and> \<not> fl_isNaN y \<and> fl_key x < fl_key y"

definition fl_le :: "float64 \<Rightarrow> float64 \<Rightarrow> bool" where
  "fl_le x y \<longleftrightarrow> \<not> fl_isNaN x \<and> \<not> fl_isNaN y \<and> fl_key x \<le> fl_key y"

definition fl_eq :: "float64 \<Rightarrow> float64 \<Rightarrow> bool" where
  "fl_eq x y \<longleftrightarrow> \<not> fl_isNaN x \<and> \<not> fl_isNaN y \<and> fl_key x = fl_key y"

section \<open>Rounding\<close>

definition fl_mk :: "bool \<Rightarrow> int \<Rightarrow> int \<Rightarrow> float64" where
  "fl_mk s e f = word_of_int ((if s then 2 ^ 63 else 0) + e * 2 ^ 52 + f)"

definition fl_NaN :: float64 where "fl_NaN = fl_mk False 2047 (2 ^ 51)"
definition fl_inf :: "bool \<Rightarrow> float64" where "fl_inf s = fl_mk s 2047 0"
definition fl_zero :: "bool \<Rightarrow> float64" where "fl_zero s = fl_mk s 0 0"

text \<open>The nearest integer to \<open>n / d\<close>, ties to even.\<close>

definition rne :: "int \<Rightarrow> int \<Rightarrow> int" where
  "rne n d =
     (let q = n div d; r = n mod d in
      if 2 * r < d \<or> (2 * r = d \<and> even q) then q else q + 1)"

fun bitlen :: "int \<Rightarrow> int" where
  "bitlen n = (if n \<le> 0 then 0 else 1 + bitlen (n div 2))"

declare bitlen.simps [simp del]

definition scaled :: "int \<Rightarrow> int \<Rightarrow> int \<Rightarrow> int \<times> int" where
  "scaled n d k = (if 0 \<le> k then (n * 2 ^ nat k, d) else (n, d * 2 ^ nat (- k)))"

text \<open>
  \<open>n / d * 2^e\<close> rounded to a double, for \<open>n, d > 0\<close>: \<open>l\<close> is the exponent of the quotient's leading
  bit, \<open>p\<close> that of the last place, chosen so that the significand has 53 bits or is subnormal.
\<close>

definition fl_round :: "bool \<Rightarrow> int \<Rightarrow> int \<Rightarrow> int \<Rightarrow> float64" where
  "fl_round s n d e =
     (let l0 = bitlen n - bitlen d;
          l = (case scaled n d (- l0) of (a, b) \<Rightarrow> if a < b then l0 - 1 else l0);
          p = max (l + e - 52) (- 1074);
          m = (case scaled n d (e - p) of (a, b) \<Rightarrow> rne a b) in
      if m < 2 ^ 52 then fl_mk s 0 m
      else if m < 2 ^ 53 then (if 971 < p then fl_inf s else fl_mk s (p + 1075) (m - 2 ^ 52))
      else if 970 < p then fl_inf s else fl_mk s (p + 1076) 0)"

section \<open>Arithmetic\<close>

definition fl_mant :: "float64 \<Rightarrow> int" where
  "fl_mant x = (if fl_exp x = 0 then fl_frac x else 2 ^ 52 + fl_frac x)"

definition fl_pow :: "float64 \<Rightarrow> int" where
  "fl_pow x = (if fl_exp x = 0 then - 1074 else fl_exp x - 1075)"

definition fl_mul :: "float64 \<Rightarrow> float64 \<Rightarrow> float64" where
  "fl_mul x y =
     (let s = (fl_sign x \<noteq> fl_sign y) in
      if fl_isNaN x \<or> fl_isNaN y then fl_NaN
      else if fl_isInf x then (if \<not> fl_isInf y \<and> fl_mant y = 0 then fl_NaN else fl_inf s)
      else if fl_isInf y then (if fl_mant x = 0 then fl_NaN else fl_inf s)
      else if fl_mant x = 0 \<or> fl_mant y = 0 then fl_zero s
      else fl_round s (fl_mant x * fl_mant y) 1 (fl_pow x + fl_pow y))"

definition fl_div :: "float64 \<Rightarrow> float64 \<Rightarrow> float64" where
  "fl_div x y =
     (let s = (fl_sign x \<noteq> fl_sign y) in
      if fl_isNaN x \<or> fl_isNaN y then fl_NaN
      else if fl_isInf x then (if fl_isInf y then fl_NaN else fl_inf s)
      else if fl_isInf y then fl_zero s
      else if fl_mant y = 0 then (if fl_mant x = 0 then fl_NaN else fl_inf s)
      else if fl_mant x = 0 then fl_zero s
      else fl_round s (fl_mant x) (fl_mant y) (fl_pow x - fl_pow y))"

definition fl_signed :: "float64 \<Rightarrow> int \<Rightarrow> int" where
  "fl_signed x p = (if fl_sign x then -1 else 1) * (fl_mant x * 2 ^ nat (fl_pow x - p))"

definition fl_add :: "float64 \<Rightarrow> float64 \<Rightarrow> float64" where
  "fl_add x y =
     (if fl_isNaN x \<or> fl_isNaN y then fl_NaN
      else if fl_isInf x then (if fl_isInf y \<and> fl_sign x \<noteq> fl_sign y then fl_NaN else x)
      else if fl_isInf y then y
      else
        let p = min (fl_pow x) (fl_pow y); z = fl_signed x p + fl_signed y p in
        if z = 0 then fl_zero (fl_sign x \<and> fl_sign y)
        else fl_round (z < 0) \<bar>z\<bar> 1 p)"

end
