(* ===== verification/Filters.thy ===== *)
theory Filters
  imports Liveness Transit Float64
begin

text \<open>
  The stateless filters of \<open>workers/filter\<close>: \<open>date_range.go\<close> keeps the transactions of a period and
  splits them by currency, \<open>syncfilter.go\<close> with \<open>service.go\<close> keeps those that pass a comparison of
  the amount or a set of payment formats, and for query 1 turns them into results.
\<close>

section \<open>DateRange (date_range.go)\<close>

definition Dollar :: string where "Dollar = ''US Dollar''"

record dateRange =
  drCfg :: workerCfg
  fromDate :: string
  toDate :: string

definition DateRange_sources :: "dateRange \<Rightarrow> worker sources" where
  "DateRange_sources w = workerSources (drCfg w) None"

definition DateRange_onflush :: "dateRange \<Rightarrow> uuid \<Rightarrow> (unit, unit) act" where
  "DateRange_onflush w = onflush (DateRange_sources w)"

definition DateRange_onRetryExceeded :: "dateRange \<Rightarrow> uuid \<Rightarrow> (unit, unit) act" where
  "DateRange_onRetryExceeded w c =
     wbind (wresult (EncodeEOFCounts flushCounts)) (\<lambda>payload.
     publishWithID c MsgTransactionsEOF KeyControlEOF payload (StageMsgID c (WorkerPrefix (drCfg w)) ''eof'' 0))"

definition DateRange_onLeaderFlush :: "dateRange \<Rightarrow> uuid \<Rightarrow> (KeyType, goint) gomap \<Rightarrow> (unit, unit) act" where
  "DateRange_onLeaderFlush w c finalSent =
     wbind (wresult (EncodeEOFCounts finalSent)) (\<lambda>payload.
     publishWithID c MsgTransactionsEOF KeyControlEOF payload (StageMsgID c (WorkerPrefix (drCfg w)) ''eof'' 0))"

definition DateRange_callbacks :: "dateRange \<Rightarrow> unit callbacks" where
  "DateRange_callbacks w =
     \<lparr>cbFlush = DateRange_onflush w, cbLeaderFlush = DateRange_onLeaderFlush w,
      cbRetryExceeded = DateRange_onRetryExceeded w\<rparr>"

definition filterTransactionByDate :: "dateRange \<Rightarrow> Transaction \<Rightarrow> bool" where
  "filterTransactionByDate w tx \<longleftrightarrow>
     Timestamp tx \<noteq> '''' \<and> \<not> (Timestamp tx < fromDate w \<or> Timestamp tx > toDate w)"

text \<open>\<open>sendMessageToBroker\<close> and \<open>sendTransactionBatch\<close> return a flag instead of the error.\<close>

definition DateRange_sendMessageToBroker ::
  "MsgType \<Rightarrow> uuid \<Rightarrow> bytes \<Rightarrow> KeyType \<Rightarrow> nat \<Rightarrow> MsgID \<Rightarrow> (unit, bool) act" where
  "DateRange_sendMessageToBroker msgType c payload key payloadLen i s =
     (case publishWithID c msgType key payload i s of
        (Inl e, s') \<Rightarrow> (Inr False, s')
      | (Inr _, s') \<Rightarrow> wbind (countSent c key i payloadLen) (\<lambda>_. wresult (Inr True)) s')"

definition DateRange_sendTransactionBatch ::
  "Transaction list \<Rightarrow> uuid \<Rightarrow> KeyType \<Rightarrow> MsgID \<Rightarrow> (unit, bool) act" where
  "DateRange_sendTransactionBatch txs c key parentID =
     (if txs = [] then wresult (Inr True)
      else case EncodeTransactionBatch txs of
        Inl e \<Rightarrow> wresult (Inr False)
      | Inr payload \<Rightarrow>
          DateRange_sendMessageToBroker MsgTransactionsBatch c payload key (length txs) (DeriveMsgID parentID key 0))"

fun splitByCurrency :: "dateRange \<Rightarrow> Transaction list \<Rightarrow> Transaction list \<times> Transaction list
    \<Rightarrow> Transaction list \<times> Transaction list" where
  "splitByCurrency w [] acc = acc"
| "splitByCurrency w (tx # txs) (dollarTx, nonDollarTx) =
     splitByCurrency w txs
       (if filterTransactionByDate w tx
        then (if PaymentCurrency tx = Dollar then (dollarTx @ [tx], nonDollarTx)
              else (dollarTx, nonDollarTx @ [tx]))
        else (dollarTx, nonDollarTx))"

definition DateRange_handleTransactionsBatchMessage :: "dateRange \<Rightarrow> unit wnode handler" where
  "DateRange_handleTransactionsBatchMessage w env =
     wbind (wresult (DecodeTransactionBatch (Payload env))) (\<lambda>txs.
     case splitByCurrency w txs ([], []) of (dollarTx, nonDollarTx) \<Rightarrow>
       wbind (DateRange_sendTransactionBatch dollarTx (ClientId env) KeyDollarTransaction (MsgID env)) (\<lambda>ok1.
       if \<not> ok1 then wresult (Inl (Errorf ''error sending dollar transaction batch to broker'' []))
       else
       wbind (DateRange_sendTransactionBatch nonDollarTx (ClientId env) KeyNonDollarTransaction (MsgID env)) (\<lambda>ok2.
       if \<not> ok2 then wresult (Inl (Errorf ''error sending non-dollar transaction batch to broker'' []))
       else countReceived (ClientId env) (MsgID env) (length txs))))"

definition DateRange_handleEOFMessage :: "dateRange \<Rightarrow> nat \<Rightarrow> unit wnode handler" where
  "DateRange_handleEOFMessage w ack = handleEOF (drCfg w) (DateRange_sources w) (DateRange_callbacks w) ack"

definition DateRange_handlers :: "dateRange \<Rightarrow> nat \<Rightarrow> (MsgType, unit wnode handler) gomap" where
  "DateRange_handlers w ack =
     [(MsgTransactionsBatch, DateRange_handleTransactionsBatchMessage w),
      (MsgTransactionsEOF, DateRange_handleEOFMessage w ack)]"

definition DateRange_handleMessage :: "dateRange \<Rightarrow> unit dispatcher" where
  "DateRange_handleMessage w msg ack = Dispatch nodePub putPub (DateRange_handlers w ack) msg"

definition DateRange_Start :: "dateRange \<Rightarrow> fs \<Rightarrow> net \<Rightarrow> unit wnode" where
  "DateRange_Start w = bootNode (drCfg w) (DateRange_sources w) ()"

definition DateRange_Run :: "dateRange \<Rightarrow> nodeInput list \<Rightarrow> unit wnode \<Rightarrow> unit wnode" where
  "DateRange_Run w = nodeRun (DateRange_sources w) (DateRange_handleMessage w) (DateRange_callbacks w)"

section \<open>Predicates (service.go)\<close>

definition filterTransactionByAmount :: "Transaction \<Rightarrow> string \<Rightarrow> float64 \<Rightarrow> bool" where
  "filterTransactionByAmount tx operator v =
     (if operator = ''>'' then fl_less v (AmountPaid tx)
      else if operator = ''<'' then fl_less (AmountPaid tx) v
      else if operator = ''=='' then fl_eq (AmountPaid tx) v
      else False)"

definition filterTransactionByFormat :: "Transaction \<Rightarrow> string \<Rightarrow> string list \<Rightarrow> bool" where
  "filterTransactionByFormat tx operator values =
     (if PaymentFormat tx = '''' then False
      else if operator = ''=='' then PaymentFormat tx \<in> set values
      else if operator = ''!='' then PaymentFormat tx \<notin> set values
      else False)"

definition filterTransaction :: "Transaction \<Rightarrow> string \<Rightarrow> string \<Rightarrow> float64 \<Rightarrow> string list \<Rightarrow> bool" where
  "filterTransaction tx filterType operator floatValue stringValues =
     (if filterType = ''amount'' then filterTransactionByAmount tx operator floatValue
      else if filterType = ''format'' then filterTransactionByFormat tx operator stringValues
      else False)"

section \<open>SyncFilter (syncfilter.go)\<close>

record syncFilter =
  sfCfg :: workerCfg
  sfType :: string
  sfOperator :: string
  ValueFloat :: float64
  ValueStrings :: "string list"

definition Query1 :: int where "Query1 = 1"

definition SyncFilter_sources :: "syncFilter \<Rightarrow> worker sources" where
  "SyncFilter_sources w = workerSources (sfCfg w) None"

definition SyncFilter_onflush :: "syncFilter \<Rightarrow> uuid \<Rightarrow> (unit, unit) act" where
  "SyncFilter_onflush w = onflush (SyncFilter_sources w)"

definition resolveEOFMessage :: "syncFilter \<Rightarrow> (KeyType, goint) gomap \<Rightarrow> (MsgType \<times> KeyType \<times> bytes) result" where
  "resolveEOFMessage w finalSent =
     (if Query (sfCfg w) = Query1 then Inr (MsgQuery1ResultEOF, KeyNil, [])
      else rbind (wrapf ''encoding EOF counts for EOF envelope'' [] (EncodeEOFCounts finalSent)) (\<lambda>payload.
           Inr (MsgTransactionsEOF, KeyControlEOF, payload)))"

definition resolveEOFOnRetryExceeded :: "syncFilter \<Rightarrow> (MsgType \<times> KeyType \<times> bytes) result" where
  "resolveEOFOnRetryExceeded w =
     (if Query (sfCfg w) = Query1 then Inr (MsgQuery1ResultEOF, KeyNil, [])
      else rbind (EncodeEOFCounts flushCounts) (\<lambda>payload. Inr (MsgTransactionsEOF, KeyControlEOF, payload)))"

definition SyncFilter_onLeaderFlush :: "syncFilter \<Rightarrow> uuid \<Rightarrow> (KeyType, goint) gomap \<Rightarrow> (unit, unit) act" where
  "SyncFilter_onLeaderFlush w c finalSent =
     wbind (wresult (resolveEOFMessage w finalSent)) (\<lambda>(msgType, key, payload).
     publishWithID c msgType key payload (StageMsgID c (WorkerPrefix (sfCfg w)) ''eof'' 0))"

definition SyncFilter_onRetryExceeded :: "syncFilter \<Rightarrow> uuid \<Rightarrow> (unit, unit) act" where
  "SyncFilter_onRetryExceeded w c =
     wbind (wresult (resolveEOFOnRetryExceeded w)) (\<lambda>(msgType, key, payload).
     publishWithID c msgType key payload (StageMsgID c (WorkerPrefix (sfCfg w)) ''eof'' 0))"

definition SyncFilter_callbacks :: "syncFilter \<Rightarrow> unit callbacks" where
  "SyncFilter_callbacks w =
     \<lparr>cbFlush = SyncFilter_onflush w, cbLeaderFlush = SyncFilter_onLeaderFlush w,
      cbRetryExceeded = SyncFilter_onRetryExceeded w\<rparr>"

definition passes :: "syncFilter \<Rightarrow> Transaction \<Rightarrow> bool" where
  "passes w tx = filterTransaction tx (sfType w) (sfOperator w) (ValueFloat w) (ValueStrings w)"

definition SyncFilter_encodeAndSendBatch :: "uuid \<Rightarrow> MsgType \<Rightarrow> bytes \<Rightarrow> nat \<Rightarrow> MsgID \<Rightarrow> (unit, unit) act" where
  "SyncFilter_encodeAndSendBatch c msgType payload batchLength i =
     wbind (publishWithID c msgType KeyNil payload i) (\<lambda>_. countSent c KeyNil i batchLength)"

definition forwardTransactionBatchMessage :: "syncFilter \<Rightarrow> Transaction list \<Rightarrow> uuid \<Rightarrow> MsgID \<Rightarrow> (unit, unit) act" where
  "forwardTransactionBatchMessage w txs c parentID =
     wbind (countReceived c parentID (length txs)) (\<lambda>_.
     let filteredTx = filter (passes w) txs in
     if filteredTx = [] then wresult (Inr ())
     else
       wbind (wresult (wrapf ''encoding filtered transaction batch'' [] (EncodeTransactionBatch filteredTx))) (\<lambda>payload.
       SyncFilter_encodeAndSendBatch c MsgTransactionsBatch payload (length filteredTx)
         (DeriveMsgID parentID KeyNil 0)))"

definition toQuery1Result :: "Transaction \<Rightarrow> Query1Result" where
  "toQuery1Result tx =
     \<lparr>q1FromBank = FromBank tx, q1FromAccount = FromAccount tx, q1ToBank = ToBank tx,
      q1ToAccount = ToAccount tx, q1AmountPaid = AmountPaid tx\<rparr>"

definition forwardQuery1ResultBatchMessage :: "syncFilter \<Rightarrow> Transaction list \<Rightarrow> uuid \<Rightarrow> MsgID \<Rightarrow> (unit, unit) act" where
  "forwardQuery1ResultBatchMessage w txs c parentID =
     wbind (countReceived c parentID (length txs)) (\<lambda>_.
     let results = map toQuery1Result (filter (passes w) txs) in
     if results = [] then wresult (Inr ())
     else
       wbind (wresult (wrapf ''encoding query1 result batch'' [] (EncodeQuery1ResultBatch results))) (\<lambda>payload.
       SyncFilter_encodeAndSendBatch c MsgQuery1Result payload (length results)
         (DeriveMsgID parentID KeyNil 0)))"

text \<open>Wrapping the error of a call: \<open>return fmt.Errorf("...: %w", err)\<close>.\<close>

definition wwrap :: "string \<Rightarrow> ('x, 'a) act \<Rightarrow> ('x, 'a) act" where
  "wwrap msg m s = (case m s of (r, s') \<Rightarrow> (wrapf msg [] r, s'))"

definition SyncFilter_handleTransactionsBatchMessage :: "syncFilter \<Rightarrow> unit wnode handler" where
  "SyncFilter_handleTransactionsBatchMessage w env =
     wbind (wresult (wrapf ''decoding transaction batch'' [] (DecodeTransactionBatch (Payload env)))) (\<lambda>txs.
     if Query (sfCfg w) = Query1
     then wwrap ''forwarding query1 result batch'' (forwardQuery1ResultBatchMessage w txs (ClientId env) (MsgID env))
     else wwrap ''forwarding transaction batch'' (forwardTransactionBatchMessage w txs (ClientId env) (MsgID env)))"

definition SyncFilter_handleEOFMessage :: "syncFilter \<Rightarrow> nat \<Rightarrow> unit wnode handler" where
  "SyncFilter_handleEOFMessage w ack = handleEOF (sfCfg w) (SyncFilter_sources w) (SyncFilter_callbacks w) ack"

definition SyncFilter_handlers :: "syncFilter \<Rightarrow> nat \<Rightarrow> (MsgType, unit wnode handler) gomap" where
  "SyncFilter_handlers w ack =
     [(MsgTransactionsBatch, SyncFilter_handleTransactionsBatchMessage w),
      (MsgTransactionsEOF, SyncFilter_handleEOFMessage w ack)]"

definition SyncFilter_handleMessage :: "syncFilter \<Rightarrow> unit dispatcher" where
  "SyncFilter_handleMessage w msg ack s =
     (if ContentType msg \<noteq> ContentTypeBinary
      then Some (uuid_Nil, 0, Some (Errorf ''unexpected content type'' []), s)
      else Dispatch nodePub putPub (SyncFilter_handlers w ack) msg s)"

definition SyncFilter_Start :: "syncFilter \<Rightarrow> fs \<Rightarrow> net \<Rightarrow> unit wnode" where
  "SyncFilter_Start w = bootNode (sfCfg w) (SyncFilter_sources w) ()"

definition SyncFilter_Run :: "syncFilter \<Rightarrow> nodeInput list \<Rightarrow> unit wnode \<Rightarrow> unit wnode" where
  "SyncFilter_Run w = nodeRun (SyncFilter_sources w) (SyncFilter_handleMessage w) (SyncFilter_callbacks w)"

section \<open>The filters as stages\<close>

definition DateRange_emits :: "InternalEnvelope \<Rightarrow> KeyType \<Rightarrow> Transaction list \<Rightarrow> effect list" where
  "DateRange_emits env key txs =
     (if txs = [] then []
      else case EncodeTransactionBatch txs of
        Inl e \<Rightarrow> [Abort]
      | Inr payload \<Rightarrow>
          [Emit \<lparr>pbType = MsgTransactionsBatch, pbKey = key, pbPayload = payload,
                 pbId = DeriveMsgID (MsgID env) key 0, pbCount = length txs\<rparr>])"

definition DateRange_effects :: "dateRange \<Rightarrow> InternalEnvelope \<Rightarrow> effect list" where
  "DateRange_effects w env =
     (case DecodeTransactionBatch (Payload env) of
        Inl e \<Rightarrow> [Abort]
      | Inr txs \<Rightarrow>
          (case splitByCurrency w txs ([], []) of (dollarTx, nonDollarTx) \<Rightarrow>
             DateRange_emits env KeyDollarTransaction dollarTx
             @ DateRange_emits env KeyNonDollarTransaction nonDollarTx @ [Receive (length txs)]))"

definition requireFlag :: "string \<Rightarrow> ('x, bool) act \<Rightarrow> ('x, unit) act" where
  "requireFlag msg m = wbind m (\<lambda>ok. if \<not> ok then wresult (Inl (Errorf msg [])) else wresult (Inr ()))"

lemma DateRange_send_effects:
  "alike (requireFlag msg (DateRange_sendTransactionBatch txs (ClientId env) key (MsgID env)) s)
     (runEffects (ClientId env) (MsgID env) (DateRange_emits env key txs) s)"
  by (auto simp: requireFlag_def DateRange_sendTransactionBatch_def DateRange_sendMessageToBroker_def DateRange_emits_def
      alike_def wbind_def wresult_def publishCounted_def countSent_def wmodify_def split: sum.splits prod.splits)

lemma wbind_requireFlag:
  "wbind m (\<lambda>ok. if \<not> ok then wresult (Inl (Errorf msg [])) else k) s = wbind (requireFlag msg m) (\<lambda>_. k) s"
  by (auto simp: requireFlag_def wbind_def wresult_def split: prod.split sum.split)

interpretation dateRange: stage_node "DateRange_handleTransactionsBatchMessage w" "DateRange_effects w" "drCfg w" None
    "DateRange_handlers w" for w
proof
  fix env :: InternalEnvelope and s :: "unit wnode"
  show "alike (DateRange_handleTransactionsBatchMessage w env s)
     (runEffects (ClientId env) (MsgID env) (DateRange_effects w env) s)"
  proof (cases "DecodeTransactionBatch (Payload env)")
    case (Inr txs)
    obtain d nd where split: "splitByCurrency w txs ([], []) = (d, nd)" by fastforce
    let ?send = "\<lambda>msg key txs. requireFlag msg (DateRange_sendTransactionBatch txs (ClientId env) key (MsgID env))"
    have "DateRange_handleTransactionsBatchMessage w env s =
        wbind (?send ''error sending dollar transaction batch to broker'' KeyDollarTransaction d) (\<lambda>_.
        wbind (?send ''error sending non-dollar transaction batch to broker'' KeyNonDollarTransaction nd) (\<lambda>_.
        countReceived (ClientId env) (MsgID env) (length txs))) s"
      by (simp add: DateRange_handleTransactionsBatchMessage_def Inr split wbind_def [of "wresult (Inr txs)"]
          wresult_def [of "Inr txs"] wbind_requireFlag [abs_def])
    moreover have "runEffects (ClientId env) (MsgID env) (DateRange_effects w env) s =
        wbind (runEffects (ClientId env) (MsgID env) (DateRange_emits env KeyDollarTransaction d)) (\<lambda>_.
        wbind (runEffects (ClientId env) (MsgID env) (DateRange_emits env KeyNonDollarTransaction nd)) (\<lambda>_.
        runEffects (ClientId env) (MsgID env) [Receive (length txs)])) s"
      by (simp add: DateRange_effects_def Inr split runEffects_append [abs_def])
    ultimately show ?thesis
      by (simp only:) (intro alike_wbind DateRange_send_effects,
          simp add: wbind_def wresult_def countReceived_def wmodify_def)
  qed (simp add: DateRange_handleTransactionsBatchMessage_def DateRange_effects_def wbind_def wresult_def alike_def)
qed (simp_all add: DateRange_handlers_def)

definition SyncFilter_emit :: "InternalEnvelope \<Rightarrow> MsgType \<Rightarrow> 'a list \<Rightarrow> ('a list \<Rightarrow> bytes result) \<Rightarrow> effect list" where
  "SyncFilter_emit env ty xs enc =
     (if xs = [] then []
      else case enc xs of
        Inl e \<Rightarrow> [Abort]
      | Inr payload \<Rightarrow>
          [Emit \<lparr>pbType = ty, pbKey = KeyNil, pbPayload = payload,
                 pbId = DeriveMsgID (MsgID env) KeyNil 0, pbCount = length xs\<rparr>])"

definition SyncFilter_effects :: "syncFilter \<Rightarrow> InternalEnvelope \<Rightarrow> effect list" where
  "SyncFilter_effects w env =
     (case DecodeTransactionBatch (Payload env) of
        Inl e \<Rightarrow> [Abort]
      | Inr txs \<Rightarrow> Receive (length txs) #
          (if Query (sfCfg w) = Query1
           then SyncFilter_emit env MsgQuery1Result (map toQuery1Result (filter (passes w) txs)) EncodeQuery1ResultBatch
           else SyncFilter_emit env MsgTransactionsBatch (filter (passes w) txs) EncodeTransactionBatch))"

lemma SyncFilter_forward_effects:
  "alike (wwrap msg (forwardTransactionBatchMessage w txs (ClientId env) (MsgID env)) s)
     (runEffects (ClientId env) (MsgID env)
        (Receive (length txs) # SyncFilter_emit env MsgTransactionsBatch (filter (passes w) txs) EncodeTransactionBatch) s)"
  "alike (wwrap msg (forwardQuery1ResultBatchMessage w txs (ClientId env) (MsgID env)) s)
     (runEffects (ClientId env) (MsgID env)
        (Receive (length txs) # SyncFilter_emit env MsgQuery1Result (map toQuery1Result (filter (passes w) txs))
           EncodeQuery1ResultBatch) s)"
  by (auto simp: wwrap_def forwardTransactionBatchMessage_def forwardQuery1ResultBatchMessage_def SyncFilter_emit_def
      SyncFilter_encodeAndSendBatch_def alike_def wbind_def wresult_def publishCounted_def countReceived_def countSent_def
      wmodify_def Let_def wrapf_def split: sum.splits prod.splits)

interpretation syncFilter: stage_node "SyncFilter_handleTransactionsBatchMessage w" "SyncFilter_effects w" "sfCfg w" None
    "SyncFilter_handlers w" for w
proof
  fix env :: InternalEnvelope and s :: "unit wnode"
  show "alike (SyncFilter_handleTransactionsBatchMessage w env s)
     (runEffects (ClientId env) (MsgID env) (SyncFilter_effects w env) s)"
    using SyncFilter_forward_effects [where env = env and w = w and s = s]
    by (cases "DecodeTransactionBatch (Payload env)"; cases "Query (sfCfg w) = Query1")
      (simp_all add: SyncFilter_handleTransactionsBatchMessage_def SyncFilter_effects_def wbind_def [of "wresult r" for r]
        wresult_def [of r for r] alike_def)
qed (simp_all add: SyncFilter_handlers_def)

end
