(* ===== verification/StageCounts.thy ===== *)
theory StageCounts
  imports Cleaner Router Filters
begin

text \<open>
  What the EOF protocol relies on at the stages. The cleaner, the router and the amount and format
  filter count a batch as received before they publish its results, the spliter and the date filter
  after; both orders are contracts (locales) with their consequences. The properties are stated for
  runs of a node over any sequence of deliveries and redeliveries, with any pattern of send and disk
  failures and crashes.
\<close>

section \<open>Received counters\<close>

definition receiveFree :: "effect list \<Rightarrow> bool" where
  "receiveFree es \<longleftrightarrow> (\<forall>n. Receive n \<notin> set es)"

lemma rcv_receiveFree: "receiveFree es \<Longrightarrow> rcvOf (snd (runEffects c i es s)) c' = rcvOf s c'"
proof (induction es arbitrary: s)
  case (Cons e es)
  obtain r s1 where r: "runEffect c i e s = (r, s1)" by fastforce
  have "rcvOf s1 c' = rcvOf s c'"
  proof (cases e)
    case (Emit p)
    with r show ?thesis by (cases rule: publishCounted_cases [of c p s]) auto
  qed (use r Cons.prems in \<open>auto simp: receiveFree_def wresult_def wpanic_def\<close>)
  with Cons show ?case by (cases r) (auto simp: wbind_def r receiveFree_def)
qed (simp add: wresult_def)

lemma rcv_first:
  "receiveFree es \<Longrightarrow>
     rcvOf (snd (runEffects c i (Receive n # es) s)) c'
       = (if c' = c then mput i (word_of_nat n) (rcvOf s c) else rcvOf s c')"
  by (simp add: wbind_def countReceived_def wmodify_def rcv_receiveFree)

lemma rcv_last:
  "receiveFree es \<Longrightarrow>
     rcvOf (snd (runEffects c i (es @ [Receive n]) s)) c'
       = (if c' = c \<and> fst (runEffects c i es s) = Inr () then mput i (word_of_nat n) (rcvOf s c) else rcvOf s c')"
  using rcv_receiveFree [of es c i s]
  by (cases "runEffects c i es s"; cases "fst (runEffects c i es s)")
    (auto simp: runEffects_append wbind_def wresult_def countReceived_def wmodify_def)

lemma mput_same: "mget m k = Some v \<Longrightarrow> mput k v m = m"
  by (induction m) (auto split: if_splits)

text \<open>Number of transactions of a batch.\<close>

definition batchSize :: "InternalEnvelope \<Rightarrow> nat option" where
  "batchSize env = (case DecodeTransactionBatch (Payload env) of Inl e \<Rightarrow> None | Inr txs \<Rightarrow> Some (length txs))"

section \<open>Stages that count first\<close>

text \<open>\<open>D\<close> is the set of batches delivered so far; the node has not stopped.\<close>

definition receivedFrom :: "InternalEnvelope set \<Rightarrow> uuid \<Rightarrow> 'x wnode \<Rightarrow> bool" where
  "receivedFrom D c s \<longleftrightarrow> wf_map (rcvOf s c)
     \<and> (\<forall>i n. mget (rcvOf s c) i = Some n \<longleftrightarrow>
          (\<exists>env\<in>D. ClientId env = c \<and> MsgID env = i \<and> map_option word_of_nat (batchSize env) = Some n))
     \<and> (\<forall>i. alreadySeen (nodePub s) c i \<longrightarrow> (\<exists>env\<in>D. ClientId env = c \<and> MsgID env = i \<and> batchSize env \<noteq> None))"

definition sizesAgree :: "uuid \<Rightarrow> InternalEnvelope set \<Rightarrow> bool" where
  "sizesAgree c D \<longleftrightarrow>
     (\<forall>e\<in>D. \<forall>e'\<in>D. ClientId e = c \<longrightarrow> ClientId e' = c \<longrightarrow> MsgID e = MsgID e' \<longrightarrow> batchSize e = batchSize e')"

lemma sizesAgree_mono: "D \<subseteq> D' \<Longrightarrow> sizesAgree c D' \<Longrightarrow> sizesAgree c D"
  unfolding sizesAgree_def by blast

locale counts_first = stage_node +
  assumes first: "batchSize env = Some n \<Longrightarrow> \<exists>es. effects env = Receive n # es \<and> receiveFree es"
    and undecodable: "batchSize env = None \<Longrightarrow> effects env = [Abort]"
begin

lemma received_handle:
  assumes "length (ClientId env) = 16"
  shows "rcvOf (snd (handle env s)) c = (case batchSize env of
      None \<Rightarrow> rcvOf s c
    | Some n \<Rightarrow> if c = ClientId env then mput (MsgID env) (word_of_nat n) (rcvOf s c) else rcvOf s c)"
proof (cases "batchSize env")
  case None
  then show ?thesis by (simp add: handle_state [OF assms] undecodable wbind_def wresult_def)
next
  case (Some n)
  then show ?thesis using first [OF Some] by (auto simp: handle_state [OF assms] rcv_first simp del: runEffects.simps)
qed

lemma handle_error_undecodable:
  "length (ClientId env) = 16 \<Longrightarrow> batchSize env = None \<Longrightarrow> fst (handle env s) \<noteq> Inr ()"
  by (simp add: handle_ok_iff undecodable wbind_def wresult_def)

lemma consume_received:
  assumes b: "batchOf m = Some env" and D: "receivedFrom D c s" and agree: "sizesAgree c (insert env D)"
    and up: "\<not> nodeDown (consumer m a s)"
  shows "receivedFrom (insert env D) c (consumer m a s)"
proof -
  have len: "length (ClientId env) = 16" using b by (auto simp: batchOf_Some intro: decoded_client_length)
  have tab: "mget (rcvOf s c) i = Some n \<longleftrightarrow>
      (\<exists>env\<in>D. ClientId env = c \<and> MsgID env = i \<and> map_option word_of_nat (batchSize env) = Some n)" for i n
    using D by (simp add: receivedFrom_def)
  have grow: "receivedFrom (insert env D) c s'"
    if new: "rcvOf s' c = (case batchSize env of None \<Rightarrow> rcvOf s c
          | Some n \<Rightarrow> if c = ClientId env then mput (MsgID env) (word_of_nat n) (rcvOf s c) else rcvOf s c)"
      and seen: "\<And>i. alreadySeen (nodePub s') c i \<Longrightarrow> alreadySeen (nodePub s) c i
          \<or> (c = ClientId env \<and> i = MsgID env \<and> batchSize env \<noteq> None)" for s'
  proof -
    have "wf_map (rcvOf s' c)" using D by (auto simp: receivedFrom_def new split: option.split)
    moreover have "mget (rcvOf s' c) i = Some n \<longleftrightarrow>
        (\<exists>e\<in>insert env D. ClientId e = c \<and> MsgID e = i \<and> map_option word_of_nat (batchSize e) = Some n)" for i n
    proof (cases "c = ClientId env \<and> i = MsgID env \<and> batchSize env \<noteq> None")
      case True
      then obtain k where k: "batchSize env = Some k" by auto
      have "batchSize e = Some k" if "e \<in> D" "ClientId e = c" "MsgID e = i" for e
        using agree that True k unfolding sizesAgree_def by (metis insert_iff)
      moreover have "rcvOf s' c = mput (MsgID env) (word_of_nat k) (rcvOf s c)" using new True k by simp
      ultimately show ?thesis using True k by auto
    next
      case False
      then have "mget (rcvOf s' c) i = mget (rcvOf s c) i" by (auto simp: new split: option.split)
      moreover have "\<not> (ClientId env = c \<and> MsgID env = i \<and> map_option word_of_nat (batchSize env) = Some n)"
        using False by auto
      ultimately show ?thesis by (simp only: tab) blast
    qed
    moreover have "\<exists>e\<in>insert env D. ClientId e = c \<and> MsgID e = i \<and> batchSize e \<noteq> None"
      if "alreadySeen (nodePub s') c i" for i
      using seen [OF that] D unfolding receivedFrom_def by blast
    ultimately show ?thesis by (simp add: receivedFrom_def)
  qed
  show ?thesis
  proof (cases rule: consume_cases [OF b, where s = s and a = a, case_names Skip Failed Handled])
    case Skip
    have "\<not> nodeDown s" using up by (auto simp: consume_def)
    then have known: "alreadySeen (nodePub s) (ClientId env) (MsgID env)" using Skip(1) by (simp add: skipped_def)
    have same: "rcvOf (consumer m a s) c = rcvOf s c" using Skip(2) by (simp add: sameTables_def)
    have "mput (MsgID env) (word_of_nat n) (rcvOf s c) = rcvOf s c" if "c = ClientId env" "batchSize env = Some n" for n
    proof -
      obtain e where e: "e \<in> D" "ClientId e = c" "MsgID e = MsgID env" "batchSize e \<noteq> None"
        using D known \<open>c = ClientId env\<close> unfolding receivedFrom_def by blast
      then have "batchSize e = Some n" using agree that unfolding sizesAgree_def by (metis insert_iff)
      then have "mget (rcvOf s c) (MsgID env) = Some (word_of_nat n)" using e tab by auto
      then show ?thesis by (rule mput_same)
    qed
    then show ?thesis using Skip(2) same by (intro grow) (auto simp: sameTables_def split: option.split)
  next
    case Failed
    then show ?thesis
      by (intro grow) (auto simp: sameTables_def received_handle [OF len] handle_keeps_pub [OF len])
  next
    case (Handled s2)
    have "batchSize env \<noteq> None" using Handled(2) handle_error_undecodable [OF len] by auto
    moreover have "rcvOf s2 c = rcvOf (snd (handle env s)) c"
      by (simp add: Handled(3) putPub_def rcvOf_def)
    moreover have "alreadySeen (nodePub s2) c i \<Longrightarrow> alreadySeen (nodePub s) c i \<or> (c = ClientId env \<and> i = MsgID env)" for i
      using Handled(3) by (cases "MsgID env = zeroMsgID") (auto simp: putPub_def handle_keeps_pub [OF len])
    ultimately show ?thesis
      using Handled(4) by (intro grow) (auto simp: sameTables_def received_handle [OF len])
  qed
qed

lemma consumer_down: "nodeDown s \<Longrightarrow> consumer m a s = s"
  by (simp add: consume_def)

lemma batches_received:
  assumes "\<forall>(m, a)\<in>set ds. batchOf m \<noteq> None" "sizesAgree c (the ` batchOf ` fst ` set ds)" "receivedFrom {} c s"
    "\<not> nodeDown (fold (\<lambda>(m, a) s. consumer m a s) ds s)"
  shows "receivedFrom (the ` batchOf ` fst ` set ds) c (fold (\<lambda>(m, a) s. consumer m a s) ds s)"
  using assms(1,2,4)
proof (induction ds rule: rev_induct)
  case (snoc d ds)
  obtain m a where d: "d = (m, a)" by (cases d)
  from snoc.prems(1) d obtain env where env: "batchOf m = Some env" by auto
  let ?s = "fold (\<lambda>(m, a) s. consumer m a s) ds s"
  have up: "\<not> nodeDown (consumer m a ?s)" using snoc.prems(3) by (simp add: d)
  then have "\<not> nodeDown ?s" using consumer_down [of ?s m a] by auto
  moreover have "sizesAgree c (the ` batchOf ` fst ` set ds)"
    by (rule sizesAgree_mono [OF _ snoc.prems(2)]) auto
  ultimately have "receivedFrom (the ` batchOf ` fst ` set ds) c ?s" using snoc.IH snoc.prems(1) by simp
  from consume_received [OF env this _ up] snoc.prems(2) show ?case by (simp add: d env)
qed (use assms(3) in simp)

end

lemma receiveFree_simps [simp]:
  "receiveFree []" "receiveFree (Emit p # es) = receiveFree es" "receiveFree (Abort # es) = receiveFree es"
  "receiveFree (Boom # es) = receiveFree es" "receiveFree (es @ fs) \<longleftrightarrow> receiveFree es \<and> receiveFree fs"
  by (auto simp: receiveFree_def)

lemma batchSize_simps:
  "batchSize env = Some n \<longleftrightarrow> (\<exists>txs. DecodeTransactionBatch (Payload env) = Inr txs \<and> n = length txs)"
  "batchSize env = None \<longleftrightarrow> (\<exists>e. DecodeTransactionBatch (Payload env) = Inl e)"
  by (auto simp: batchSize_def split: sum.splits)

lemma Router_emits_receiveFree [simp]: "receiveFree (Router_emits env m)"
  by (induction env m rule: Router_emits.induct) (auto split: sum.split)

lemma SyncFilter_emit_receiveFree [simp]: "receiveFree (SyncFilter_emit env ty xs enc)"
  by (simp add: SyncFilter_emit_def split: sum.split)

interpretation cleaner_counts: counts_first "Cleaner_handleTransactionMessage w" "Cleaner_effects w" "clCfg w" None
    "Cleaner_handlers w" for w
  by unfold_locales (auto simp: batchSize_simps Cleaner_effects_def split: sum.split)

interpretation router_counts: counts_first "Router_handleTransactionMessage w" "Router_effects w" "roCfg w" None
    "Router_handlers w" for w
  by unfold_locales (auto simp: batchSize_simps Router_effects_def split: option.split)

interpretation syncFilter_counts: counts_first "SyncFilter_handleTransactionsBatchMessage w" "SyncFilter_effects w"
    "sfCfg w" None "SyncFilter_handlers w" for w
  by unfold_locales (auto simp: batchSize_simps SyncFilter_effects_def)

section \<open>Stages that count last\<close>

text \<open>A batch that is counted has been published completely.\<close>

definition countedPublished :: "(InternalEnvelope \<Rightarrow> effect list) \<Rightarrow> InternalEnvelope set \<Rightarrow> 'x wnode \<Rightarrow> bool" where
  "countedPublished effects D s \<longleftrightarrow>
     (\<forall>c i. mget (rcvOf s c) i \<noteq> None \<longrightarrow>
        (\<exists>env\<in>D. ClientId env = c \<and> MsgID env = i \<and> outputs effects env \<subseteq> set (outbox s)))"

locale counts_last = stage_node +
  assumes last: "\<exists>es fs. effects env = es @ fs \<and> receiveFree es \<and> (fs = [] \<or> (\<exists>n. fs = [Receive n]))"
begin

lemma consume_countedPublished:
  assumes b: "batchOf m = Some env" and D: "countedPublished effects D s"
  shows "countedPublished effects (insert env D) (consumer m a s)"
proof -
  have len: "length (ClientId env) = 16" using b by (auto simp: batchOf_Some intro: decoded_client_length)
  obtain es fs where ef: "effects env = es @ fs" "receiveFree es" "fs = [] \<or> (\<exists>n. fs = [Receive n])"
    using last by blast
  have mono: "set (outbox s) \<subseteq> set (outbox (snd (handle env s)))" by (rule handle_mono [OF len])
  have handle: "mget (rcvOf (snd (handle env s)) c) i \<noteq> None \<Longrightarrow> mget (rcvOf s c) i \<noteq> None
      \<or> (c = ClientId env \<and> i = MsgID env \<and> outputs effects env \<subseteq> set (outbox (snd (handle env s))))" for c i
  proof -
    assume new: "mget (rcvOf (snd (handle env s)) c) i \<noteq> None"
    show ?thesis
    proof (cases "mget (rcvOf s c) i")
      case None
      with new ef obtain n where n: "fs = [Receive n]" and ok: "fst (runEffects (ClientId env) (MsgID env) es s) = Inr ()"
        and ci: "c = ClientId env" "i = MsgID env"
        by (auto simp: handle_state [OF len] rcv_receiveFree rcv_last split: if_splits)
      have "outbox (snd (handle env s)) = outbox (snd (runEffects (ClientId env) (MsgID env) es s))"
        using ok by (cases "runEffects (ClientId env) (MsgID env) es s")
          (auto simp: handle_state [OF len] ef(1) n runEffects_append wbind_def countReceived_def wmodify_def wresult_def)
      moreover have "outputs effects env \<subseteq> set (outbox (snd (runEffects (ClientId env) (MsgID env) es s)))"
        using effects_done(2) [OF ok] by (simp add: outputs_def ef(1) n)
      ultimately show ?thesis using ci by simp
    qed simp
  qed
  have grow: "countedPublished effects (insert env D) s'"
    if same: "outbox s' = outbox t" "rcvOf s' = rcvOf t" "t = s \<or> t = snd (handle env s)" for s' t
    unfolding countedPublished_def
  proof (intro allI impI)
    fix c i assume known: "mget (rcvOf s' c) i \<noteq> None"
    have sub: "set (outbox s) \<subseteq> set (outbox s')" using same(1,3) mono by auto
    consider "mget (rcvOf s c) i \<noteq> None"
      | "c = ClientId env" "i = MsgID env" "outputs effects env \<subseteq> set (outbox s')"
      using known same handle [of c i] by (metis (no_types, lifting))
    then show "\<exists>e\<in>insert env D. ClientId e = c \<and> MsgID e = i \<and> outputs effects e \<subseteq> set (outbox s')"
    proof cases
      case 1
      then obtain e where "e \<in> D" "ClientId e = c" "MsgID e = i" "outputs effects e \<subseteq> set (outbox s)"
        using D unfolding countedPublished_def by blast
      with sub show ?thesis by blast
    qed blast
  qed
  show ?thesis
  proof (cases rule: consume_cases [OF b, where s = s and a = a, case_names Skip Failed Handled])
    case (Handled s2)
    have "outbox s2 = outbox (snd (handle env s))" "rcvOf s2 = rcvOf (snd (handle env s))"
      by (simp_all add: Handled(3) putPub_def outbox_def rcvOf_def fun_eq_iff)
    with Handled(4) show ?thesis by (intro grow) (auto simp: sameTables_def)
  qed (auto intro!: grow simp: sameTables_def)
qed

lemma batches_countedPublished:
  assumes "\<forall>(m, a)\<in>set ds. batchOf m \<noteq> None" "countedPublished effects {} s"
  shows "countedPublished effects (the ` batchOf ` fst ` set ds) (fold (\<lambda>(m, a) s. consumer m a s) ds s)"
  using assms(1)
proof (induction ds rule: rev_induct)
  case (snoc d ds)
  obtain m a where d: "d = (m, a)" by (cases d)
  from snoc.prems d obtain env where env: "batchOf m = Some env" by auto
  from snoc have "countedPublished effects (the ` batchOf ` fst ` set ds) (fold (\<lambda>(m, a) s. consumer m a s) ds s)" by simp
  from consume_countedPublished [OF env this] show ?case by (simp add: d env)
qed (use assms(2) in simp)

end

lemma DateRange_emits_receiveFree [simp]: "receiveFree (DateRange_emits env key txs)"
  by (simp add: DateRange_emits_def split: sum.split)

lemma Spliter_emits_receiveFree [simp]: "receiveFree (Spliter_emits env m)"
  by (induction env m rule: Spliter_emits.induct) (auto split: sum.split)

interpretation dateRange_counts: counts_last "DateRange_handleTransactionsBatchMessage w" "DateRange_effects w" "drCfg w"
    None "DateRange_handlers w" for w
proof unfold_locales
  fix env
  show "\<exists>es fs. DateRange_effects w env = es @ fs \<and> receiveFree es \<and> (fs = [] \<or> (\<exists>n. fs = [Receive n]))"
  proof (cases "DecodeTransactionBatch (Payload env)")
    case (Inl e)
    then have "DateRange_effects w env = [Abort] @ []" by (simp add: DateRange_effects_def)
    then show ?thesis by (metis receiveFree_simps(1,3))
  next
    case (Inr txs)
    obtain d nd where "splitByCurrency w txs ([], []) = (d, nd)" by fastforce
    with Inr have "DateRange_effects w env
        = (DateRange_emits env KeyDollarTransaction d @ DateRange_emits env KeyNonDollarTransaction nd) @ [Receive (length txs)]"
      by (simp add: DateRange_effects_def)
    then show ?thesis by (metis DateRange_emits_receiveFree receiveFree_simps(5))
  qed
qed

interpretation spliter_counts: counts_last "Spliter_handleTransactionBatchMessage w" "Spliter_effects w" "spCfg w" None
    "Spliter_handlers w" for w
proof unfold_locales
  fix env
  show "\<exists>es fs. Spliter_effects w env = es @ fs \<and> receiveFree es \<and> (fs = [] \<or> (\<exists>n. fs = [Receive n]))"
  proof (cases "\<exists>txs m. DecodeTransactionBatch (Payload env) = Inr txs \<and> bucketAll w txs [] = Inr m")
    case True
    then obtain txs m where "DecodeTransactionBatch (Payload env) = Inr txs" "bucketAll w txs [] = Inr m" by blast
    then have "Spliter_effects w env = Spliter_emits env (spOrder w m) @ [Receive (length txs)]"
      by (simp add: Spliter_effects_def)
    then show ?thesis by (metis Spliter_emits_receiveFree)
  next
    case False
    then have "Spliter_effects w env = [Abort] @ [] \<or> Spliter_effects w env = [Boom] @ []"
      by (auto simp: Spliter_effects_def split: sum.split option.split)
    then show ?thesis by (metis receiveFree_simps(1,3,4))
  qed
qed

end
