(* ===== verification/StageBatches.thy ===== *)
theory StageBatches
  imports StageCounts WireProperties
begin

text \<open>
  What each stage publishes for a batch: the groups of the router partition it, the spliter sends
  every transaction once per role, the cleaner blanks exactly the configured columns, the filters
  keep exactly the transactions that pass.
\<close>

section \<open>Grouping\<close>

lemma mput_group: "mgetd [] (mput k (mgetd [] m k @ xs) m) k' = mgetd [] m k' @ (if k' = k then xs else [])"
  by simp

definition nonempty_groups :: "('k, 'v list) gomap \<Rightarrow> bool" where
  "nonempty_groups m \<longleftrightarrow> wf_map m \<and> (\<forall>(k, v)\<in>set m. v \<noteq> [])"

lemma nonempty_groups_mput: "nonempty_groups m \<Longrightarrow> v \<noteq> [] \<Longrightarrow> nonempty_groups (mput k v m)"
  using set_mput [of k v m] by (auto simp: nonempty_groups_def)

lemma group_of_key: "wf_map m \<Longrightarrow> (k, v) \<in> set m \<Longrightarrow> v = mgetd [] m k"
  by (simp add: mgetd_def wf_map_def)

definition groupTotal :: "('k, 'v list) gomap \<Rightarrow> nat" where
  "groupTotal m = sum_list (map (length \<circ> snd) m)"

lemma groupTotal_simps [simp]: "groupTotal [] = 0" "groupTotal (g # m) = length (snd g) + groupTotal m"
  by (simp_all add: groupTotal_def)

lemma length_group:
  "wf_map m \<Longrightarrow> groupTotal (mput k (mgetd [] m k @ xs) m) = groupTotal m + length xs"
proof (induction m)
  case (Cons a m)
  obtain j v where a: "a = (j, v)" by (cases a)
  from Cons show ?case by (cases "j = k") (auto simp: a wf_map_def mgetd_def)
qed simp

lemma permuted_groups:
  assumes "mset m' = mset m"
  shows "set m' = set m" "mset (map fst m') = mset (map fst m)"
    "mset (map (length \<circ> snd) m') = mset (map (length \<circ> snd) m)"
  using assms by (auto dest: mset_eq_setD simp: mset_map)

lemma routeAll_groups:
  "routeAll w txs m = Some m' \<Longrightarrow> nonempty_groups m \<Longrightarrow>
     nonempty_groups m'
   \<and> (\<forall>k. mgetd [] m' k = mgetd [] m k @ filter (\<lambda>t. shardByField w t = Some k) txs)
   \<and> groupTotal m' = groupTotal m + length txs
   \<and> fst ` set m' = fst ` set m \<union> (the \<circ> shardByField w) ` set txs"
proof (induction txs arbitrary: m)
  case (Cons tx txs)
  from Cons.prems(1) obtain key where key: "shardByField w tx = Some key"
    and rest: "routeAll w txs (mput key (mgetd [] m key @ [tx]) m) = Some m'"
    by (auto split: option.splits)
  have ne: "nonempty_groups (mput key (mgetd [] m key @ [tx]) m)"
    using Cons.prems(2) by (simp add: nonempty_groups_mput)
  have len: "groupTotal (mput key (mgetd [] m key @ [tx]) m) = groupTotal m + 1"
    using Cons.prems(2) length_group [of m key "[tx]"] by (simp add: nonempty_groups_def)
  show ?case
    using Cons.IH [OF rest ne] key by (auto simp: len keys_mput)
qed simp

lemma routeAll_defined:
  assumes "nextWorkerAmount w \<noteq> 0"
  shows "\<exists>m'. routeAll w txs m = Some m'"
  using assms by (induction txs arbitrary: m) (auto simp: shardByField_def shardOf_def)

section \<open>Router\<close>

definition routed :: "InternalEnvelope \<Rightarrow> string \<times> Transaction list \<Rightarrow> pubn" where
  "routed env g = batchPubn env (fst g) (projr (EncodeTransactionBatch (snd g))) (length (snd g))"

lemma emits_map [simp]: "emits (map (\<lambda>x. Emit (f x)) xs) = map f xs"
  by (induction xs) simp_all

lemma Router_emits_all:
  "(\<And>k ts. (k, ts) \<in> set m \<Longrightarrow> \<exists>b. EncodeTransactionBatch ts = Inr b)
    \<Longrightarrow> Router_emits env m = map (\<lambda>g. Emit (routed env g)) m"
proof (induction env m rule: Router_emits.induct)
  case (2 env key txs m)
  obtain b where b: "EncodeTransactionBatch txs = Inr b" using 2(2) by auto
  have "Router_emits env m = map (\<lambda>g. Emit (routed env g)) m" using 2(1) [OF b] 2(2) by auto
  with b show ?case by (simp add: routed_def)
qed simp

lemma routed_simps [simp]: "pbKey (routed env g) = fst g" "pbCount (routed env g) = length (snd g)"
  by (simp_all add: routed_def batchPubn_def)

lemma Router_effects_groups:
  assumes "DecodeTransactionBatch (Payload env) = Inr txs" "nextWorkerAmount w \<noteq> 0"
    and "\<And>m. mset (roOrder w m) = mset m"
  obtains m where "routeAll w txs [] = Some m"
    "Router_effects w env = Receive (length txs) # map (\<lambda>g. Emit (routed env g)) (roOrder w m)"
    "\<And>k ts. (k, ts) \<in> set (roOrder w m) \<Longrightarrow> ts = filter (\<lambda>t. shardByField w t = Some k) txs \<and> ts \<noteq> []
       \<and> length ts < 2 ^ 32 \<and> (\<exists>b. EncodeTransactionBatch ts = Inr b)"
proof -
  obtain m where m: "routeAll w txs [] = Some m" using routeAll_defined [OF assms(2)] by blast
  note groups = routeAll_groups [OF m, unfolded nonempty_groups_def, simplified]
  note wire = DecodeTransactionBatch_wire [OF assms(1)]
  have group: "ts = filter (\<lambda>t. shardByField w t = Some k) txs \<and> ts \<noteq> []
       \<and> length ts < 2 ^ 32 \<and> (\<exists>b. EncodeTransactionBatch ts = Inr b)" if "(k, ts) \<in> set (roOrder w m)" for k ts
  proof -
    have "(k, ts) \<in> set m" using that assms(3) [of m] by (auto dest: mset_eq_setD)
    then have ts: "ts = filter (\<lambda>t. shardByField w t = Some k) txs" "ts \<noteq> []"
      using groups group_of_key [of m k ts] by auto
    then have sub: "set ts \<subseteq> set txs" "length ts \<le> length txs" using length_filter_le by auto
    have "\<exists>b. EncodeTransactionBatch ts = Inr b" using wire sub(1) by (intro EncodeTransactionBatch_ok) auto
    with wire ts sub(2) show ?thesis by (metis le_less_trans)
  qed
  moreover have "Router_effects w env = Receive (length txs) # map (\<lambda>g. Emit (routed env g)) (roOrder w m)"
    using assms(1) m Router_emits_all [of "roOrder w m" env] group by (simp add: Router_effects_def)
  ultimately show ?thesis using that m by blast
qed

lemma Router_effects_clean:
  assumes "DecodeTransactionBatch (Payload env) = Inr txs" "nextWorkerAmount w \<noteq> 0"
    and "\<And>m. mset (roOrder w m) = mset m"
  shows "Abort \<notin> set (Router_effects w env) \<and> Boom \<notin> set (Router_effects w env)"
  by (rule Router_effects_groups [OF assms]) auto

lemma shardByField_index:
  assumes "nextWorkerAmount w \<noteq> 0"
  shows "\<exists>i < nat \<bar>nextWorkerAmount w\<bar>. shardByField w t = Some (NextWorkerPrefix (roCfg w) @ ''_'' @ itoa i)"
  using assms by (intro exI [of _ "unat (fnv32a (str_bytes (extractFieldValue w t))) mod nat \<bar>nextWorkerAmount w\<bar>"])
    (simp add: shardByField_def shardOf_def)

text \<open>
  C36. The router partitions a batch. For a decodable batch and a positive or negative, but non-zero,
  number of workers, the effects of the batch are: count it as received, then publish messages with
  distinct routing keys. Each message decodes to exactly the transactions of the batch that have
  its routing key, in their order, at least one; each transaction's key is among them and is the
  prefix followed by an index below the number of workers; the announced sizes add up to the batch.
  No encoding fails and nothing panics, whatever the iteration order of the Go map.
\<close>

theorem router_partitions_batch:
  assumes "DecodeTransactionBatch (Payload env) = Inr txs" "nextWorkerAmount w \<noteq> 0"
    and "\<And>m. mset (roOrder w m) = mset m"
  shows "Abort \<notin> set (Router_effects w env) \<and> Boom \<notin> set (Router_effects w env)
    \<and> distinct (map pbKey (emits (Router_effects w env)))
    \<and> (\<forall>p\<in>set (emits (Router_effects w env)).
         \<exists>ts. DecodeTransactionBatch (pbPayload p) = Inr ts \<and> pbCount p = length ts \<and> ts \<noteq> []
            \<and> ts = filter (\<lambda>t. shardByField w t = Some (pbKey p)) txs)
    \<and> (\<forall>t\<in>set txs. \<exists>p\<in>set (emits (Router_effects w env)). shardByField w t = Some (pbKey p)
         \<and> (\<exists>i < nat \<bar>nextWorkerAmount w\<bar>. pbKey p = NextWorkerPrefix (roCfg w) @ ''_'' @ itoa i))
    \<and> sum_list (map pbCount (emits (Router_effects w env))) = length txs"
proof -
  obtain m where m: "routeAll w txs [] = Some m"
    and eff: "Router_effects w env = Receive (length txs) # map (\<lambda>g. Emit (routed env g)) (roOrder w m)"
    and group: "\<And>k ts. (k, ts) \<in> set (roOrder w m) \<Longrightarrow> ts = filter (\<lambda>t. shardByField w t = Some k) txs \<and> ts \<noteq> []
       \<and> length ts < 2 ^ 32 \<and> (\<exists>b. EncodeTransactionBatch ts = Inr b)"
    using Router_effects_groups [OF assms] by blast
  note groups = routeAll_groups [OF m, unfolded nonempty_groups_def, simplified]
  let ?m = "roOrder w m"
  note perm = permuted_groups [OF assms(3) [of m]]
  from eff have em: "emits (Router_effects w env) = map (routed env) ?m" by simp
  have keys: "map pbKey (emits (Router_effects w env)) = map fst ?m"
    and sizes: "map pbCount (emits (Router_effects w env)) = map (length \<circ> snd) ?m"
    by (simp_all add: em)
  have "distinct (map pbKey (emits (Router_effects w env)))"
    unfolding keys using groups perm(2) by (metis mset_eq_imp_distinct_iff wf_map_def)
  moreover have "sum_list (map pbCount (emits (Router_effects w env))) = length txs"
    unfolding sizes using groups perm(3) by (metis sum_mset_sum_list groupTotal_def)
  moreover have "\<exists>ts. DecodeTransactionBatch (pbPayload p) = Inr ts \<and> pbCount p = length ts \<and> ts \<noteq> []
      \<and> ts = filter (\<lambda>t. shardByField w t = Some (pbKey p)) txs" if p: "p \<in> set (emits (Router_effects w env))" for p
  proof -
    obtain k ts where kts: "(k, ts) \<in> set ?m" "p = routed env (k, ts)" using p em by auto
    obtain b where b: "EncodeTransactionBatch ts = Inr b" and "length ts < 2 ^ 32" using group [OF kts(1)] by blast
    from batch_arrives [OF this] have "DecodeTransactionBatch (pbPayload p) = Inr ts"
      by (simp add: kts(2) routed_def batchPubn_def b)
    then show ?thesis using group [OF kts(1)] kts(2) by auto
  qed
  moreover have "\<exists>p\<in>set (emits (Router_effects w env)). shardByField w t = Some (pbKey p)
      \<and> (\<exists>i < nat \<bar>nextWorkerAmount w\<bar>. pbKey p = NextWorkerPrefix (roCfg w) @ ''_'' @ itoa i)"
    if t: "t \<in> set txs" for t
  proof -
    obtain i k where i: "i < nat \<bar>nextWorkerAmount w\<bar>" "k = NextWorkerPrefix (roCfg w) @ ''_'' @ itoa i"
      and k: "shardByField w t = Some k" using shardByField_index [OF assms(2), of t] by blast
    have "fst ` set m = (the \<circ> shardByField w) ` set txs" using groups by simp
    moreover have "k = (the \<circ> shardByField w) t" by (simp add: k)
    ultimately have "k \<in> fst ` set m" using t by blast
    then have "k \<in> set (map pbKey (emits (Router_effects w env)))"
      unfolding keys using perm(1) by simp
    then obtain p where "p \<in> set (emits (Router_effects w env))" "pbKey p = k" by auto
    then show ?thesis using i k by (intro bexI [of _ p]) auto
  qed
  moreover have "Abort \<notin> set (Router_effects w env)" "Boom \<notin> set (Router_effects w env)"
    by (auto simp: eff)
  ultimately show ?thesis by blast
qed

section \<open>Cleaner\<close>

lemma cleanField_wire: "wireTx tx \<Longrightarrow> wireTx (cleanField f tx)"
  by (simp add: cleanField_def wireTx_def)

lemma cleanTransaction_wire: "wireTx tx \<Longrightarrow> wireTx (cleanTransaction w tx)"
proof -
  have "wireTx tx \<Longrightarrow> wireTx (fold cleanField fs tx)" for fs
    by (induction fs arbitrary: tx) (simp_all add: cleanField_wire)
  then show "wireTx tx \<Longrightarrow> wireTx (cleanTransaction w tx)" by (simp add: cleanTransaction_def)
qed

definition blanked :: "string list \<Rightarrow> Transaction \<Rightarrow> Transaction" where
  "blanked fs tx = tx
     \<lparr>FromBank := (if ''from_bank'' \<in> set fs then '''' else FromBank tx),
      FromAccount := (if ''from_account'' \<in> set fs then '''' else FromAccount tx),
      ToBank := (if ''to_bank'' \<in> set fs then '''' else ToBank tx),
      ToAccount := (if ''to_account'' \<in> set fs then '''' else ToAccount tx),
      PaymentFormat := (if ''payment_format'' \<in> set fs then '''' else PaymentFormat tx)\<rparr>"

lemma cleanTransaction_blanked: "cleanTransaction w tx = blanked (fieldsToClean w) tx"
proof -
  have "fold cleanField fs tx = blanked fs tx" for fs
    by (induction fs arbitrary: tx) (simp_all add: cleanField_def blanked_def)
  then show ?thesis by (simp add: cleanTransaction_def)
qed

text \<open>
  C38. The cleaner republishes every decodable batch as one message under the id derived from the
  batch's, and the next stage decodes it to the transactions with exactly the configured columns
  blanked and everything else (timestamps, amounts, currencies, the laundering flag) unchanged,
  in whatever order and how often the columns are configured; cleaning again changes nothing. No
  encoding fails.
\<close>

theorem cleaner_blanks_configured_columns:
  assumes "DecodeTransactionBatch (Payload env) = Inr txs"
  shows "\<exists>payload. Cleaner_effects w env =
       [Receive (length txs),
        Emit \<lparr>pbType = MsgTransactionsBatch, pbKey = KeyNil, pbPayload = payload,
              pbId = DeriveMsgID (MsgID env) KeyNil 0, pbCount = length txs\<rparr>]
     \<and> DecodeTransactionBatch payload = Inr (map (blanked (fieldsToClean w)) txs)
     \<and> (\<forall>tx. cleanTransaction w (cleanTransaction w tx) = cleanTransaction w tx)"
proof -
  note wire = DecodeTransactionBatch_wire [OF assms]
  obtain payload where p: "EncodeTransactionBatch (map (cleanTransaction w) txs) = Inr payload"
    using EncodeTransactionBatch_ok [of "map (cleanTransaction w) txs"] wire cleanTransaction_wire by auto
  have "DecodeTransactionBatch payload = Inr (map (cleanTransaction w) txs)"
    using batch_arrives [OF p] wire by simp
  moreover have "map (cleanTransaction w) txs = map (blanked (fieldsToClean w)) txs"
    by (simp add: cleanTransaction_blanked)
  ultimately show ?thesis using p assms by (simp add: Cleaner_effects_def cleanTransaction_blanked blanked_def)
qed

section \<open>Date filter\<close>

lemma splitByCurrency_filter:
  "splitByCurrency w txs (d, n) =
     (d @ filter (\<lambda>t. filterTransactionByDate w t \<and> PaymentCurrency t = Dollar) txs,
      n @ filter (\<lambda>t. filterTransactionByDate w t \<and> PaymentCurrency t \<noteq> Dollar) txs)"
  by (induction txs arbitrary: d n) simp_all

definition inPeriod :: "dateRange \<Rightarrow> bool \<Rightarrow> Transaction \<Rightarrow> bool" where
  "inPeriod w dollars t \<longleftrightarrow> Timestamp t \<noteq> '''' \<and> fromDate w \<le> Timestamp t \<and> Timestamp t \<le> toDate w
     \<and> (PaymentCurrency t = ''US Dollar'') = dollars"

definition currencyKey :: "bool \<Rightarrow> KeyType" where
  "currencyKey dollars = (if dollars then KeyDollarTransaction else KeyNonDollarTransaction)"

text \<open>What the messages under one key say: none when the group is empty, otherwise one with it.\<close>

definition carriesGroup :: "KeyType \<Rightarrow> Transaction list \<Rightarrow> pubn list \<Rightarrow> bool" where
  "carriesGroup key ts ps \<longleftrightarrow>
     (if ts = [] then filter (\<lambda>p. pbKey p = key) ps = []
      else \<exists>p. filter (\<lambda>p. pbKey p = key) ps = [p] \<and> pbCount p = length ts \<and> DecodeTransactionBatch (pbPayload p) = Inr ts)"

lemma DateRange_emits_batch:
  assumes "\<And>t. t \<in> set ts \<Longrightarrow> wireTx t" "length ts < 2 ^ 32"
  shows "Abort \<notin> set (DateRange_emits env key ts) \<and> carriesGroup key ts (emits (DateRange_emits env key ts))
    \<and> (\<forall>p\<in>set (emits (DateRange_emits env key ts)). pbKey p = key)"
proof -
  obtain payload where p: "EncodeTransactionBatch ts = Inr payload"
    using EncodeTransactionBatch_ok [of ts] assms(1) by blast
  from batch_arrives [OF p assms(2)] p show ?thesis by (auto simp: DateRange_emits_def carriesGroup_def)
qed

lemma carriesGroup_append:
  "carriesGroup key ts ps \<Longrightarrow> (\<And>q. q \<in> set qs \<Longrightarrow> pbKey q \<noteq> key) \<Longrightarrow> carriesGroup key ts (ps @ qs) \<and> carriesGroup key ts (qs @ ps)"
proof -
  assume "carriesGroup key ts ps" "\<And>q. q \<in> set qs \<Longrightarrow> pbKey q \<noteq> key"
  moreover from this(2) have "filter (\<lambda>p. pbKey p = key) qs = []" by (simp add: filter_empty_conv)
  ultimately show ?thesis by (simp add: carriesGroup_def)
qed

text \<open>
  C39. The date filter publishes, for every decodable batch, the transactions of the period paid in US
  dollars under \<open>tx.usd\<close> and the others of the period under \<open>tx.non-usd\<close>, each group in order and
  only if it is not empty, and nothing else; it then counts the batch as received. The period is
  inclusive at both ends and a transaction without a timestamp is outside of it.
\<close>

theorem date_filter_splits_period:
  assumes "DecodeTransactionBatch (Payload env) = Inr txs"
  shows "\<exists>es. DateRange_effects w env = es @ [Receive (length txs)] \<and> receiveFree es \<and> Abort \<notin> set es
    \<and> (\<forall>dollars. carriesGroup (currencyKey dollars) (filter (inPeriod w dollars) txs) (emits es))
    \<and> length (emits es) \<le> 2"
proof -
  note wire = DecodeTransactionBatch_wire [OF assms]
  have eq: "filter (\<lambda>t. filterTransactionByDate w t \<and> PaymentCurrency t = Dollar) txs = filter (inPeriod w True) txs"
    "filter (\<lambda>t. filterTransactionByDate w t \<and> PaymentCurrency t \<noteq> Dollar) txs = filter (inPeriod w False) txs"
    by (auto simp: inPeriod_def filterTransactionByDate_def Dollar_def not_less intro!: filter_cong)
  define em where "em b = DateRange_emits env (currencyKey b) (filter (inPeriod w b) txs)" for b
  have eff: "DateRange_effects w env = (em True @ em False) @ [Receive (length txs)]"
    using assms by (simp add: DateRange_effects_def splitByCurrency_filter eq em_def currencyKey_def)
  have part: "Abort \<notin> set (em b) \<and> carriesGroup (currencyKey b) (filter (inPeriod w b) txs) (emits (em b))
      \<and> (\<forall>p\<in>set (emits (em b)). pbKey p = currencyKey b)" for b
    unfolding em_def
  proof (rule DateRange_emits_batch)
    show "length (filter (inPeriod w b) txs) < 2 ^ 32"
      using wire le_less_trans [OF length_filter_le] by blast
  qed (use wire in auto)
  have "currencyKey (\<not> b) \<noteq> currencyKey b" for b by (simp add: currencyKey_def KeyType_defs)
  then have other: "q \<in> set (emits (em (\<not> b))) \<Longrightarrow> pbKey q \<noteq> currencyKey b" for q b using part [of "\<not> b"] by force
  have "carriesGroup (currencyKey b) (filter (inPeriod w b) txs) (emits (em True @ em False))" for b
    using carriesGroup_append [of "currencyKey b" _ "emits (em b)" "emits (em (\<not> b))"] part [of b] other [of _ b]
    by (cases b) simp_all
  moreover have "length (emits (em b)) \<le> 1" for b
    by (simp add: em_def DateRange_emits_def split: sum.split)
  then have "length (emits (em True @ em False)) \<le> 2"
    by (metis add_mono emits_simps(6) length_append one_add_one)
  moreover have "receiveFree (em True @ em False)" by (simp add: em_def)
  ultimately show ?thesis using part unfolding eff by (intro exI [of _ "em True @ em False"]) auto
qed

section \<open>Spliter\<close>

text \<open>The bucket of a transaction for one configured field.\<close>

definition bucketFor :: "spliter \<Rightarrow> Transaction \<Rightarrow> string \<Rightarrow> bucketKey" where
  "bucketFor w t field =
     \<lparr>txType = GetTypeTxQ4ByField field, routingKey = the (shardByValue w (GetTransactionField t field))\<rparr>"

text \<open>What a bucket holds: every transaction once per field that leads to the bucket.\<close>

definition bucketContents :: "spliter \<Rightarrow> Transaction list \<Rightarrow> bucketKey \<Rightarrow> Transaction list" where
  "bucketContents w txs bk =
     concat (map (\<lambda>t. map (\<lambda>_. t) (filter (\<lambda>f. bucketFor w t f = bk) (fieldsToRouteBy w))) txs)"

definition routable :: "spliter \<Rightarrow> Transaction \<Rightarrow> bool" where
  "routable w t \<longleftrightarrow> (\<forall>f\<in>set (fieldsToRouteBy w). GetTransactionField t f \<noteq> '''')"

lemma bucketTx_groups:
  assumes "spNextWorkerAmount w \<noteq> 0"
  shows "\<forall>f\<in>set fs. GetTransactionField t f \<noteq> '''' \<Longrightarrow> nonempty_groups m \<Longrightarrow>
     \<exists>m'. bucketTx w t fs m = Inr m' \<and> nonempty_groups m'
       \<and> (\<forall>bk. mgetd [] m' bk = mgetd [] m bk @ map (\<lambda>_. t) (filter (\<lambda>f. bucketFor w t f = bk) fs))
       \<and> groupTotal m' = groupTotal m + length fs
       \<and> fst ` set m' = fst ` set m \<union> bucketFor w t ` set fs"
proof (induction fs arbitrary: m)
  case (Cons f fs)
  let ?bk = "bucketFor w t f"
  let ?m = "mput ?bk (mgetd [] m ?bk @ [t]) m"
  obtain key where key: "shardByValue w (GetTransactionField t f) = Some key"
    using assms by (simp add: shardByValue_def shardOf_def)
  then have head: "bucketTx w t (f # fs) m = bucketTx w t fs ?m"
    using Cons.prems(1) by (simp add: Let_def bucketFor_def)
  have "nonempty_groups ?m" using Cons.prems(2) by (simp add: nonempty_groups_mput)
  moreover have len: "groupTotal ?m = groupTotal m + 1"
    using Cons.prems(2) length_group [of m ?bk "[t]"] by (simp add: nonempty_groups_def)
  ultimately show ?case
    unfolding head using Cons.IH [of ?m] Cons.prems(1) by (auto simp: keys_mput)
qed simp

lemma bucketAll_groups:
  assumes "spNextWorkerAmount w \<noteq> 0"
  shows "\<forall>t\<in>set txs. routable w t \<Longrightarrow> nonempty_groups m \<Longrightarrow>
     \<exists>m'. bucketAll w txs m = Inr m' \<and> nonempty_groups m'
       \<and> (\<forall>bk. mgetd [] m' bk = mgetd [] m bk @ bucketContents w txs bk)
       \<and> groupTotal m' = groupTotal m + length txs * length (fieldsToRouteBy w)
       \<and> fst ` set m' = fst ` set m \<union> (\<Union>t\<in>set txs. bucketFor w t ` set (fieldsToRouteBy w))"
proof (induction txs arbitrary: m)
  case (Cons t txs)
  obtain m1 where m1: "bucketTx w t (fieldsToRouteBy w) m = Inr m1" "nonempty_groups m1"
    "\<forall>bk. mgetd [] m1 bk = mgetd [] m bk @ map (\<lambda>_. t) (filter (\<lambda>f. bucketFor w t f = bk) (fieldsToRouteBy w))"
    "groupTotal m1 = groupTotal m + length (fieldsToRouteBy w)"
    "fst ` set m1 = fst ` set m \<union> bucketFor w t ` set (fieldsToRouteBy w)"
    using bucketTx_groups [OF assms, of "fieldsToRouteBy w" t m] Cons.prems by (auto simp: routable_def)
  have "\<forall>t\<in>set txs. routable w t" using Cons.prems(1) by simp
  from Cons.IH [OF this m1(2)] show ?case
    by (auto simp: m1 bucketContents_def)
qed (simp add: bucketContents_def)

definition bucketPayload :: "bucketKey \<Rightarrow> Transaction list \<Rightarrow> bytes result" where
  "bucketPayload bk txs = rbind (writeString (txType bk)) (\<lambda>b. rbind (EncodeTransactionBatch txs) (\<lambda>tb. Inr (b @ tb)))"

definition split_off :: "InternalEnvelope \<Rightarrow> bucketKey \<times> Transaction list \<Rightarrow> pubn" where
  "split_off env g = phaseOnePubn env (fst g) (projr (bucketPayload (fst g) (snd g))) (length (snd g))"

lemma split_off_simps [simp]: "pbKey (split_off env g) = routingKey (fst g)" "pbCount (split_off env g) = length (snd g)"
  by (simp_all add: split_off_def phaseOnePubn_def)

lemma Spliter_emits_all:
  "(\<And>k ts. (k, ts) \<in> set m \<Longrightarrow> \<exists>b. bucketPayload k ts = Inr b)
    \<Longrightarrow> Spliter_emits env m = map (\<lambda>g. Emit (split_off env g)) m"
proof (induction env m rule: Spliter_emits.induct)
  case (2 env bk txs m)
  obtain b where b: "bucketPayload bk txs = Inr b" using 2(2) by auto
  have "Spliter_emits env m = map (\<lambda>g. Emit (split_off env g)) m"
    using 2(1) [OF b [unfolded bucketPayload_def]] 2(2) by auto
  with b show ?case by (simp add: split_off_def bucketPayload_def)
qed simp

lemma bucketPayload_arrives:
  assumes "\<And>t. t \<in> set ts \<Longrightarrow> wireTx t" "length ts < 2 ^ 32" "length (txType bk) \<le> 255"
  shows "\<exists>b. bucketPayload bk ts = Inr b \<and> DecodeTxQ4PhaseOneBatch b = Inr (txType bk, ts)"
proof -
  obtain tb where "EncodeTransactionBatch ts = Inr tb" using EncodeTransactionBatch_ok assms(1) by blast
  with assms(3) batch_arrives [OF this assms(2)] show ?thesis
    by (simp add: bucketPayload_def writeString_def DecodeTxQ4PhaseOneBatch_def wire_simps)
qed

lemma bucketTx_missing:
  assumes "spNextWorkerAmount w \<noteq> 0"
  shows "bucketTx w t fs m \<noteq> Inl None
    \<and> ((\<exists>f\<in>set fs. GetTransactionField t f = '''') \<longrightarrow> (\<exists>e. bucketTx w t fs m = Inl (Some e)))"
proof (induction fs arbitrary: m)
  case (Cons f fs)
  obtain key where key: "shardByValue w (GetTransactionField t f) = Some key"
    using assms by (simp add: shardByValue_def shardOf_def)
  show ?case
    using Cons [of "mput \<lparr>txType = GetTypeTxQ4ByField f, routingKey = key\<rparr>
        (mgetd [] m \<lparr>txType = GetTypeTxQ4ByField f, routingKey = key\<rparr> @ [t]) m"]
    by (cases "GetTransactionField t f = ''''") (simp_all add: Let_def key)
qed simp

lemma bucketAll_missing:
  assumes "spNextWorkerAmount w \<noteq> 0"
  shows "\<exists>t\<in>set ts. \<not> routable w t \<Longrightarrow> \<exists>e. bucketAll w ts m = Inl (Some e)"
proof (induction ts arbitrary: m)
  case (Cons t ts)
  note t = bucketTx_missing [OF assms, of t "fieldsToRouteBy w" m]
  show ?case
  proof (cases "bucketTx w t (fieldsToRouteBy w) m")
    case (Inl e)
    with t show ?thesis by (cases e) auto
  next
    case (Inr m')
    with t have "routable w t" by (auto simp: routable_def)
    with Cons Inr show ?thesis by simp
  qed
qed simp

lemma Spliter_effects_groups:
  assumes "DecodeTransactionBatch (Payload env) = Inr txs" "spNextWorkerAmount w \<noteq> 0" "\<And>m. mset (spOrder w m) = mset m"
    and "length txs * length (fieldsToRouteBy w) < 2 ^ 32" "\<forall>t\<in>set txs. routable w t"
  shows "\<exists>m. Spliter_effects w env = map (\<lambda>g. Emit (split_off env g)) (spOrder w m) @ [Receive (length txs)]
    \<and> nonempty_groups m \<and> groupTotal m = length txs * length (fieldsToRouteBy w)
    \<and> fst ` set m = (\<Union>t\<in>set txs. bucketFor w t ` set (fieldsToRouteBy w))
    \<and> (\<forall>(bk, ts) \<in> set m. ts = bucketContents w txs bk \<and> ts \<noteq> []
         \<and> (\<exists>b. bucketPayload bk ts = Inr b \<and> DecodeTxQ4PhaseOneBatch b = Inr (txType bk, ts)))"
proof -
  obtain m where m: "bucketAll w txs [] = Inr m" "nonempty_groups m"
    "\<forall>bk. mgetd [] m bk = bucketContents w txs bk" "groupTotal m = length txs * length (fieldsToRouteBy w)"
    "fst ` set m = (\<Union>t\<in>set txs. bucketFor w t ` set (fieldsToRouteBy w))"
    using bucketAll_groups [OF assms(2,5), of "[]"] by (auto simp: nonempty_groups_def)
  have group: "ts = bucketContents w txs bk \<and> ts \<noteq> []" if "(bk, ts) \<in> set m" for bk ts
    using that m(2,3) group_of_key [of m bk ts] by (auto simp: nonempty_groups_def)
  have pay: "\<exists>b. bucketPayload bk ts = Inr b \<and> DecodeTxQ4PhaseOneBatch b = Inr (txType bk, ts)" if bk: "(bk, ts) \<in> set m" for bk ts
  proof (rule bucketPayload_arrives)
    have "length ts \<in> set (map (length \<circ> snd) m)" using bk by force
    from member_le_sum_list [OF this] show "length ts < 2 ^ 32"
      using m(4) assms(4) by (simp add: groupTotal_def)
    have "bk \<in> fst ` set m" using bk by force
    then obtain t f where "bk = bucketFor w t f" unfolding m(5) by blast
    then show "length (txType bk) \<le> 255" by (simp add: bucketFor_def GetTypeTxQ4ByField_def TxQ4Scatter_def TxQ4Gather_def)
  qed (use group [OF bk] DecodeTransactionBatch_wire [OF assms(1)] in \<open>auto simp: bucketContents_def\<close>)
  have "\<exists>b. bucketPayload k ts = Inr b" if "(k, ts) \<in> set (spOrder w m)" for k ts
    using pay that permuted_groups(1) [OF assms(3) [of m]] by blast
  from Spliter_emits_all [OF this]
  have "Spliter_effects w env = map (\<lambda>g. Emit (split_off env g)) (spOrder w m) @ [Receive (length txs)]"
    using assms(1) m(1) by (simp add: Spliter_effects_def)
  with m group pay show ?thesis by blast
qed

text \<open>
  C37. The spliter sends every transaction once per configured field (as a scatter under its origin's
  shard, as a gather under its destination's). For a decodable batch in which every configured field
  has a value: the messages have distinct (role, key) pairs, each decodes to its role and to the
  transactions that lead to this bucket, in order, with their number as the announced size; every
  transaction is in the message of its role and shard for every field; the sizes add up to the batch
  times the number of fields; and the batch is counted after the last message. A transaction without
  one of the fields makes the whole batch an error before anything is published or counted.
\<close>

theorem spliter_sends_once_per_role:
  assumes "DecodeTransactionBatch (Payload env) = Inr txs" "spNextWorkerAmount w \<noteq> 0"
    and "\<And>m. mset (spOrder w m) = mset m" "length txs * length (fieldsToRouteBy w) < 2 ^ 32"
  shows "(if \<forall>t\<in>set txs. routable w t
     then \<exists>gs. Spliter_effects w env = map (\<lambda>g. Emit (snd g)) gs @ [Receive (length txs)] \<and> distinct (map fst gs)
       \<and> (\<forall>(bk, p)\<in>set gs. pbKey p = routingKey bk \<and> bucketContents w txs bk \<noteq> []
            \<and> pbCount p = length (bucketContents w txs bk)
            \<and> DecodeTxQ4PhaseOneBatch (pbPayload p) = Inr (txType bk, bucketContents w txs bk))
       \<and> (\<forall>t\<in>set txs. \<forall>f\<in>set (fieldsToRouteBy w). bucketFor w t f \<in> fst ` set gs)
       \<and> sum_list (map (pbCount \<circ> snd) gs) = length txs * length (fieldsToRouteBy w)
     else Spliter_effects w env = [Abort])"
proof (cases "\<forall>t\<in>set txs. routable w t")
  case True
  obtain m where eff: "Spliter_effects w env = map (\<lambda>g. Emit (split_off env g)) (spOrder w m) @ [Receive (length txs)]"
    and m: "nonempty_groups m" "groupTotal m = length txs * length (fieldsToRouteBy w)"
      "fst ` set m = (\<Union>t\<in>set txs. bucketFor w t ` set (fieldsToRouteBy w))"
    and group: "\<forall>(bk, ts) \<in> set m. ts = bucketContents w txs bk \<and> ts \<noteq> []
         \<and> (\<exists>b. bucketPayload bk ts = Inr b \<and> DecodeTxQ4PhaseOneBatch b = Inr (txType bk, ts))"
    using Spliter_effects_groups [OF assms True] by blast
  let ?gs = "map (\<lambda>g. (fst g, split_off env g)) (spOrder w m)"
  note perm = permuted_groups [OF assms(3) [of m]]
  have "Spliter_effects w env = map (\<lambda>g. Emit (snd g)) ?gs @ [Receive (length txs)]" by (simp add: eff)
  moreover have "map fst ?gs = map fst (spOrder w m)" by simp
  then have "distinct (map fst ?gs)"
    using m(1) perm(2) by (metis mset_eq_imp_distinct_iff nonempty_groups_def wf_map_def)
  moreover have "map (pbCount \<circ> snd) ?gs = map (length \<circ> snd) (spOrder w m)" by simp
  then have "sum_list (map (pbCount \<circ> snd) ?gs) = length txs * length (fieldsToRouteBy w)"
    using perm(3) m(2) by (metis sum_mset_sum_list groupTotal_def)
  moreover have "\<forall>(bk, p)\<in>set ?gs. pbKey p = routingKey bk \<and> bucketContents w txs bk \<noteq> []
      \<and> pbCount p = length (bucketContents w txs bk)
      \<and> DecodeTxQ4PhaseOneBatch (pbPayload p) = Inr (txType bk, bucketContents w txs bk)"
    using group perm(1) by (fastforce simp: split_off_def phaseOnePubn_def)
  moreover have "fst ` set ?gs = fst ` set m" using perm(1) by (simp add: image_image)
  then have "\<forall>t\<in>set txs. \<forall>f\<in>set (fieldsToRouteBy w). bucketFor w t f \<in> fst ` set ?gs"
    unfolding m(3) by blast
  ultimately have "\<exists>gs. Spliter_effects w env = map (\<lambda>g. Emit (snd g)) gs @ [Receive (length txs)] \<and> distinct (map fst gs)
       \<and> (\<forall>(bk, p)\<in>set gs. pbKey p = routingKey bk \<and> bucketContents w txs bk \<noteq> []
            \<and> pbCount p = length (bucketContents w txs bk)
            \<and> DecodeTxQ4PhaseOneBatch (pbPayload p) = Inr (txType bk, bucketContents w txs bk))
       \<and> (\<forall>t\<in>set txs. \<forall>f\<in>set (fieldsToRouteBy w). bucketFor w t f \<in> fst ` set gs)
       \<and> sum_list (map (pbCount \<circ> snd) gs) = length txs * length (fieldsToRouteBy w)"
    by (intro exI [of _ ?gs] conjI)
  with True show ?thesis by (simp only: if_P)
next
  case False
  then obtain e where "bucketAll w txs [] = Inl (Some e)"
    using bucketAll_missing [OF assms(2)] by blast
  with False assms(1) show ?thesis by (simp add: Spliter_effects_def)
qed

section \<open>Amount and format filter\<close>

definition resultCarries :: "syncFilter \<Rightarrow> Transaction list \<Rightarrow> pubn \<Rightarrow> bool" where
  "resultCarries w ts p \<longleftrightarrow>
     (if Query (sfCfg w) = 1
      then pbType p = MsgQuery1Result \<and> DecodeQuery1ResultBatch (pbPayload p) = Inr (map toQuery1Result ts)
      else pbType p = MsgTransactionsBatch \<and> DecodeTransactionBatch (pbPayload p) = Inr ts)"

lemma encodeQuery1Result_short:
  "wireTx t \<Longrightarrow> \<exists>b. encodeQuery1Result (toQuery1Result t) = Inr b \<and> length b \<le> MaxUint16"
  by (simp add: wireTx_def encodeQuery1Result_def toQuery1Result_def encodeTransactionAccount_def writeString_def
      writeFloat64_def MaxUint16_def)

lemma Query1_batch_arrives:
  assumes "\<And>t. t \<in> set ts \<Longrightarrow> wireTx t" "length ts < 2 ^ 32"
  shows "\<exists>b. EncodeQuery1ResultBatch (map toQuery1Result ts) = Inr b
    \<and> DecodeQuery1ResultBatch b = Inr (map toQuery1Result ts)"
proof -
  obtain bs where "encodeItems ''result'' encodeQuery1Result 0 (map toQuery1Result ts) = Inr bs"
    using encodeItems_ok [of "map toQuery1Result ts" encodeQuery1Result] assms(1) encodeQuery1Result_short by force
  then have "EncodeQuery1ResultBatch (map toQuery1Result ts) = Inr (PutUint32 (word_of_nat (length ts)) @ bs)"
    by (simp add: EncodeQuery1ResultBatch_def encodeBatch_def)
  then show ?thesis
    using query1.decodeBatch_encodeBatch_exact [of "map toQuery1Result ts"] assms(2)
    by (auto simp: EncodeQuery1ResultBatch_def DecodeQuery1ResultBatch_def)
qed


section \<open>Concrete batches\<close>

definition exampleBatch :: bytes where "exampleBatch = projr (EncodeTransactionBatch [exampleTx])"

definition batchEnvelope :: "byte \<Rightarrow> InternalEnvelope" where
  "batchEnvelope i = \<lparr>MsgType = MsgTransactionsBatch, ClientId = replicate 16 1, MsgID = replicate 16 i, Payload = exampleBatch\<rparr>"

definition exampleCfg :: workerCfg where
  "exampleCfg = \<lparr>Params = [], Query = 2, WorkerID = 0, WorkerPrefix = ''stage'', WorkerAmount = 1, PrevWorkerAmount = 1,
     NextWorkerAmount = 3, NextWorkerPrefix = ''next'', Threshold = 1,
     SyncEOFConfig = \<lparr>RetryBaseDelay = 0, RetryStepDelay = 0, MaxRetries = 3, InputKeys = []\<rparr>, CheckpointInterval = 1,
     cfgUuidString = (\<lambda>u. CHR ''c'' # bytes_str u), cfgUuidParse = (\<lambda>k. Some (str_bytes (tl k))),
     cfgMarshal = (\<lambda>_. Inr [1]), cfgUnmarshal = (\<lambda>_. Inl ErrEOF)\<rparr>"

definition exampleRouter :: router where
  "exampleRouter = \<lparr>roCfg = exampleCfg, sectionToRouteBy = ''origin'', fieldToRouteBy = ''BankID'',
     nextWorkerAmount = 3, roOrder = rev\<rparr>"

definition exampleSpliter :: spliter where
  "exampleSpliter = \<lparr>spCfg = exampleCfg, fieldsToRouteBy = [''origin'', ''dest''], spNextWorkerAmount = 3, spOrder = rev\<rparr>"

definition exampleCleaner :: cleaner where
  "exampleCleaner = \<lparr>clCfg = exampleCfg, fieldsToClean = [''to_bank'', ''payment_format'']\<rparr>"

definition exampleDateRange :: dateRange where
  "exampleDateRange = \<lparr>drCfg = exampleCfg, fromDate = ''2022/09/01 00:00'', toDate = ''2022/09/05 23:59''\<rparr>"

definition exampleSyncFilter :: syncFilter where
  "exampleSyncFilter = \<lparr>sfCfg = exampleCfg, sfType = ''format'', sfOperator = ''=='', ValueFloat = 0,
     ValueStrings = [''Reinvestment'']\<rparr>"

lemma exampleBatch: "EncodeTransactionBatch [exampleTx] = Inr exampleBatch"
  "DecodeTransactionBatch exampleBatch = Inr [exampleTx]"
proof -
  show e: "EncodeTransactionBatch [exampleTx] = Inr exampleBatch"
    using exampleTx_encodes by (auto simp: exampleBatch_def)
  show "DecodeTransactionBatch exampleBatch = Inr [exampleTx]" by (rule batch_arrives [OF e]) simp
qed

lemma batchEnvelope_simps [simp]:
  "Payload (batchEnvelope i) = exampleBatch" "MsgType (batchEnvelope i) = MsgTransactionsBatch"
  "ClientId (batchEnvelope i) = replicate 16 1" "MsgID (batchEnvelope i) = replicate 16 i"
  by (simp_all add: batchEnvelope_def)

theorem router_partitions_batch_witness:
  "sum_list (map pbCount (emits (Router_effects exampleRouter (batchEnvelope 2)))) = 1"
  using router_partitions_batch [of "batchEnvelope 2" "[exampleTx]" exampleRouter]
  by (simp add: exampleBatch exampleRouter_def)

theorem cleaner_blanks_configured_columns_witness:
  "\<exists>payload. Cleaner_effects exampleCleaner (batchEnvelope 2) =
       [Receive 1, Emit \<lparr>pbType = MsgTransactionsBatch, pbKey = KeyNil, pbPayload = payload,
                         pbId = DeriveMsgID (replicate 16 2) KeyNil 0, pbCount = 1\<rparr>]
     \<and> DecodeTransactionBatch payload = Inr [exampleTx\<lparr>ToBank := '''', PaymentFormat := ''''\<rparr>]"
  using cleaner_blanks_configured_columns [of "batchEnvelope 2" "[exampleTx]" exampleCleaner]
  by (simp add: exampleBatch exampleCleaner_def blanked_def) blast

theorem date_filter_splits_period_witness:
  "\<exists>es. DateRange_effects exampleDateRange (batchEnvelope 2) = es @ [Receive 1]
     \<and> carriesGroup KeyDollarTransaction [exampleTx] (emits es) \<and> carriesGroup KeyNonDollarTransaction [] (emits es)"
proof -
  have "filter (inPeriod exampleDateRange True) [exampleTx] = [exampleTx]"
    "filter (inPeriod exampleDateRange False) [exampleTx] = []"
    by (simp_all add: inPeriod_def exampleTx_def exampleDateRange_def less_eq_char_def less_char_def)
  then show ?thesis
    using date_filter_splits_period [of "batchEnvelope 2" "[exampleTx]" exampleDateRange]
    by (simp add: exampleBatch currencyKey_def) (metis (full_types))
qed

theorem spliter_sends_once_per_role_witness:
  "\<exists>gs :: (bucketKey \<times> pubn) list. Spliter_effects exampleSpliter (batchEnvelope 2) = map (\<lambda>g. Emit (snd g)) gs @ [Receive 1]
     \<and> sum_list (map (pbCount \<circ> snd) gs) = 2"
proof -
  have ok: "routable exampleSpliter exampleTx"
    by (simp add: routable_def exampleSpliter_def exampleTx_def GetTransactionField_def GetOriginId_def GetDestId_def)
  have cfg: "spNextWorkerAmount exampleSpliter \<noteq> 0" "\<And>m. mset (spOrder exampleSpliter m) = mset m"
    "length [exampleTx] * length (fieldsToRouteBy exampleSpliter) < 2 ^ 32"
    "length [exampleTx] * length (fieldsToRouteBy exampleSpliter) = 2"
    by (simp_all add: exampleSpliter_def)
  have all: "\<forall>t\<in>set [exampleTx]. routable exampleSpliter t" using ok by simp
  have "DecodeTransactionBatch (Payload (batchEnvelope 2)) = Inr [exampleTx]" by (simp add: exampleBatch)
  note spliter_sends_once_per_role [of "batchEnvelope 2" "[exampleTx]" exampleSpliter, OF this cfg(1,2,3),
      unfolded if_P [OF all] cfg(4)]
  then obtain gs :: "(bucketKey \<times> pubn) list" where "Spliter_effects exampleSpliter (batchEnvelope 2) = map (\<lambda>g. Emit (snd g)) gs @ [Receive (length [exampleTx])]"
    "sum_list (map (pbCount \<circ> snd) gs) = 2" by blast
  then show ?thesis by (intro exI [of _ gs]) simp
qed


end
