(* ===== verification/StageRuns.thy ===== *)
theory StageRuns
  imports StageBatches Liveness
begin

text \<open>
  Runs of whole nodes over sequences of deliveries: what is acknowledged has been published, what is
  announced is what was published, and the two ends of a channel count the same. A fresh node has
  neither seen ids, counters, acks nor messages; its disk, and the faults of its disk and broker, are
  arbitrary.
\<close>

definition freshNode :: "'x wnode \<Rightarrow> bool" where
  "freshNode s \<longleftrightarrow> (\<forall>c. seenIDs (nodePub s) c = {}) \<and> clients (nodeCtl s) = [] \<and> outbox s = [] \<and> acksOf s = {}"

definition deliveries :: "(Message \<times> nat) list \<Rightarrow> nodeInput list" where
  "deliveries ds = map (\<lambda>(m, a). Deliver m a) ds"

lemma nodeRun_deliveries:
  "nodeRun src hm cb (deliveries ds) s = fold (\<lambda>(m, a) s. consume src hm m a s) ds s"
  by (induction ds arbitrary: s) (auto simp: nodeRun_def deliveries_def)

lemma fresh_start:
  assumes "freshNode s"
  shows "settledNode effects {} s" "accounted c U s" "receivedFrom {} c s" "countedPublished effects {} s"
  using assms
  by (simp_all add: freshNode_def settledNode_def accounted_def receivedFrom_def countedPublished_def alreadySeen_def
      sentOf_def rcvOf_def clientOf_def mgetd_def NewClient_def)

lemma runs_unfold:
  "Cleaner_Run w1 (deliveries ds) s = fold (\<lambda>(m, a) s. consume (workerSources (clCfg w1) None)
     (\<lambda>m a. Dispatch nodePub putPub (Cleaner_handlers w1 a) m) m a s) ds s"
  "Router_Run w2 (deliveries ds) s = fold (\<lambda>(m, a) s. consume (workerSources (roCfg w2) None)
     (\<lambda>m a. Dispatch nodePub putPub (Router_handlers w2 a) m) m a s) ds s"
  "DateRange_Run w3 (deliveries ds) s = fold (\<lambda>(m, a) s. consume (workerSources (drCfg w3) None)
     (\<lambda>m a. Dispatch nodePub putPub (DateRange_handlers w3 a) m) m a s) ds s"
  "Spliter_Run w4 (deliveries ds) s = fold (\<lambda>(m, a) s. consume (workerSources (spCfg w4) None)
     (\<lambda>m a. Dispatch nodePub putPub (Spliter_handlers w4 a) m) m a s) ds s"
  by (simp_all add: Cleaner_Run_def Router_Run_def DateRange_Run_def Spliter_Run_def nodeRun_deliveries
      Cleaner_sources_def Router_sources_def DateRange_sources_def Spliter_sources_def
      Cleaner_handleMessage_def [abs_def] Router_handleMessage_def [abs_def] DateRange_handleMessage_def [abs_def]
      Spliter_handleMessage_def [abs_def])

section \<open>A concrete node\<close>

text \<open>
  A router node that has just started, on an empty disk, with a file name for its client, and one
  batch delivered to it.
\<close>

definition startedRouter :: router where
  "startedRouter = exampleRouter\<lparr>roCfg := exampleCfg\<lparr>cfgUuidString := (\<lambda>_. ''c'')\<rparr>\<rparr>"

definition startedNode :: "unit wnode" where
  "startedNode = NewCoordinator
     \<lparr>wPub = newDedupState, wCtl = NewSyncEOFController 0 1 0 0 3 True True True, wNet = \<lparr>outcomes = [], sent = []\<rparr>,
      wCtlOut = [], wNacked = [], wDown = False\<rparr> \<lparr>files = [], script = []\<rparr> 1"

definition batchMessage :: Message where
  "batchMessage = \<lparr>RoutingKey = KeyNil, Body = EncodeInternalEnvelope (batchEnvelope 2), ContentType = ContentTypeBinary\<rparr>"

lemma exampleBatch_length: "length exampleBatch < 1000"
  by (simp add: exampleBatch_def EncodeTransactionBatch_def encodeBatch_def encodeTransaction_def exampleTx_def
      encodeTransactionAccount_def encodeMoney_def writeString_def writeFloat64_def writeBool_def MaxUint16_def)

lemma batchMessage: "batchOf batchMessage = Some (batchEnvelope 2)"
proof -
  have "wf_envelope (batchEnvelope 2)"
    using exampleBatch_length by (simp add: wf_envelope_def)
  then show ?thesis by (simp add: batchOf_Some batchMessage_def DecodeInternalEnvelope_Encode)
qed

lemma startedNode: "freshNode startedNode" "healthy startedNode" "coAcks startedNode = []" "coInterval startedNode = 1"
  by (simp_all add: freshNode_def healthy_def startedNode_def NewCoordinator_def NewSyncEOFController_def outbox_def acksOf_def)

lemma startedRouter:
  "nextWorkerAmount startedRouter \<noteq> 0" "mset (roOrder startedRouter m) = mset m"
  "validKey (cfgUuidString (roCfg startedRouter) c) = Inr ()" "\<exists>b. cfgMarshal (roCfg startedRouter) cp = Inr b"
proof -
  have "validKey ''c'' = Inr ()" by code_simp
  then show "validKey (cfgUuidString (roCfg startedRouter) c) = Inr ()" by (simp add: startedRouter_def)
qed (simp_all add: startedRouter_def exampleRouter_def exampleCfg_def)

section \<open>Acknowledged means published\<close>

lemma Router_healthy_run:
  assumes "healthy s" "coAcks s = []" "nextWorkerAmount w \<noteq> 0" "\<And>m. mset (roOrder w m) = mset m"
    and "\<And>c. validKey (cfgUuidString (roCfg w) c) = Inr ()" "\<And>cp. \<exists>b. cfgMarshal (roCfg w) cp = Inr b"
    and "\<forall>(m, a)\<in>set ds. \<exists>env txs. batchOf m = Some env \<and> DecodeTransactionBatch (Payload env) = Inr txs"
  defines "s' \<equiv> Router_Run w (deliveries ds) s"
  shows "healthy s' \<and> acksOf s' = snd ` set ds \<union> acksOf s \<and> (coInterval s \<le> 1 \<longrightarrow> coAcks s' = [])"
proof -
  have "\<exists>env. batchOf m = Some env \<and> Abort \<notin> set (Router_effects w env) \<and> Boom \<notin> set (Router_effects w env)"
    if "(m, a) \<in> set ds" for m a
  proof -
    have "\<exists>env txs. batchOf m = Some env \<and> DecodeTransactionBatch (Payload env) = Inr txs"
      using bspec [OF assms(7) that] by simp
    then obtain env txs where e: "batchOf m = Some env" "DecodeTransactionBatch (Payload env) = Inr txs" by (elim exE conjE)
    show ?thesis using e(1) Router_effects_clean [OF e(2) assms(3,4)] by (intro exI [of _ env] conjI) simp_all
  qed
  then have clean: "\<forall>(m, a)\<in>set ds. \<exists>env. batchOf m = Some env \<and> Abort \<notin> set (Router_effects w env) \<and> Boom \<notin> set (Router_effects w env)"
    by (intro ballI) (auto split: prod.split)
  note run = router.batches_healthy [OF clean sound_worker [OF assms(6)] assms(5,1), folded runs_unfold s'_def]
  show ?thesis using run assms(2) unfolding Let_def by blast
qed

text \<open>
  C29. A router acknowledges a batch only when the broker has all its messages. Over every sequence of
  deliveries and redeliveries, with any send failures, disk failures and a crash anywhere, every ack
  the node called (or holds back until the next flush) is that of a delivered batch all of whose
  messages the broker has accepted. So a batch whose publication was cut short stays unacknowledged
  and will be delivered again.
\<close>

theorem router_acks_only_published:
  assumes "freshNode s" "\<forall>(m, a)\<in>set ds. batchOf m \<noteq> None" "redeliveriesAgree (Router_effects w) (map fst ds)"
    and "a \<in> set (coAcked (Router_Run w (deliveries ds) s)) \<union> set (coAcks (Router_Run w (deliveries ds) s))"
  shows "\<exists>m env. (m, a) \<in> set ds \<and> batchOf m = Some env
    \<and> outputs (Router_effects w) env \<subseteq> set (outbox (Router_Run w (deliveries ds) s))"
proof -
  have "settledNode (Router_effects w) (set ds) (Router_Run w (deliveries ds) s)"
    unfolding runs_unfold by (rule router.batches_settled [OF assms(2,3) fresh_start(1) [OF assms(1)]])
  with assms(4) show ?thesis unfolding settledNode_def acksOf_def by blast
qed

lemma startedRun_acks: "7 \<in> acksOf (Router_Run startedRouter (deliveries [(batchMessage, 7)]) startedNode)"
  using Router_healthy_run [of startedNode startedRouter "[(batchMessage, 7)]"]
  by (simp add: startedNode startedRouter batchMessage exampleBatch)

theorem router_acks_only_published_witness:
  "outputs (Router_effects startedRouter) (batchEnvelope 2)
     \<subseteq> set (outbox (Router_Run startedRouter (deliveries [(batchMessage, 7)]) startedNode))"
proof -
  have "redeliveriesAgree (Router_effects startedRouter) (map fst [(batchMessage, 7 :: nat)])"
    by (auto simp: redeliveriesAgree_def)
  from router_acks_only_published [OF startedNode(1) _ this startedRun_acks [unfolded acksOf_def]]
  show ?thesis by (auto simp: batchMessage)
qed



section \<open>Announced means published\<close>

text \<open>The publications of a client among a list of deliveries.\<close>

definition clientPubns :: "(InternalEnvelope \<Rightarrow> effect list) \<Rightarrow> uuid \<Rightarrow> (Message \<times> nat) list \<Rightarrow> pubn set" where
  "clientPubns effects c ds =
     {p. \<exists>(m, a)\<in>set ds. \<exists>env. batchOf m = Some env \<and> ClientId env = c \<and> p \<in> set (emits (effects env))}"

definition properIds :: "(InternalEnvelope \<Rightarrow> effect list) \<Rightarrow> bool" where
  "properIds effects \<longleftrightarrow> (\<forall>env. \<forall>p\<in>set (emits (effects env)). length (pbId p) = 16)"

lemma Router_emits_ids: "p \<in> set (emits (Router_emits env m)) \<Longrightarrow> length (pbId p) = 16"
  by (induction env m rule: Router_emits.induct) (auto simp: batchPubn_def split: sum.splits)

lemma properIds_stages: "properIds (Router_effects w)" "properIds (Cleaner_effects w')"
  by (auto simp: properIds_def Router_effects_def Cleaner_effects_def Router_emits_ids split: sum.splits option.splits)

lemma draws_deliveries:
  assumes "properIds effects" "\<forall>(m, a)\<in>set ds. batchOf m \<noteq> None"
  shows "\<forall>(m, a)\<in>set ds. \<exists>env. batchOf m = Some env \<and> drawsFrom c (clientPubns effects c ds) (ClientId env) (effects env)"
proof clarify
  fix m a assume ma: "(m, a) \<in> set ds"
  with assms(2) obtain env where env: "batchOf m = Some env" by auto
  then have "length (ClientId env) = 16" by (auto simp: batchOf_Some intro: decoded_client_length)
  with env ma assms(1) show "\<exists>env. batchOf m = Some env \<and> drawsFrom c (clientPubns effects c ds) (ClientId env) (effects env)"
    unfolding drawsFrom_def clientPubns_def properIds_def by blast
qed



end
