(* ===== verification/Constructors.thy ===== *)
theory Constructors
  imports StageBatches
begin

text \<open>
  How the workers are built from their configuration: \<open>NewCleaner\<close>, \<open>NewRouter\<close>, \<open>NewSpliter\<close>,
  \<open>NewDateRange\<close>, \<open>NewSyncFilter\<close> and the parsers of their parameters. \<open>os.Getenv\<close> is the function
  \<open>env\<close>; the order in which Go iterates a map is a parameter where it decides something.
\<close>

section \<open>strconv.Atoi\<close>

definition isDigit :: "char \<Rightarrow> bool" where
  "isDigit c \<longleftrightarrow> CHR ''0'' \<le> c \<and> c \<le> CHR ''9''"

definition Atoi :: "string \<Rightarrow> int result" where
  "Atoi s =
     (let neg = (s \<noteq> [] \<and> hd s = CHR ''-''); signed = (s \<noteq> [] \<and> (hd s = CHR ''-'' \<or> hd s = CHR ''+''));
          ds = (if signed then tl s else s) in
      if ds = [] \<or> \<not> list_all isDigit ds then Inl (Errorf ''strconv.Atoi: parsing: invalid syntax'' [])
      else let n = int (atoi_acc 0 ds); v = (if neg then - n else n) in
        if - (2 ^ 63) \<le> v \<and> v < 2 ^ 63 then Inr v
        else Inl (Errorf ''strconv.Atoi: parsing: value out of range'' []))"

section \<open>Dynamically typed parameters\<close>

text \<open>The string entries of a \<open>[]any\<close>.\<close>

definition stringEntries :: "goany list \<Rightarrow> string list" where
  "stringEntries xs = concat (map (\<lambda>x. case x of AString s \<Rightarrow> [s] | _ \<Rightarrow> []) xs)"

definition listParam :: "workerCfg \<Rightarrow> string \<Rightarrow> string list" where
  "listParam cfg name = (case mget (Params cfg) name of Some (AList xs) \<Rightarrow> stringEntries xs | _ \<Rightarrow> [])"

definition stringParam :: "gerr \<Rightarrow> workerCfg \<Rightarrow> string \<Rightarrow> string result" where
  "stringParam e cfg name = (case mget (Params cfg) name of Some (AString s) \<Rightarrow> Inr s | _ \<Rightarrow> Inl e)"

definition floatParam :: "gerr \<Rightarrow> workerCfg \<Rightarrow> string \<Rightarrow> float64 result" where
  "floatParam e cfg name = (case mget (Params cfg) name of Some (AFloat x) \<Rightarrow> Inr x | _ \<Rightarrow> Inl e)"

section \<open>Constructors\<close>

definition NewCleaner :: "workerCfg \<Rightarrow> cleaner" where
  "NewCleaner cfg = \<lparr>clCfg = cfg, fieldsToClean = listParam cfg ''field''\<rparr>"

fun firstString :: "(string \<times> goany) list \<Rightarrow> string \<times> string" where
  "firstString [] = ('''', '''')"
| "firstString ((section, AString s) # m) = (section, s)"
| "firstString (_ # m) = firstString m"

definition parseRouteField ::
  "((string \<times> goany) list \<Rightarrow> (string \<times> goany) list) \<Rightarrow> (string, goany) gomap \<Rightarrow> string \<times> string" where
  "parseRouteField order params =
     (case mget params ''field'' of Some (AMap m) \<Rightarrow> firstString (order m) | _ \<Rightarrow> ('''', ''''))"

definition NewRouter ::
  "(string \<Rightarrow> string) \<Rightarrow> ((string \<times> goany) list \<Rightarrow> (string \<times> goany) list)
    \<Rightarrow> ((string, Transaction list) gomap \<Rightarrow> (string, Transaction list) gomap) \<Rightarrow> workerCfg \<Rightarrow> router result" where
  "NewRouter env order groupOrder cfg =
     (let amount = env ''NEXT_WORKER_AMOUNT'' in
      if amount = '''' then Inl (Errorf ''NEXT_WORKER_AMOUNT environment variable is not set'' [])
      else rbind (wrapf ''Invalid NEXT_WORKER_AMOUNT environment variable'' [] (Atoi amount)) (\<lambda>n.
        case parseRouteField order (Params cfg) of (section, field) \<Rightarrow>
          Inr \<lparr>roCfg = cfg, sectionToRouteBy = section, fieldToRouteBy = field, nextWorkerAmount = n,
               roOrder = groupOrder\<rparr>))"

definition NewSpliter ::
  "((bucketKey, Transaction list) gomap \<Rightarrow> (bucketKey, Transaction list) gomap) \<Rightarrow> workerCfg \<Rightarrow> spliter" where
  "NewSpliter groupOrder cfg =
     \<lparr>spCfg = cfg, fieldsToRouteBy = listParam cfg ''field'', spNextWorkerAmount = NextWorkerAmount cfg,
      spOrder = groupOrder\<rparr>"

definition NewDateRange :: "workerCfg \<Rightarrow> dateRange result" where
  "NewDateRange cfg =
     rbind (stringParam (Errorf ''Invalid type parameter for DateRangeFilter'' []) cfg ''type'') (\<lambda>_.
     rbind (stringParam (Errorf ''Invalid from parameter for DateRangeFilter'' []) cfg ''from'') (\<lambda>from.
     rbind (stringParam (Errorf ''Invalid to parameter for DateRangeFilter'' []) cfg ''to'') (\<lambda>to.
     if from = '''' \<or> to = '''' then Inl (Errorf ''both 'from' and 'to' are required for DateRangeFilter'' [])
     else Inr \<lparr>drCfg = cfg, fromDate = from, toDate = to\<rparr>)))"

text \<open>\<open>None\<close> is a nil \<open>any\<close>, as a missing parameter gives.\<close>

definition parseValueStrings :: "goany option \<Rightarrow> string list result" where
  "parseValueStrings raw =
     (case raw of
        None \<Rightarrow> Inr []
      | Some (AString v) \<Rightarrow> Inr (if v = '''' then [] else [v])
      | Some (AList xs) \<Rightarrow>
          if list_all (\<lambda>x. case x of AString _ \<Rightarrow> True | _ \<Rightarrow> False) xs then Inr (stringEntries xs)
          else Inl (Errorf ''value_string entries must be strings'' [])
      | Some _ \<Rightarrow> Inl (Errorf ''Invalid value_string parameter for SyncFilter'' []))"

definition NewSyncFilter :: "workerCfg \<Rightarrow> syncFilter result" where
  "NewSyncFilter cfg =
     rbind (stringParam (Errorf ''Invalid type parameter for SyncAmountFilter'' []) cfg ''type'') (\<lambda>type.
     rbind (stringParam (Errorf ''Invalid field parameter for SyncAmountFilter'' []) cfg ''field'') (\<lambda>_.
     rbind (stringParam (Errorf ''Invalid operator parameter for SyncAmountFilter'' []) cfg ''operator'') (\<lambda>operator.
     rbind (floatParam (Errorf ''Invalid value_float parameter for SyncFilter'' []) cfg ''value_float'') (\<lambda>x.
     rbind (parseValueStrings (mget (Params cfg) ''value_string'')) (\<lambda>values.
     if type = ''format'' \<and> values = []
     then Inl (Errorf ''format filter requires at least one value_string entry'' [])
     else Inr \<lparr>sfCfg = cfg, sfType = type, sfOperator = operator, ValueFloat = x, ValueStrings = values\<rparr>)))))"

section \<open>What the constructors guarantee\<close>

lemma digit_char: "(n :: nat) < 10 \<Longrightarrow> isDigit (char_of (48 + n))"
proof -
  assume "n < 10"
  then have "n \<in> set [0..<10]" by simp
  then show ?thesis by (auto simp: isDigit_def upt_rec less_eq_char_def)
qed

lemma itoa_digits: "list_all isDigit (itoa n) \<and> itoa n \<noteq> []"
proof (induction n rule: itoa.induct)
  case (1 n)
  show ?case using 1 digit_char [of n] digit_char [of "n mod 10"] by (simp add: itoa.simps [of n])
qed

lemma Atoi_itoa: "n < 2 ^ 63 \<Longrightarrow> Atoi (itoa n) = Inr (int n)"
proof -
  assume n: "n < 2 ^ 63"
  obtain c cs where c: "itoa n = c # cs" "isDigit c" "list_all isDigit cs"
    using itoa_digits [of n] by (cases "itoa n") auto
  have "c \<noteq> CHR ''-''" "c \<noteq> CHR ''+''" using c(2) by (auto simp: isDigit_def less_eq_char_def)
  moreover have "int n < 2 ^ 63" using n by simp
  ultimately show ?thesis using c atoi_itoa [of n] by (simp add: Atoi_def)
qed

lemma routeAll_zero: "nextWorkerAmount w = 0 \<Longrightarrow> txs \<noteq> [] \<Longrightarrow> routeAll w txs m = None"
  by (cases txs) (simp_all add: shardByField_def shardOf_def)

text \<open>
  A router accepts every \<open>NEXT_WORKER_AMOUNT\<close> that is a number, and routes to that many workers;
  zero included, for which every non-empty batch makes it panic (the remainder by zero), while no
  other value does. A missing variable, and one that is not a decimal number, is an error.
\<close>

lemma router_worker_amount:
  assumes "\<And>m. mset (groupOrder m) = mset m" "n < 2 ^ 63"
    and "DecodeTransactionBatch (Payload env) = Inr txs" "txs \<noteq> []"
  shows "(\<exists>w. NewRouter (\<lambda>_. itoa n) order groupOrder cfg = Inr w \<and> nextWorkerAmount w = int n
            \<and> (Boom \<in> set (Router_effects w env) \<longleftrightarrow> n = 0))
    \<and> (\<exists>e. NewRouter (\<lambda>_. '''') order groupOrder cfg = Inl e)
    \<and> (\<exists>e. NewRouter (\<lambda>_. ''three'') order groupOrder cfg = Inl e)"
proof -
  obtain sec field where f: "parseRouteField order (Params cfg) = (sec, field)" by fastforce
  define w where "w = \<lparr>roCfg = cfg, sectionToRouteBy = sec, fieldToRouteBy = field, nextWorkerAmount = int n,
               roOrder = groupOrder\<rparr>"
  have new: "NewRouter (\<lambda>_. itoa n) order groupOrder cfg = Inr w"
    using Atoi_itoa [OF assms(2)] itoa_digits [of n] by (simp add: NewRouter_def f w_def)
  have w: "nextWorkerAmount w = int n" "\<And>m. mset (roOrder w m) = mset m" by (simp_all add: w_def assms(1))
  have "Boom \<in> set (Router_effects w env) \<longleftrightarrow> n = 0"
  proof (cases "n = 0")
    case True
    then show ?thesis using assms(3) routeAll_zero [of w txs] assms(4) by (simp add: Router_effects_def w(1))
  next
    case False
    then have "Abort \<notin> set (Router_effects w env) \<and> Boom \<notin> set (Router_effects w env)"
      by (intro Router_effects_clean [OF assms(3) _ w(2)]) (simp add: w(1))
    with False show ?thesis by simp
  qed
  moreover have "\<exists>e. NewRouter (\<lambda>_. '''') order groupOrder cfg = Inl e" by (simp add: NewRouter_def)
  moreover have "\<exists>e. NewRouter (\<lambda>_. ''three'') order groupOrder cfg = Inl e"
    by (simp add: NewRouter_def Atoi_def isDigit_def less_eq_char_def wrapf_def)
  ultimately show ?thesis using new w(1) by blast
qed

lemma router_worker_amount_witness:
  "\<exists>w. NewRouter (\<lambda>_. itoa 0) id id exampleCfg = Inr w \<and> Boom \<in> set (Router_effects w (batchEnvelope 2))"
  using router_worker_amount [of id 0 "batchEnvelope 2" "[exampleTx]" id exampleCfg] by (auto simp: exampleBatch)

end
