(* ===== verification/Barrier.thy ===== *)
theory Barrier
  imports Filters
begin

text \<open>
  What the stateful workers without an EOF controller have in common (\<open>workers/aggregator\<close>,
  \<open>workers/join\<close>, \<open>workers/converter\<close> and two filters): state of their own that is checkpointed beside
  the duplicate filter, an EOF barrier that counts the EOFs of the previous stage, and a consumer
  loop that tracks every delivery and, after an EOF, flushes and forgets a client that is finished.
  The worker's own state is the extension \<open>worker.more\<close> of the host record; EOF counters are
  unbounded integers (they count messages).
\<close>

section \<open>Own state\<close>

definition own :: "'x wnode \<Rightarrow> 'x" where
  "own s = worker.more (coHost s)"

definition updOwn :: "('x \<Rightarrow> 'x) \<Rightarrow> 'x wnode \<Rightarrow> 'x wnode" where
  "updOwn f = updHost (worker.more_update f)"

definition ownSource ::
  "(uuid \<Rightarrow> 'x \<Rightarrow> bytes result \<times> 'x) \<Rightarrow> (uuid \<Rightarrow> bytes \<Rightarrow> 'x \<Rightarrow> unit result \<times> 'x) \<Rightarrow> 'x worker_scheme Checkpointable" where
  "ownSource snap restore =
     \<lparr>snapshotClient = (\<lambda>c w. case snap c (worker.more w) of (r, x) \<Rightarrow> (r, worker.more_update (\<lambda>_. x) w)),
      restoreClient = (\<lambda>c data w. case restore c data (worker.more w) of (r, x) \<Rightarrow> (r, worker.more_update (\<lambda>_. x) w))\<rparr>"

text \<open>The coordinator of these workers: \<open>NewCoordinator(dir, pub, nil, state, interval)\<close>.\<close>

definition plainSources :: "workerCfg \<Rightarrow> 'x worker_scheme Checkpointable option \<Rightarrow> 'x worker_scheme sources" where
  "plainSources cfg st =
     \<lparr>srcSeen = publisherSource wPub (\<lambda>d w. w\<lparr>wPub := d\<rparr>), srcEof = None, srcState = st,
      uuidString = cfgUuidString cfg, uuidParse = cfgUuidParse cfg\<rparr>"

section \<open>EOF messages\<close>

text \<open>\<open>fmt.Sprintf("%s#%d", cfg.WorkerPrefix, cfg.WorkerID)\<close>\<close>

definition stageName :: "workerCfg \<Rightarrow> string" where
  "stageName cfg = WorkerPrefix cfg @ ''#'' @ itoaInt (WorkerID cfg)"

definition eofMsgID :: "workerCfg \<Rightarrow> uuid \<Rightarrow> MsgID" where
  "eofMsgID cfg c = StageMsgID c (stageName cfg) ''eof'' 0"

definition forwardFlushEOF :: "workerCfg \<Rightarrow> 'x worker_scheme sources \<Rightarrow> uuid \<Rightarrow> ('x, unit) act" where
  "forwardFlushEOF cfg src c =
     wbind (wresult (wrapf ''encoding flush EOF'' [] (EncodeEOFCountsEnvelope c flushCounts))) (\<lambda>envelope.
     wbind (wwrap ''sending flush EOF'' (publishRaw KeyControlEOF envelope (eofMsgID cfg c))) (\<lambda>_.
     fromIo (coFlush src)))"

definition isFlushPayload :: "bytes \<Rightarrow> bool" where
  "isFlushPayload payload = (case DecodeEOFCounts payload of Inl e \<Rightarrow> False | Inr counts \<Rightarrow> IsFlushEOF counts)"

section \<open>The consumer callback\<close>

text \<open>
  After the handler: \<open>Track\<close> (its error is dropped), and after an EOF \<open>Flush\<close>, and unless the client is
  still counting EOFs \<open>Forget\<close>, a worker-specific cleanup and \<open>Delete\<close>. An error of these is logged.
\<close>

definition endOfClient ::
  "'x worker_scheme sources \<Rightarrow> (uuid \<Rightarrow> 'x \<Rightarrow> bool) \<Rightarrow> (uuid \<Rightarrow> 'x \<Rightarrow> 'x) \<Rightarrow> uuid \<Rightarrow> ('x, unit) act" where
  "endOfClient src counting cleanup c =
     wbind (fromIo (coFlush src)) (\<lambda>_ s.
     if counting c (own s) then (Inr (), s)
     else wbind (wmodify (\<lambda>s. putPub (forget c (nodePub s)) s)) (\<lambda>_.
          wbind (wmodify (updOwn (cleanup c))) (\<lambda>_.
          fromIo (coDelete src c))) s)"

definition consumeEof ::
  "'x worker_scheme sources \<Rightarrow> 'x dispatcher \<Rightarrow> (uuid \<Rightarrow> 'x \<Rightarrow> bool) \<Rightarrow> (uuid \<Rightarrow> 'x \<Rightarrow> 'x)
    \<Rightarrow> Message \<Rightarrow> nat \<Rightarrow> 'x wnode \<Rightarrow> 'x wnode" where
  "consumeEof src hm counting cleanup msg ack s =
     (if nodeDown s then s
      else case hm msg ack s of
        None \<Rightarrow> stopNode s
      | Some (c, t, err, s') \<Rightarrow>
         if nodeDown s' then s'
         else case err of
             Some e \<Rightarrow> callNack ack s'
           | None \<Rightarrow>
               snd (wbind (ignoring (fromIo (Track src c ack))) (\<lambda>_.
                    if t = MsgTransactionsEOF then endOfClient src counting cleanup c else wresult (Inr ())) s'))"

definition noCleanup :: "uuid \<Rightarrow> 'x \<Rightarrow> 'x" where
  "noCleanup c x = x"

section \<open>Lemmas\<close>

lemma own_simps [simp]:
  "own (updHost f s) = worker.more (f (coHost s))" "own (updOwn g s) = g (own s)"
  "outbox (updOwn g s) = outbox s" "nodeNet (updOwn g s) = nodeNet s" "nodePub (updOwn g s) = nodePub s"
  "nodeDown (updOwn g s) = nodeDown s" "coFs (updOwn g s) = coFs s" "acksOf (updOwn g s) = acksOf s"
  "own (callAck a s) = own s" "own (callNack a s) = own s" "own (stopNode s) = own s"
  by (simp_all add: own_def updOwn_def updHost_def outbox_def acksOf_def callAck_def callNack_def stopNode_def)

lemma updOwn_same [simp]: "updOwn (\<lambda>_. own s) s = s"
  by (cases s) (simp add: updOwn_def updHost_def own_def)

lemma updOwn_updOwn [simp]: "updOwn (\<lambda>_. y) (updOwn f s) = updOwn (\<lambda>_. y) s"
  by (simp add: updOwn_def updHost_def)

text \<open>A send through a broker that works, and one that fails.\<close>

lemma publishRaw_cases:
  "outcomes (nodeNet s) = [] \<or> hd (outcomes (nodeNet s)) \<Longrightarrow>
     \<exists>s'. publishRaw key b i s = (Inr (), s') \<and> own s' = own s \<and> coFs s' = coFs s \<and> nodeDown s' = nodeDown s
       \<and> nodePub s' = nodePub s \<and> nodeCtl s' = nodeCtl s
       \<and> outbox s' = outbox s @ [\<lparr>RoutingKey = key, Body = SetEnvelopeMsgID b i, ContentType = ContentTypeBinary\<rparr>]
       \<and> outcomes (nodeNet s') = tl (outcomes (nodeNet s))"
  "outcomes (nodeNet s) = False # os \<Longrightarrow>
     \<exists>e s'. publishRaw key b i s = (Inl e, s') \<and> own s' = own s \<and> coFs s' = coFs s \<and> nodeDown s' = nodeDown s
       \<and> nodePub s' = nodePub s \<and> nodeCtl s' = nodeCtl s \<and> outbox s' = outbox s \<and> outcomes (nodeNet s') = os"
  by (cases "outcomes (nodeNet s)";
      auto simp: publishRaw_def PublishRawWithID_def pubSend_def netSend_def outbox_def own_def updHost_def wrapf_def)+

definition internalMessage :: "uuid \<Rightarrow> MsgType \<Rightarrow> KeyType \<Rightarrow> bytes \<Rightarrow> MsgID \<Rightarrow> Message" where
  "internalMessage c t key payload i =
     \<lparr>RoutingKey = key, Body = EncodeInternalEnvelope \<lparr>MsgType = t, ClientId = c, MsgID = i, Payload = payload\<rparr>,
      ContentType = ContentTypeBinary\<rparr>"

lemma publishWithID_works:
  "outcomes (nodeNet s) = [] \<or> hd (outcomes (nodeNet s)) \<Longrightarrow>
     \<exists>s'. publishWithID c t key payload i s = (Inr (), s') \<and> own s' = own s \<and> coFs s' = coFs s \<and> nodeDown s' = nodeDown s
       \<and> nodePub s' = nodePub s \<and> nodeCtl s' = nodeCtl s \<and> outbox s' = outbox s @ [internalMessage c t key payload i]
       \<and> outcomes (nodeNet s') = tl (outcomes (nodeNet s))"
  and publishWithID_fails:
  "outcomes (nodeNet s) = False # os \<Longrightarrow>
     \<exists>e s'. publishWithID c t key payload i s = (Inl e, s') \<and> own s' = own s \<and> coFs s' = coFs s \<and> nodeDown s' = nodeDown s
       \<and> nodePub s' = nodePub s \<and> nodeCtl s' = nodeCtl s \<and> outbox s' = outbox s \<and> outcomes (nodeNet s') = os"
  by (cases "outcomes (nodeNet s)";
      auto simp: publishWithID_def PublishInternalWithID_def pubSend_def netSend_def outbox_def own_def updHost_def wrapf_def
        internalMessage_def)+

lemma wbind_run: "m s = (Inr x, s') \<Longrightarrow> wbind m f s = f x s'"
  and wbind_stop: "m s = (Inl e, s') \<Longrightarrow> wbind m f s = (Inl e, s')"
  by (simp_all add: wbind_def)

section \<open>What a handler leaves alone\<close>

text \<open>
  Actions that neither forget nor mark a message id: all of a handler's, since marking is
  \<open>Dispatch\<close>'s and forgetting the consumer loop's.
\<close>

named_theorems keeps_seen \<open>actions that do not touch the duplicate filter\<close>

abbreviation seenOf :: "'x wnode \<Rightarrow> uuid \<Rightarrow> MsgID set" where
  "seenOf s \<equiv> seenIDs (nodePub s)"

lemma seen_wbind [keeps_seen]:
  "seenOf (snd (m s)) = seenOf s \<Longrightarrow> (\<And>x s'. seenOf (snd (f x s')) = seenOf s') \<Longrightarrow> seenOf (snd (wbind m f s)) = seenOf s"
  unfolding wbind_def by (auto split: prod.split sum.split)

lemma seen_basic [keeps_seen]:
  "seenOf (snd (r, s)) = seenOf s" "seenOf (snd (wresult r s)) = seenOf s" "seenOf (snd (wmodify (updOwn g) s)) = seenOf s"
  "seenOf (snd (wpanic s)) = seenOf s" "seenOf (snd (r, updOwn g s)) = seenOf s"
  "seenOf (snd (publishRaw key b i s)) = seenOf s" "seenOf (snd (publishWithID c t key payload i s)) = seenOf s"
  by (auto simp: wresult_def wmodify_def updOwn_def updHost_def wpanic_def stopNode_def publishRaw_def
      publishWithID_def split: prod.split)

lemma seen_wwrap [keeps_seen]: "seenOf (snd (m s)) = seenOf s \<Longrightarrow> seenOf (snd (wwrap msg m s)) = seenOf s"
  unfolding wwrap_def by (auto split: prod.split)

lemma seen_ignoring [keeps_seen]: "seenOf (snd (m s)) = seenOf s \<Longrightarrow> seenOf (snd (ignoring m s)) = seenOf s"
  unfolding ignoring_def wpanic_def stopNode_def updHost_def by (auto split: prod.split)

lemma seen_if [keeps_seen]:
  "(b \<Longrightarrow> seenOf (snd x) = y) \<Longrightarrow> (\<not> b \<Longrightarrow> seenOf (snd x') = y) \<Longrightarrow> seenOf (snd (if b then x else x')) = y"
  "(b \<Longrightarrow> seenOf (snd (m s)) = y) \<Longrightarrow> (\<not> b \<Longrightarrow> seenOf (snd (m' s)) = y) \<Longrightarrow> seenOf (snd ((if b then m else m') s)) = y"
  by auto

lemma seen_case [keeps_seen]:
  "(\<And>e. r = Inl e \<Longrightarrow> seenOf (snd (f e s)) = y) \<Longrightarrow> (\<And>x. r = Inr x \<Longrightarrow> seenOf (snd (g x s)) = y)
    \<Longrightarrow> seenOf (snd ((case r of Inl e \<Rightarrow> f e | Inr x \<Rightarrow> g x) s)) = y"
  "(o' = None \<Longrightarrow> seenOf (snd x) = y) \<Longrightarrow> (\<And>v. o' = Some v \<Longrightarrow> seenOf (snd (h v)) = y)
    \<Longrightarrow> seenOf (snd (case o' of None \<Rightarrow> x | Some v \<Rightarrow> h v)) = y"
  by (auto split: sum.split option.split)

lemma plainSources_quiet: "pureState st \<Longrightarrow> quietSources (plainSources cfg st)"
  using publisherSource_quiet
  by (auto simp: quietSources_def slots_def plainSources_def pureState_def split: option.splits)

lemma ownSource_pure: "(\<And>c x. snd (snap c x) = x) \<Longrightarrow> pureState (Some (ownSource snap restore))"
proof -
  assume pure: "\<And>c x. snd (snap c x) = x"
  have "worker.more_update (\<lambda>_. snd (snap c (worker.more w))) w = w" for c and w :: "'a worker_scheme"
    unfolding pure by (cases w) simp
  thus "pureState (Some (ownSource snap restore))" by (simp add: pureState_def ownSource_def case_prod_unfold)
qed

lemma seen_flush [keeps_seen]:
  assumes "quietSources src"
  shows "seenOf (snd (fromIo (coFlush src) s)) = seenOf s"
proof -
  have "sameWork (coHost s) (coHost (snd (coFlush src s)))" using quiet_flush [OF assms] unfolding keepsWork_def by blast
  thus ?thesis
    by (auto simp: fromIo_def sameWork_def wpanic_def stopNode_def updHost_def fun_eq_iff split: prod.splits io.splits)
qed

lemma outbox_flush:
  assumes "quietSources src"
  shows "outbox (snd (fromIo (coFlush src) s)) = outbox s" "own (snd (fromIo (coFlush src) s)) = own s"
proof -
  have "sameWork (coHost s) (coHost (snd (coFlush src s)))" using quiet_flush [OF assms] unfolding keepsWork_def by blast
  thus "outbox (snd (fromIo (coFlush src) s)) = outbox s" "own (snd (fromIo (coFlush src) s)) = own s"
    by (auto simp: fromIo_def sameWork_def wpanic_def stopNode_def updHost_def outbox_def own_def split: prod.splits io.splits)
qed

text \<open>The handlers of a worker keep the contract under which \<open>Dispatch\<close> handles a message at most once.\<close>

lemma publisher_hostI:
  fixes hs :: "(MsgType, 'x wnode handler) gomap"
  assumes "\<And>t h env s. (t, h) \<in> set hs \<Longrightarrow> seenOf (snd (h env s)) = seenOf s"
  shows "publisher_host nodePub putPub hs"
proof
  show "nodePub (putPub d s) = d" for d and s :: "'x wnode" by (simp add: putPub_def updHost_def)
  show "seenIDs (nodePub (snd (h env s))) = seenIDs (nodePub s)" if "mget hs t = Some h" for t h env s
    by (rule assms [OF map_of_SomeD [OF that]])
qed

section \<open>The EOF barrier\<close>

text \<open>
  A worker behind a stage of \<open>target\<close> replicas: \<open>handle\<close> is its EOF handler, \<open>counted\<close> the number of EOFs
  it has counted for a client. An EOF that is not the last one is only counted.
\<close>

locale eof_barrier =
  fixes handle :: "'x wnode handler"
    and counted :: "uuid \<Rightarrow> 'x \<Rightarrow> int"
    and target :: int
  assumes counts: "\<not> isFlushPayload (Payload env) \<Longrightarrow> counted (ClientId env) (own s) + 1 < target \<Longrightarrow>
    \<exists>s'. handle env s = (Inr (), s') \<and> counted (ClientId env) (own s') = counted (ClientId env) (own s) + 1
      \<and> outbox s' = outbox s"
begin

lemma waits:
  assumes "\<forall>env \<in> set envs. ClientId env = c \<and> \<not> isFlushPayload (Payload env)"
    and "counted c (own s) + int (length envs) < target"
  shows "outbox (fold (\<lambda>env s. snd (handle env s)) envs s) = outbox s
    \<and> counted c (own (fold (\<lambda>env s. snd (handle env s)) envs s)) = counted c (own s) + int (length envs)"
  using assms
proof (induction envs arbitrary: s)
  case (Cons env envs)
  then obtain s' where "handle env s = (Inr (), s')" "counted c (own s') = counted c (own s) + 1" "outbox s' = outbox s"
    using counts [of env s] by auto
  with Cons.IH [of s'] Cons.prems show ?case by simp
qed simp

end

end
