(* ===== verification/PairCounts.thy ===== *)
theory PairCounts
  imports Barrier
begin

text \<open>
  The tail of query 4: \<open>workers/aggregator/scattergather.go\<close> adds up the counts of the pairs it is sent
  and, after the last EOF of the previous stage, ships them in batches; \<open>workers/filter/scattergather.go\<close>
  keeps the pairs that reach the threshold; \<open>workers/join/query4.go\<close> collects their accounts and sends
  the result. Go maps are association lists; the order in which one is iterated is a parameter.
\<close>

section \<open>Pair accumulator (aggregator/scattergather.go)\<close>

definition pairBatchSize :: nat where "pairBatchSize = 1000"

record pairCheckpoint =
  cpPairs :: "TxQ4PairCount list"
  cpEOFCounters :: int

record pairState =
  pcClients :: "(uuid, (TxQ4PairKey, goint) gomap) gomap"
  pcEofs :: "(uuid, int) gomap"

record pairCounter =
  pcCfg :: workerCfg
  pcOrder :: "(TxQ4PairKey, goint) gomap \<Rightarrow> (TxQ4PairKey, goint) gomap"
  pcMarshal :: "pairCheckpoint \<Rightarrow> bytes result"
  pcUnmarshal :: "bytes \<Rightarrow> pairCheckpoint result"

definition newPairState :: pairState where
  "newPairState = \<lparr>pcClients = [], pcEofs = []\<rparr>"

definition pcGetClient :: "uuid \<Rightarrow> pairState \<Rightarrow> pairState" where
  "pcGetClient c x = (if mhas (pcClients x) c then x else x\<lparr>pcClients := mput c [] (pcClients x)\<rparr>)"

definition accumulatorOf :: "uuid \<Rightarrow> pairState \<Rightarrow> (TxQ4PairKey, goint) gomap" where
  "accumulatorOf c x = mgetd [] (pcClients x) c"

definition pcDeleteClient :: "uuid \<Rightarrow> pairState \<Rightarrow> pairState" where
  "pcDeleteClient c x = x\<lparr>pcClients := mdel c (pcClients x)\<rparr>"

definition PairCounter_SnapshotClient :: "pairCounter \<Rightarrow> uuid \<Rightarrow> pairState \<Rightarrow> bytes result \<times> pairState" where
  "PairCounter_SnapshotClient w c x =
     (let x = pcGetClient c x in
      (pcMarshal w \<lparr>cpPairs = map (\<lambda>(k, n). \<lparr>pcKey = k, pcCount = n\<rparr>) (pcOrder w (accumulatorOf c x)),
                    cpEOFCounters = mgetd 0 (pcEofs x) c\<rparr>, x))"

definition PairCounter_RestoreClient :: "pairCounter \<Rightarrow> uuid \<Rightarrow> bytes \<Rightarrow> pairState \<Rightarrow> unit result \<times> pairState" where
  "PairCounter_RestoreClient w c data x =
     (if data = [] then (Inr (), x)
      else case pcUnmarshal w data of
        Inl e \<Rightarrow> (Inl e, x)
      | Inr cp \<Rightarrow>
          let x = pcGetClient c x;
              acc = fold (\<lambda>pc m. mput (pcKey pc) (pcCount pc) m) (cpPairs cp) (accumulatorOf c x) in
          (Inr (), x\<lparr>pcClients := mput c acc (pcClients x), pcEofs := mput c (cpEOFCounters cp) (pcEofs x)\<rparr>))"

definition PairCounter_sources :: "pairCounter \<Rightarrow> pairState worker_scheme sources" where
  "PairCounter_sources w =
     plainSources (pcCfg w) (Some (ownSource (PairCounter_SnapshotClient w) (PairCounter_RestoreClient w)))"

text \<open>\<open>client.accumulator[key] += pc.Count\<close>, wrapping; the interning of the strings changes no value.\<close>

definition addPair :: "TxQ4PairCount \<Rightarrow> (TxQ4PairKey, goint) gomap \<Rightarrow> (TxQ4PairKey, goint) gomap" where
  "addPair pc m = mput (pcKey pc) (mgetd 0 m (pcKey pc) + pcCount pc) m"

definition PairCounter_handleTxQ4Message :: "pairCounter \<Rightarrow> pairState wnode handler" where
  "PairCounter_handleTxQ4Message w env =
     wbind (wresult (DecodeTxQ4PhaseTwoBatch (Payload env))) (\<lambda>pairs.
     wmodify (updOwn (\<lambda>x. let x = pcGetClient (ClientId env) x in
       x\<lparr>pcClients := mput (ClientId env) (fold addPair pairs (accumulatorOf (ClientId env) x)) (pcClients x)\<rparr>)))"

text \<open>
  The batches of \<open>handleEOFMessage\<close>: the sorted keys are cut as soon as the map of a batch has
  \<open>BATCH_SIZE\<close> entries (two keys with the same text share an entry).
\<close>

definition pairEntry :: "TxQ4PairKey \<Rightarrow> goint \<Rightarrow> TxQ4PairEntry" where
  "pairEntry pk n = \<lparr>peCount = n, SrcAccount = accountFromID (Src pk), DstAccount = accountFromID (Dst pk)\<rparr>"

fun pairBatches :: "nat \<Rightarrow> (TxQ4PairKey \<times> goint) list \<Rightarrow> TxQ4PhaseThree \<Rightarrow> TxQ4PhaseThree list" where
  "pairBatches sz [] batch = (if 0 < length batch then [batch] else [])"
| "pairBatches sz ((pk, n) # ps) batch =
     (let batch = mput (PairKey_Key pk) (pairEntry pk n) batch in
      if sz \<le> length batch then batch # pairBatches sz ps [] else pairBatches sz ps batch)"

fun emitPairBatches :: "pairCounter \<Rightarrow> uuid \<Rightarrow> nat \<Rightarrow> TxQ4PhaseThree list \<Rightarrow> (pairState, nat) act" where
  "emitPairBatches w c idx [] = wresult (Inr idx)"
| "emitPairBatches w c idx (b # bs) =
     wbind (wresult (EncodeTxQ4PhaseThreeEnvelope c b)) (\<lambda>envelope.
     wbind (publishRaw KeyNil envelope (StageMsgID c (stageName (pcCfg w)) ''result'' (word_of_nat idx))) (\<lambda>_.
     emitPairBatches w c (Suc idx) bs))"

definition sortedPairs :: "pairCounter \<Rightarrow> (TxQ4PairKey, goint) gomap \<Rightarrow> (TxQ4PairKey \<times> goint) list" where
  "sortedPairs w acc = sort_key (PairKey_Key \<circ> fst) (pcOrder w acc)"

definition forgetPairClient :: "uuid \<Rightarrow> pairState \<Rightarrow> pairState" where
  "forgetPairClient c x = (pcDeleteClient c x)\<lparr>pcEofs := mdel c (pcEofs x)\<rparr>"

definition PairCounter_handleEOFMessage :: "pairCounter \<Rightarrow> pairState wnode handler" where
  "PairCounter_handleEOFMessage w env =
     (let c = ClientId env; cfg = pcCfg w; src = PairCounter_sources w in
      if isFlushPayload (Payload env) then
        wbind (wmodify (updOwn (forgetPairClient c))) (\<lambda>_. forwardFlushEOF cfg src c)
      else
        wbind (wmodify (updOwn (\<lambda>x. x\<lparr>pcEofs := mput c (mgetd 0 (pcEofs x) c + 1) (pcEofs x)\<rparr>))) (\<lambda>_ s.
        if mgetd 0 (pcEofs (own s)) c < PrevWorkerAmount cfg then (Inr (), s)
        else
          wbind (wmodify (updOwn (pcGetClient c))) (\<lambda>_ s.
          wbind (emitPairBatches w c 0 (pairBatches pairBatchSize (sortedPairs w (accumulatorOf c (own s))) [])) (\<lambda>msgSent.
          wbind (wresult (EncodeEOFCountsEnvelope c [(KeyNil, word_of_nat msgSent)])) (\<lambda>eofEnvelope.
          wbind (publishRaw KeyControlEOF eofEnvelope (eofMsgID cfg c)) (\<lambda>_.
          wbind (wmodify (updOwn (forgetPairClient c))) (\<lambda>_.
          fromIo (coFlush src))))) s) s))"

definition PairCounter_handlers :: "pairCounter \<Rightarrow> (MsgType, pairState wnode handler) gomap" where
  "PairCounter_handlers w =
     [(MsgTxQ4, PairCounter_handleTxQ4Message w), (MsgTransactionsEOF, PairCounter_handleEOFMessage w)]"

definition PairCounter_handleMessage :: "pairCounter \<Rightarrow> pairState dispatcher" where
  "PairCounter_handleMessage w msg ack = Dispatch nodePub putPub (PairCounter_handlers w) msg"

definition PairCounter_counting :: "uuid \<Rightarrow> pairState \<Rightarrow> bool" where
  "PairCounter_counting c x \<longleftrightarrow> mhas (pcEofs x) c"

definition PairCounter_Start :: "pairCounter \<Rightarrow> fs \<Rightarrow> net \<Rightarrow> pairState wnode" where
  "PairCounter_Start w = bootNode (pcCfg w) (PairCounter_sources w) newPairState"

definition PairCounter_Run :: "pairCounter \<Rightarrow> (Message \<times> nat) list \<Rightarrow> pairState wnode \<Rightarrow> pairState wnode" where
  "PairCounter_Run w = fold (\<lambda>(m, a).
     consumeEof (PairCounter_sources w) (PairCounter_handleMessage w) PairCounter_counting noCleanup m a)"

section \<open>Threshold filter (filter/scattergather.go)\<close>

type_synonym thresholdState = "(uuid, int) gomap"

record thresholdFilter =
  thCfg :: workerCfg
  thresholdAmount :: goint
  thOrder :: "TxQ4PhaseThree \<Rightarrow> TxQ4PhaseThree"
  thMarshal :: "int \<Rightarrow> bytes result"
  thUnmarshal :: "bytes \<Rightarrow> int result"

definition NewThreshold :: "(TxQ4PhaseThree \<Rightarrow> TxQ4PhaseThree) \<Rightarrow> (int \<Rightarrow> bytes result) \<Rightarrow> (bytes \<Rightarrow> int result)
    \<Rightarrow> workerCfg \<Rightarrow> thresholdFilter result" where
  "NewThreshold order marshal unmarshal cfg =
     (if Threshold cfg \<le> 0 then Inl (Errorf ''ScatterGatherFilter requires SCATTER_GATHER_THRESHOLD > 0'' [])
      else Inr \<lparr>thCfg = cfg, thresholdAmount = word_of_int (Threshold cfg), thOrder = order, thMarshal = marshal,
                thUnmarshal = unmarshal\<rparr>)"

text \<open>
  \<open>SnapshotClient\<close> and \<open>RestoreClient\<close> exist, but \<open>Run\<close> passes a nil state to \<open>NewCoordinator\<close>, so the
  counters are never checkpointed.
\<close>

definition Threshold_SnapshotClient :: "thresholdFilter \<Rightarrow> uuid \<Rightarrow> thresholdState \<Rightarrow> bytes result \<times> thresholdState" where
  "Threshold_SnapshotClient w c x = (thMarshal w (mgetd 0 x c), x)"

definition Threshold_RestoreClient :: "thresholdFilter \<Rightarrow> uuid \<Rightarrow> bytes \<Rightarrow> thresholdState \<Rightarrow> unit result \<times> thresholdState" where
  "Threshold_RestoreClient w c data x =
     (if data = [] then (Inr (), x)
      else case thUnmarshal w data of Inl e \<Rightarrow> (Inl e, x) | Inr n \<Rightarrow> (Inr (), mput c n x))"

definition Threshold_sources :: "thresholdFilter \<Rightarrow> thresholdState worker_scheme sources" where
  "Threshold_sources w = plainSources (thCfg w) None"

text \<open>Errors of the encoder and of the broker are logged and the loop continues with the next pair.\<close>

fun sendQualifying :: "thresholdFilter \<Rightarrow> uuid \<Rightarrow> MsgID \<Rightarrow> TxQ4PhaseThree \<Rightarrow> (thresholdState, unit) act" where
  "sendQualifying w c parentID [] = wresult (Inr ())"
| "sendQualifying w c parentID ((key, entry) # m) =
     (if thresholdAmount w \<le>s peCount entry then
        (case EncodeAccountsEnvelope c [SrcAccount entry, DstAccount entry] of
           Inl e \<Rightarrow> sendQualifying w c parentID m
         | Inr out \<Rightarrow>
             wbind (ignoring (publishRaw KeyNil out (DeriveMsgID parentID key 0))) (\<lambda>_.
             sendQualifying w c parentID m))
      else sendQualifying w c parentID m)"

definition Threshold_handleTxQ4Message :: "thresholdFilter \<Rightarrow> thresholdState wnode handler" where
  "Threshold_handleTxQ4Message w env =
     wbind (wresult (DecodeTxQ4PhaseThreeEnvelope (Payload env))) (\<lambda>m.
     sendQualifying w (ClientId env) (MsgID env) (thOrder w m))"

definition Threshold_handleEOFMessage :: "thresholdFilter \<Rightarrow> thresholdState wnode handler" where
  "Threshold_handleEOFMessage w env =
     (let c = ClientId env; cfg = thCfg w; src = Threshold_sources w in
      if isFlushPayload (Payload env) then
        wbind (wmodify (updOwn (mdel c))) (\<lambda>_. forwardFlushEOF cfg src c)
      else
        wbind (wmodify (updOwn (\<lambda>x. mput c (mgetd 0 x c + 1) x))) (\<lambda>_ s.
        if mgetd 0 (own s) c < PrevWorkerAmount cfg then (Inr (), s)
        else
          wbind (wresult (EncodeEOFCountsEnvelope c [(KeyNil, 0)])) (\<lambda>eofEnvelope.
          wbind (publishRaw KeyControlEOF eofEnvelope (eofMsgID cfg c)) (\<lambda>_.
          wbind (wmodify (updOwn (mdel c))) (\<lambda>_.
          fromIo (coFlush src)))) s))"

definition Threshold_handlers :: "thresholdFilter \<Rightarrow> (MsgType, thresholdState wnode handler) gomap" where
  "Threshold_handlers w =
     [(MsgTxQ4, Threshold_handleTxQ4Message w), (MsgTransactionsEOF, Threshold_handleEOFMessage w)]"

definition Threshold_handleMessage :: "thresholdFilter \<Rightarrow> thresholdState dispatcher" where
  "Threshold_handleMessage w msg ack = Dispatch nodePub putPub (Threshold_handlers w) msg"

definition Threshold_counting :: "uuid \<Rightarrow> thresholdState \<Rightarrow> bool" where
  "Threshold_counting c x \<longleftrightarrow> mhas x c"

definition Threshold_Start :: "thresholdFilter \<Rightarrow> fs \<Rightarrow> net \<Rightarrow> thresholdState wnode" where
  "Threshold_Start w = bootNode (thCfg w) (Threshold_sources w) []"

definition Threshold_Run :: "thresholdFilter \<Rightarrow> (Message \<times> nat) list \<Rightarrow> thresholdState wnode \<Rightarrow> thresholdState wnode" where
  "Threshold_Run w = fold (\<lambda>(m, a).
     consumeEof (Threshold_sources w) (Threshold_handleMessage w) Threshold_counting noCleanup m a)"

section \<open>Result collector (join/query4.go)\<close>

record query4Checkpoint =
  cpAccounts :: "Account list"
  cpEOFCount :: int

text \<open>An account set is a list without duplicates, in order of insertion.\<close>

record query4State =
  q4Clients :: "(uuid, Account list) gomap"
  q4Eofs :: "(uuid, int) gomap"

record query4 =
  q4Cfg :: workerCfg
  q4Order :: "Account list \<Rightarrow> Account list"
  q4Marshal :: "query4Checkpoint \<Rightarrow> bytes result"
  q4Unmarshal :: "bytes \<Rightarrow> query4Checkpoint result"

definition newQuery4State :: query4State where
  "newQuery4State = \<lparr>q4Clients = [], q4Eofs = []\<rparr>"

definition addAccount :: "Account \<Rightarrow> Account list \<Rightarrow> Account list" where
  "addAccount a as = (if a \<in> set as then as else as @ [a])"

definition addAccounts :: "uuid \<Rightarrow> Account list \<Rightarrow> query4State \<Rightarrow> query4State" where
  "addAccounts c accs x = x\<lparr>q4Clients := mput c (fold addAccount accs (mgetd [] (q4Clients x) c)) (q4Clients x)\<rparr>"

definition Query4_SnapshotClient :: "query4 \<Rightarrow> uuid \<Rightarrow> query4State \<Rightarrow> bytes result \<times> query4State" where
  "Query4_SnapshotClient w c x =
     (q4Marshal w \<lparr>cpAccounts = q4Order w (mgetd [] (q4Clients x) c), cpEOFCount = mgetd 0 (q4Eofs x) c\<rparr>, x)"

definition Query4_RestoreClient :: "query4 \<Rightarrow> uuid \<Rightarrow> bytes \<Rightarrow> query4State \<Rightarrow> unit result \<times> query4State" where
  "Query4_RestoreClient w c data x =
     (if data = [] then (Inr (), x)
      else case q4Unmarshal w data of
        Inl e \<Rightarrow> (Inl e, x)
      | Inr cp \<Rightarrow>
          let x = (if 0 < length (cpAccounts cp) then addAccounts c (cpAccounts cp) x else x);
              x = (if cpEOFCount cp \<noteq> 0 then x\<lparr>q4Eofs := mput c (cpEOFCount cp) (q4Eofs x)\<rparr> else x) in
          (Inr (), x))"

definition Query4_sources :: "query4 \<Rightarrow> query4State worker_scheme sources" where
  "Query4_sources w =
     plainSources (q4Cfg w) (Some (ownSource (Query4_SnapshotClient w) (Query4_RestoreClient w)))"

definition Query4_handleAccountsMessage :: "query4 \<Rightarrow> query4State wnode handler" where
  "Query4_handleAccountsMessage w env =
     wbind (wresult (wrapf ''error decoding accounts'' [] (DecodeAccountsEnvelope (Payload env)))) (\<lambda>accounts.
     wmodify (updOwn (addAccounts (ClientId env) accounts)))"

text \<open>\<open>accounts[start:end]\<close> for \<open>start = 0, size, 2 * size, ...\<close>\<close>

fun chunks :: "nat \<Rightarrow> 'a list \<Rightarrow> 'a list list" where
  "chunks n [] = []"
| "chunks n (x # xs) = (x # take (n - 1) xs) # chunks n (drop (n - 1) xs)"

definition sendQuery4ResultEnvelope :: "query4 \<Rightarrow> uuid \<Rightarrow> Account list \<Rightarrow> MsgID \<Rightarrow> (query4State, unit) act" where
  "sendQuery4ResultEnvelope w c accs i =
     wbind (wresult (wrapf ''error encoding query4 result envelope'' [] (EncodeQuery4ResultEnvelope c (q4Order w accs)))) (\<lambda>envelope.
     wwrap ''error sending query4 result envelope'' (publishRaw KeyNil envelope i))"

fun sendAccountChunks :: "query4 \<Rightarrow> uuid \<Rightarrow> nat \<Rightarrow> Account list list \<Rightarrow> (query4State, unit) act" where
  "sendAccountChunks w c idx [] = wresult (Inr ())"
| "sendAccountChunks w c idx (accs # rest) =
     wbind (sendQuery4ResultEnvelope w c accs (StageMsgID c (stageName (q4Cfg w)) ''result'' (word_of_nat idx))) (\<lambda>_.
     sendAccountChunks w c (Suc idx) rest)"

definition Query4_handleEOFMessage :: "query4 \<Rightarrow> query4State wnode handler" where
  "Query4_handleEOFMessage w env =
     (let c = ClientId env; cfg = q4Cfg w;
          sendEOF = publishWithID c MsgQuery4ResultEOF KeyControlEOF [] (eofMsgID cfg c) in
      wbind (wmodify (updOwn (\<lambda>x.
        let n = (if isFlushPayload (Payload env) then PrevWorkerAmount cfg else mgetd 0 (q4Eofs x) c) in
        x\<lparr>q4Eofs := mput c (n + 1) (q4Eofs x)\<rparr>))) (\<lambda>_ s.
      if mgetd 0 (q4Eofs (own s)) c < PrevWorkerAmount cfg then (Inr (), s)
      else case mget (q4Clients (own s)) c of
        None \<Rightarrow>
          wbind (wmodify (updOwn (\<lambda>x. x\<lparr>q4Eofs := mdel c (q4Eofs x)\<rparr>))) (\<lambda>_. sendEOF) s
      | Some accountsSet \<Rightarrow>
          wbind (sendAccountChunks w c 0 (chunks pairBatchSize (sort_key GetID (q4Order w accountsSet)))) (\<lambda>_.
          wbind (wmodify (updOwn (\<lambda>x. x\<lparr>q4Clients := mdel c (q4Clients x), q4Eofs := mdel c (q4Eofs x)\<rparr>))) (\<lambda>_.
          wbind sendEOF (\<lambda>_.
          fromIo (coFlush (Query4_sources w))))) s))"

definition Query4_handlers :: "query4 \<Rightarrow> (MsgType, query4State wnode handler) gomap" where
  "Query4_handlers w =
     [(MsgTxAccounts, Query4_handleAccountsMessage w), (MsgTransactionsEOF, Query4_handleEOFMessage w)]"

definition Query4_handleMessage :: "query4 \<Rightarrow> query4State dispatcher" where
  "Query4_handleMessage w msg ack = Dispatch nodePub putPub (Query4_handlers w) msg"

definition Query4_counting :: "uuid \<Rightarrow> query4State \<Rightarrow> bool" where
  "Query4_counting c x \<longleftrightarrow> mhas (q4Eofs x) c"

definition Query4_Start :: "query4 \<Rightarrow> fs \<Rightarrow> net \<Rightarrow> query4State wnode" where
  "Query4_Start w = bootNode (q4Cfg w) (Query4_sources w) newQuery4State"

definition Query4_Run :: "query4 \<Rightarrow> (Message \<times> nat) list \<Rightarrow> query4State wnode \<Rightarrow> query4State wnode" where
  "Query4_Run w = fold (\<lambda>(m, a).
     consumeEof (Query4_sources w) (Query4_handleMessage w) Query4_counting noCleanup m a)"

section \<open>Contracts\<close>

text \<open>None of the handlers touches the duplicate filter, so \<open>Dispatch\<close> handles a message at most once.\<close>

lemma sendQualifying_seen [keeps_seen]: "seenOf (snd (sendQualifying w c parent m s)) = seenOf s"
  by (induction w c parent m arbitrary: s rule: sendQualifying.induct) (auto intro!: keeps_seen)

lemma sendAccountChunks_seen [keeps_seen]: "seenOf (snd (sendAccountChunks w c idx xs s)) = seenOf s"
  by (induction w c idx xs arbitrary: s rule: sendAccountChunks.induct)
    (auto intro!: keeps_seen simp: sendQuery4ResultEnvelope_def)

lemma Query4_quiet: "quietSources (Query4_sources w)"
  unfolding Query4_sources_def by (intro plainSources_quiet ownSource_pure) (simp add: Query4_SnapshotClient_def)

lemma Threshold_quiet: "quietSources (Threshold_sources w)"
  unfolding Threshold_sources_def by (intro plainSources_quiet) simp

interpretation threshold: publisher_host nodePub putPub "Threshold_handlers w"
  by (rule publisher_hostI)
    (auto simp: Threshold_handlers_def Threshold_handleTxQ4Message_def Threshold_handleEOFMessage_def Let_def
        forwardFlushEOF_def intro!: keeps_seen Threshold_quiet)

interpretation query4Join: publisher_host nodePub putPub "Query4_handlers w"
  by (rule publisher_hostI)
    (auto simp: Query4_handlers_def Query4_handleAccountsMessage_def Query4_handleEOFMessage_def Let_def
        intro!: keeps_seen Query4_quiet)

text \<open>All three wait for the EOF of every replica of the previous stage.\<close>

interpretation pairBarrier: eof_barrier "PairCounter_handleEOFMessage w" "\<lambda>c x. mgetd 0 (pcEofs x) c" "PrevWorkerAmount (pcCfg w)"
  by unfold_locales (auto simp: PairCounter_handleEOFMessage_def Let_def wbind_def wmodify_def)

interpretation thresholdBarrier: eof_barrier "Threshold_handleEOFMessage w" "\<lambda>c x. mgetd 0 x c" "PrevWorkerAmount (thCfg w)"
  by unfold_locales (auto simp: Threshold_handleEOFMessage_def Let_def wbind_def wmodify_def)

interpretation query4Barrier: eof_barrier "Query4_handleEOFMessage w" "\<lambda>c x. mgetd 0 (q4Eofs x) c" "PrevWorkerAmount (q4Cfg w)"
  by unfold_locales (auto simp: Query4_handleEOFMessage_def Let_def wbind_def wmodify_def)


definition twoReplicas :: workerCfg where
  "twoReplicas = \<lparr>Params = [], Query = 4, WorkerID = 0, WorkerPrefix = ''tail'', WorkerAmount = 1, PrevWorkerAmount = 2,
     NextWorkerAmount = 1, NextWorkerPrefix = ''next'', Threshold = 5,
     SyncEOFConfig = \<lparr>RetryBaseDelay = 0, RetryStepDelay = 0, MaxRetries = 3, InputKeys = []\<rparr>, CheckpointInterval = 1,
     cfgUuidString = bytes_str, cfgUuidParse = (\<lambda>k. Some (str_bytes k)),
     cfgMarshal = (\<lambda>_. Inr [1]), cfgUnmarshal = (\<lambda>_. Inl ErrEOF)\<rparr>"

definition twoCounter :: pairCounter where
  "twoCounter = \<lparr>pcCfg = twoReplicas, pcOrder = id, pcMarshal = (\<lambda>_. Inr []), pcUnmarshal = (\<lambda>_. Inl ErrEOF)\<rparr>"

definition twoThreshold :: thresholdFilter where
  "twoThreshold = \<lparr>thCfg = twoReplicas, thresholdAmount = 5, thOrder = id, thMarshal = (\<lambda>_. Inr []), thUnmarshal = (\<lambda>_. Inl ErrEOF)\<rparr>"

definition twoQuery4 :: query4 where
  "twoQuery4 = \<lparr>q4Cfg = twoReplicas, q4Order = id, q4Marshal = (\<lambda>_. Inr []), q4Unmarshal = (\<lambda>_. Inl ErrEOF)\<rparr>"

definition plainNode :: "'x \<Rightarrow> 'x wnode" where
  "plainNode x = NewCoordinator (newHost twoReplicas x \<lparr>outcomes = [], sent = []\<rparr>) \<lparr>files = [], script = []\<rparr> 1"

lemma own_plainNode [simp]: "own (plainNode x) = x" "outbox (plainNode x) = []"
  by (simp_all add: plainNode_def own_def outbox_def NewCoordinator_def newHost_def)


end
