(* ===== verification/HeavyAccounts.thy ===== *)
theory HeavyAccounts
  imports PairCounts
begin

text \<open>
  How the replicas of query 4's first phase agree on the heavy accounts:
  \<open>workers/aggregator/heavy_accounts_monitor.go\<close>, the barrier that seals a client once the replica's
  own accounts and the announcements of all its peers are in, and
  \<open>common/broker/scattergather/accounts_exchange.go\<close>, the messages on the fanout exchange (the
  exchange is a \<open>net\<close>: messages it accepted and a script of failures). Sets are lists without
  duplicates.
\<close>

section \<open>Monitor\<close>

record degreeState =
  heavySrcs :: "Account list"
  heavySinks :: "Account list"
  donePeers :: "int list"
  localDone :: bool
  sealed :: bool

record heavyMonitor =
  perClient :: "(uuid, degreeState) gomap"
  selfID :: int
  peerTarget :: int

definition NewHeavyAccountsMonitor :: "int \<Rightarrow> int \<Rightarrow> heavyMonitor" where
  "NewHeavyAccountsMonitor self workerAmount = \<lparr>perClient = [], selfID = self, peerTarget = max (workerAmount - 1) 0\<rparr>"

definition newDegreeState :: degreeState where
  "newDegreeState = \<lparr>heavySrcs = [], heavySinks = [], donePeers = [], localDone = False, sealed = False\<rparr>"

definition degreeOf :: "heavyMonitor \<Rightarrow> uuid \<Rightarrow> degreeState" where
  "degreeOf m c = mgetd newDegreeState (perClient m) c"

text \<open>\<open>getLocked\<close> creates the entry; storing the changed entry back does so here.\<close>

definition putDegree :: "uuid \<Rightarrow> degreeState \<Rightarrow> heavyMonitor \<Rightarrow> heavyMonitor" where
  "putDegree c ce m = m\<lparr>perClient := mput c ce (perClient m)\<rparr>"

definition isReady :: "heavyMonitor \<Rightarrow> degreeState \<Rightarrow> bool \<times> degreeState" where
  "isReady m ce =
     (if sealed ce \<or> \<not> localDone ce \<or> int (length (donePeers ce)) < peerTarget m then (False, ce)
      else (True, ce\<lparr>sealed := True\<rparr>))"

definition MergeLocal :: "uuid \<Rightarrow> Account list \<Rightarrow> Account list \<Rightarrow> heavyMonitor \<Rightarrow> bool \<times> heavyMonitor" where
  "MergeLocal c srcs sinks m =
     (let ce = degreeOf m c in
      if sealed ce then (False, putDegree c ce m)
      else
        let ce = ce\<lparr>heavySrcs := fold List.insert srcs (heavySrcs ce),
                    heavySinks := fold List.insert sinks (heavySinks ce), localDone := True\<rparr> in
        case isReady m ce of (ready, ce) \<Rightarrow> (ready, putDegree c ce m))"

definition RecordHeavyBatch :: "uuid \<Rightarrow> int \<Rightarrow> byte \<Rightarrow> Account list \<Rightarrow> heavyMonitor \<Rightarrow> heavyMonitor" where
  "RecordHeavyBatch c senderID role accounts m =
     (if senderID = selfID m then m
      else
        let ce = degreeOf m c in
        putDegree c (if sealed ce then ce
          else if role = Q4HeavyRoleSink then ce\<lparr>heavySinks := fold List.insert accounts (heavySinks ce)\<rparr>
          else ce\<lparr>heavySrcs := fold List.insert accounts (heavySrcs ce)\<rparr>) m)"

definition RecordDone :: "uuid \<Rightarrow> int \<Rightarrow> heavyMonitor \<Rightarrow> bool \<times> heavyMonitor" where
  "RecordDone c senderID m =
     (if senderID = selfID m then (False, m)
      else
        let ce = degreeOf m c in
        if sealed ce then (False, putDegree c ce m)
        else case isReady m (ce\<lparr>donePeers := List.insert senderID (donePeers ce)\<rparr>) of
          (ready, ce) \<Rightarrow> (ready, putDegree c ce m))"

definition HeavySources :: "heavyMonitor \<Rightarrow> uuid \<Rightarrow> Account list" where
  "HeavySources m c = (case mget (perClient m) c of None \<Rightarrow> [] | Some ce \<Rightarrow> heavySrcs ce)"

definition HeavySinks :: "heavyMonitor \<Rightarrow> uuid \<Rightarrow> Account list" where
  "HeavySinks m c = (case mget (perClient m) c of None \<Rightarrow> [] | Some ce \<Rightarrow> heavySinks ce)"

definition IsSealed :: "heavyMonitor \<Rightarrow> uuid \<Rightarrow> bool" where
  "IsSealed m c = (case mget (perClient m) c of None \<Rightarrow> False | Some ce \<Rightarrow> sealed ce)"

record degreeStateSnapshot =
  dsHeavySrcs :: "Account list"
  dsHeavySinks :: "Account list"
  dsDonePeers :: "int list"
  dsLocalDone :: bool
  dsSealed :: bool

definition Monitor_Snapshot ::
  "(Account list \<Rightarrow> Account list) \<Rightarrow> (int list \<Rightarrow> int list) \<Rightarrow> heavyMonitor \<Rightarrow> uuid \<Rightarrow> degreeStateSnapshot option" where
  "Monitor_Snapshot order orderIDs m c =
     (case mget (perClient m) c of
        None \<Rightarrow> None
      | Some ce \<Rightarrow> Some \<lparr>dsHeavySrcs = order (heavySrcs ce), dsHeavySinks = order (heavySinks ce),
          dsDonePeers = orderIDs (donePeers ce), dsLocalDone = localDone ce, dsSealed = sealed ce\<rparr>)"

definition Monitor_Restore :: "uuid \<Rightarrow> degreeStateSnapshot \<Rightarrow> heavyMonitor \<Rightarrow> heavyMonitor" where
  "Monitor_Restore c snap m =
     putDegree c \<lparr>heavySrcs = fold List.insert (dsHeavySrcs snap) [], heavySinks = fold List.insert (dsHeavySinks snap) [],
       donePeers = fold List.insert (dsDonePeers snap) [], localDone = dsLocalDone snap, sealed = dsSealed snap\<rparr> m"

definition Monitor_Forget :: "uuid \<Rightarrow> heavyMonitor \<Rightarrow> heavyMonitor" where
  "Monitor_Forget c m = m\<lparr>perClient := mdel c (perClient m)\<rparr>"

section \<open>Exchange\<close>

definition heavyBatchSize :: nat where "heavyBatchSize = 1000"

definition exchangePublish :: "bytes \<Rightarrow> net \<Rightarrow> unit result \<times> net" where
  "exchangePublish body n =
     (case netSend \<lparr>RoutingKey = KeyNil, Body = body, ContentType = ContentTypeBinary\<rparr> n of
        (r, n) \<Rightarrow> (wrapf ''HeavyAccountsExchange: publish'' [] r, n))"

text \<open>\<open>publishBatches\<close> cuts the accounts, in iteration order, into batches of \<open>heavyBatchSize\<close>.\<close>

fun publishHeavyBatches :: "uuid \<Rightarrow> goint \<Rightarrow> byte \<Rightarrow> Account list list \<Rightarrow> net \<Rightarrow> unit result \<times> net" where
  "publishHeavyBatches c node role [] n = (Inr (), n)"
| "publishHeavyBatches c node role (batch # rest) n =
     (case wrapf ''HeavyAccountsExchange: encode heavy batch'' [] (EncodeQ4HeavyBatchEnvelope c node role batch) of
        Inl e \<Rightarrow> (Inl e, n)
      | Inr env \<Rightarrow>
          (case exchangePublish env n of
             (Inl e, n) \<Rightarrow> (Inl e, n)
           | (Inr _, n) \<Rightarrow> publishHeavyBatches c node role rest n))"

definition PublishHeavy ::
  "(Account list \<Rightarrow> Account list) \<Rightarrow> goint \<Rightarrow> uuid \<Rightarrow> Account list \<Rightarrow> Account list \<Rightarrow> net \<Rightarrow> unit result \<times> net" where
  "PublishHeavy order node c srcs sinks n =
     (case publishHeavyBatches c node Q4HeavyRoleSource (chunks heavyBatchSize (order srcs)) n of
        (Inl e, n) \<Rightarrow> (Inl e, n)
      | (Inr _, n) \<Rightarrow>
          (case publishHeavyBatches c node Q4HeavyRoleSink (chunks heavyBatchSize (order sinks)) n of
             (Inl e, n) \<Rightarrow> (Inl e, n)
           | (Inr _, n) \<Rightarrow>
               (case wrapf ''HeavyAccountsExchange: encode done'' [] (EncodeQ4HeavyDoneEnvelope c node) of
                  Inl e \<Rightarrow> (Inl e, n)
                | Inr msg \<Rightarrow> exchangePublish msg n)))"

text \<open>
  \<open>dispatch\<close> of a delivery of the exchange: an undecodable or unknown message is acknowledged and
  dropped (\<open>DropPeer\<close>), the others become \<open>peerMessage\<close>s for the main loop. \<open>None\<close> is a panic of the
  envelope decoder.
\<close>

datatype peerMessage =
    PeerBatch uuid int byte "Account list"
  | PeerDone uuid int
  | DropPeer

definition exchangeDispatch :: "bytes \<Rightarrow> peerMessage option" where
  "exchangeDispatch body =
     (case DecodeInternalEnvelope body of
        None \<Rightarrow> None
      | Some (Inl e) \<Rightarrow> Some DropPeer
      | Some (Inr env) \<Rightarrow> Some
          (if MsgType env = MsgQ4HeavyBatch then
             (case DecodeQ4HeavyBatch (Payload env) of
                Inl e \<Rightarrow> DropPeer
              | Inr (senderID, role, accounts) \<Rightarrow> PeerBatch (ClientId env) (sint senderID) role accounts)
           else if MsgType env = MsgQ4HeavyDone then
             (case DecodeQ4HeavyDone (Payload env) of
                Inl e \<Rightarrow> DropPeer
              | Inr senderID \<Rightarrow> PeerDone (ClientId env) (sint senderID))
           else DropPeer))"

end
