(* ===== verification/PhaseOne.thy ===== *)
theory PhaseOne
  imports HeavyAccounts Router
begin

text \<open>
  \<open>workers/aggregator/scatter_and_gather.go\<close>, the first phase of query 4. A replica owns a shard of the
  accounts and keeps, per client, who each of them paid (\<open>scatter\<close>) and was paid by (\<open>gather\<close>). After
  the EOF the replicas exchange their heavy accounts; a sealed client is streamed as counted pairs
  (payer of a bridge account, payee of it), pruned by the heavy sets. The edges not yet checkpointed
  are the append source of the coordinator. One delivery or one peer message is one step of the main
  loop; maps and sets are lists, the order in which Go iterates them is a parameter.
\<close>

definition maxPairsBuffered :: nat where "maxPairsBuffered = 100000"

type_synonym adjacency = "(Account, Account list) gomap"

record phaseClient =
  scatterGroups :: adjacency
  gatherGroups :: adjacency
  clHeavySources :: "Account list"
  clHeavySinks :: "Account list"

type_synonym accountAdjacency = "Account \<times> Account list"

record sgCheckpoint =
  cpScatterGroups :: "accountAdjacency list"
  cpGatherGroups :: "accountAdjacency list"
  cpHeavySources :: "Account list"
  cpHeavySinks :: "Account list"
  cpDonePeers :: "int list"
  cpLocalDone :: bool
  cpSealed :: bool
  cpCompleted :: bool

definition emptySgCheckpoint :: sgCheckpoint where
  "emptySgCheckpoint = \<lparr>cpScatterGroups = [], cpGatherGroups = [], cpHeavySources = [], cpHeavySinks = [],
     cpDonePeers = [], cpLocalDone = False, cpSealed = False, cpCompleted = False\<rparr>"

record sgState =
  sgClients :: "(uuid, phaseClient) gomap"
  sgMonitor :: heavyMonitor
  sgExchange :: net
  sgPendingAcks :: "(uuid, nat) gomap"
  sgCompleted :: "uuid list"
  sgPendingScatter :: "(uuid, adjacency) gomap"
  sgPendingGather :: "(uuid, adjacency) gomap"

record scatterAndGather =
  sgCfg :: workerCfg
  sgThreshold :: int
  sgOrder :: "Account list \<Rightarrow> Account list"
  sgGroupOrder :: "adjacency \<Rightarrow> adjacency"
  sgIdOrder :: "int list \<Rightarrow> int list"
  sgPairOrder :: "(TxQ4PairKey, goint) gomap \<Rightarrow> (TxQ4PairKey, goint) gomap"
  sgMarshal :: "sgCheckpoint \<Rightarrow> bytes result"
  sgUnmarshal :: "bytes \<Rightarrow> sgCheckpoint result"

definition newSgState :: "workerCfg \<Rightarrow> net \<Rightarrow> sgState" where
  "newSgState cfg exchange =
     \<lparr>sgClients = [], sgMonitor = NewHeavyAccountsMonitor (WorkerID cfg) (WorkerAmount cfg), sgExchange = exchange,
      sgPendingAcks = [], sgCompleted = [], sgPendingScatter = [], sgPendingGather = []\<rparr>"

section \<open>Adjacency\<close>

definition neighbours :: "adjacency \<Rightarrow> Account \<Rightarrow> Account list" where
  "neighbours g a = mgetd [] g a"

definition addEdge :: "Account \<Rightarrow> Account \<Rightarrow> adjacency \<Rightarrow> adjacency" where
  "addEdge key n g = mput key (List.insert n (neighbours g key)) g"

definition bufferEdge :: "uuid \<Rightarrow> Account \<Rightarrow> Account \<Rightarrow> (uuid, adjacency) gomap \<Rightarrow> (uuid, adjacency) gomap" where
  "bufferEdge c key n buf = mput c (addEdge key n (mgetd [] buf c)) buf"

definition mergeAdjacency :: "accountAdjacency list \<Rightarrow> adjacency \<Rightarrow> adjacency" where
  "mergeAdjacency entries g =
     fold (\<lambda>(a, ns) g. mput a (fold List.insert ns (neighbours g a)) g) entries g"

definition adjacencyToSlice :: "scatterAndGather \<Rightarrow> adjacency \<Rightarrow> accountAdjacency list" where
  "adjacencyToSlice w g = map (\<lambda>(a, ns). (a, sgOrder w ns)) (sgGroupOrder w g)"

section \<open>Clients\<close>

definition newPhaseClient :: phaseClient where
  "newPhaseClient = \<lparr>scatterGroups = [], gatherGroups = [], clHeavySources = [], clHeavySinks = []\<rparr>"

definition sgClient :: "sgState \<Rightarrow> uuid \<Rightarrow> phaseClient" where
  "sgClient x c = mgetd newPhaseClient (sgClients x) c"

definition putSgClient :: "uuid \<Rightarrow> phaseClient \<Rightarrow> sgState \<Rightarrow> sgState" where
  "putSgClient c cl x = x\<lparr>sgClients := mput c cl (sgClients x)\<rparr>"

definition isCompleted :: "sgState \<Rightarrow> uuid \<Rightarrow> bool" where
  "isCompleted x c \<longleftrightarrow> c \<in> set (sgCompleted x)"

definition markCompleted :: "uuid \<Rightarrow> sgState \<Rightarrow> sgState" where
  "markCompleted c x = x\<lparr>sgCompleted := List.insert c (sgCompleted x)\<rparr>"

definition forgetCompleted :: "uuid \<Rightarrow> sgState \<Rightarrow> sgState" where
  "forgetCompleted c x = x\<lparr>sgCompleted := removeAll c (sgCompleted x)\<rparr>"

definition storePendingAck :: "uuid \<Rightarrow> nat \<Rightarrow> sgState \<Rightarrow> sgState" where
  "storePendingAck c ack x = x\<lparr>sgPendingAcks := mput c ack (sgPendingAcks x)\<rparr>"

definition takePendingAck :: "uuid \<Rightarrow> sgState wnode \<Rightarrow> nat option \<times> sgState wnode" where
  "takePendingAck c s = (mget (sgPendingAcks (own s)) c, updOwn (\<lambda>x. x\<lparr>sgPendingAcks := mdel c (sgPendingAcks x)\<rparr>) s)"

definition dropClientState :: "uuid \<Rightarrow> sgState wnode \<Rightarrow> sgState wnode" where
  "dropClientState c s =
     putPub (forget c (nodePub s)) (updOwn (\<lambda>x. x\<lparr>sgClients := mdel c (sgClients x),
        sgPendingScatter := mdel c (sgPendingScatter x), sgPendingGather := mdel c (sgPendingGather x),
        sgMonitor := Monitor_Forget c (sgMonitor x)\<rparr>) s)"

section \<open>Checkpoints\<close>

definition SG_SnapshotClient :: "scatterAndGather \<Rightarrow> uuid \<Rightarrow> sgState \<Rightarrow> bytes result \<times> sgState" where
  "SG_SnapshotClient w c x =
     (if isCompleted x c then (sgMarshal w (emptySgCheckpoint\<lparr>cpCompleted := True\<rparr>), x)
      else case Monitor_Snapshot (sgOrder w) (sgIdOrder w) (sgMonitor x) c of
        None \<Rightarrow> (Inr [], x)
      | Some d \<Rightarrow> (sgMarshal w (emptySgCheckpoint\<lparr>cpHeavySources := dsHeavySrcs d, cpHeavySinks := dsHeavySinks d,
            cpDonePeers := dsDonePeers d, cpLocalDone := dsLocalDone d, cpSealed := dsSealed d\<rparr>), x))"

definition SG_RestoreClient :: "scatterAndGather \<Rightarrow> uuid \<Rightarrow> bytes \<Rightarrow> sgState \<Rightarrow> unit result \<times> sgState" where
  "SG_RestoreClient w c data x =
     (if data = [] then (Inr (), x)
      else case sgUnmarshal w data of
        Inl e \<Rightarrow> (Inl e, x)
      | Inr cp \<Rightarrow>
         if cpCompleted cp then (Inr (), markCompleted c x)
         else if cpSealed cp \<or> cpLocalDone cp \<or> cpHeavySources cp \<noteq> [] \<or> cpHeavySinks cp \<noteq> [] \<or> cpDonePeers cp \<noteq> []
         then (Inr (), x\<lparr>sgMonitor := Monitor_Restore c \<lparr>dsHeavySrcs = cpHeavySources cp, dsHeavySinks = cpHeavySinks cp,
                  dsDonePeers = cpDonePeers cp, dsLocalDone = cpLocalDone cp, dsSealed = cpSealed cp\<rparr> (sgMonitor x)\<rparr>)
         else (Inr (), x))"

definition SG_DrainClient :: "scatterAndGather \<Rightarrow> uuid \<Rightarrow> sgState \<Rightarrow> bytes result" where
  "SG_DrainClient w c x =
     (let ps = mgetd [] (sgPendingScatter x) c; pg = mgetd [] (sgPendingGather x) c in
      if ps = [] \<and> pg = [] then Inr []
      else sgMarshal w (emptySgCheckpoint\<lparr>cpScatterGroups := adjacencyToSlice w ps, cpGatherGroups := adjacencyToSlice w pg\<rparr>))"

definition SG_CommitClient :: "uuid \<Rightarrow> sgState \<Rightarrow> sgState" where
  "SG_CommitClient c x = x\<lparr>sgPendingScatter := mdel c (sgPendingScatter x), sgPendingGather := mdel c (sgPendingGather x)\<rparr>"

definition SG_ReplayClient :: "scatterAndGather \<Rightarrow> uuid \<Rightarrow> bytes \<Rightarrow> sgState \<Rightarrow> unit result \<times> sgState" where
  "SG_ReplayClient w c record x =
     (if record = [] \<or> isCompleted x c then (Inr (), x)
      else case sgUnmarshal w record of
        Inl e \<Rightarrow> (Inl e, x)
      | Inr cp \<Rightarrow>
          let cl = sgClient x c in
          (Inr (), putSgClient c (cl\<lparr>scatterGroups := mergeAdjacency (cpScatterGroups cp) (scatterGroups cl),
                                     gatherGroups := mergeAdjacency (cpGatherGroups cp) (gatherGroups cl)\<rparr>) x))"

text \<open>The worker is both the append source and the state of its coordinator.\<close>

definition SG_sources :: "scatterAndGather \<Rightarrow> sgState worker_scheme sources" where
  "SG_sources w =
     \<lparr>srcSeen =
        \<lparr>srcDrain = (\<lambda>c h. (SG_DrainClient w c (worker.more h), h)),
         srcCommit = (\<lambda>c h. (Inr (), worker.more_update (SG_CommitClient c) h)),
         srcReplay = (\<lambda>c data h. case SG_ReplayClient w c data (worker.more h) of (r, x) \<Rightarrow> (r, worker.more_update (\<lambda>_. x) h))\<rparr>,
      srcEof = None, srcState = Some (ownSource (SG_SnapshotClient w) (SG_RestoreClient w)),
      uuidString = cfgUuidString (sgCfg w), uuidParse = cfgUuidParse (sgCfg w)\<rparr>"

section \<open>Transactions\<close>

definition srcAccountOf :: "Transaction \<Rightarrow> Account" where
  "srcAccountOf tx = \<lparr>BankID = FromBank tx, ID = FromAccount tx\<rparr>"

definition dstAccountOf :: "Transaction \<Rightarrow> Account" where
  "dstAccountOf tx = \<lparr>BankID = ToBank tx, ID = ToAccount tx\<rparr>"

definition handleScatterTx :: "uuid \<Rightarrow> Transaction \<Rightarrow> sgState \<Rightarrow> sgState" where
  "handleScatterTx c tx x =
     (let cl = sgClient x c; src = srcAccountOf tx; dst = dstAccountOf tx;
          fresh = dst \<notin> set (neighbours (scatterGroups cl) src);
          x = putSgClient c (cl\<lparr>scatterGroups := addEdge src dst (scatterGroups cl)\<rparr>) x in
      if fresh then x\<lparr>sgPendingScatter := bufferEdge c src dst (sgPendingScatter x)\<rparr> else x)"

definition handleGatherTx :: "uuid \<Rightarrow> Transaction \<Rightarrow> sgState \<Rightarrow> sgState" where
  "handleGatherTx c tx x =
     (let cl = sgClient x c; src = srcAccountOf tx; dst = dstAccountOf tx;
          fresh = src \<notin> set (neighbours (gatherGroups cl) dst);
          x = putSgClient c (cl\<lparr>gatherGroups := addEdge dst src (gatherGroups cl)\<rparr>) x in
      if fresh then x\<lparr>sgPendingGather := bufferEdge c dst src (sgPendingGather x)\<rparr> else x)"

definition SG_handleTxQ4Message :: "sgState wnode handler" where
  "SG_handleTxQ4Message env =
     wbind (wresult (DecodeTxQ4PhaseOneBatch (Payload env))) (\<lambda>(ty, txs).
     if ty = TxQ4Scatter then wmodify (updOwn (fold (handleScatterTx (ClientId env)) txs))
     else if ty = TxQ4Gather then wmodify (updOwn (fold (handleGatherTx (ClientId env)) txs))
     else wresult (Inl (Errorf ''unknown TxQ4 type'' [])))"

section \<open>Streaming the pairs\<close>

definition SG_shardByValue :: "scatterAndGather \<Rightarrow> string \<Rightarrow> string option" where
  "SG_shardByValue w value = shardOf (NextWorkerPrefix (sgCfg w)) (NextWorkerAmount (sgCfg w)) value"

text \<open>One message per pair; a failed encoding or send is logged and the pair is skipped.\<close>

fun sendPhaseTwo :: "scatterAndGather \<Rightarrow> uuid \<Rightarrow> (TxQ4PairKey, goint) gomap \<Rightarrow> (sgState, nat) act" where
  "sendPhaseTwo w c [] = wresult (Inr 0)"
| "sendPhaseTwo w c ((pk, n) # m) =
     (case SG_shardByValue w (Src pk @ ''::'' @ Dst pk) of
        None \<Rightarrow> wpanic
      | Some key \<Rightarrow>
         (case EncodeTxQ4PhaseTwoBatchEnvelope c [\<lparr>pcKey = pk, pcCount = n\<rparr>] of
            Inl e \<Rightarrow> sendPhaseTwo w c m
          | Inr envelope \<Rightarrow> (\<lambda>s.
             case publishRaw key envelope (StageMsgID c (stageName (sgCfg w)) (PairKey_Key pk) 0) s of
               (Inl e, s) \<Rightarrow> sendPhaseTwo w c m s
             | (Inr _, s) \<Rightarrow> wbind (sendPhaseTwo w c m) (\<lambda>k. wresult (Inr (Suc k))) s)))"

text \<open>The pairs of one bridge account: its heavy payers times its heavy payees, in iteration order.\<close>

definition bridgePairs :: "scatterAndGather \<Rightarrow> Account list \<Rightarrow> Account list \<Rightarrow> adjacency \<Rightarrow> Account \<Rightarrow> Account list \<Rightarrow> TxQ4PairKey list" where
  "bridgePairs w heavySources heavySinksL gather bridge dsts =
     (case mget gather bridge of
        None \<Rightarrow> []
      | Some srcs \<Rightarrow>
          [\<lparr>Src = GetID s, Dst = GetID d\<rparr>. s \<leftarrow> sgOrder w srcs, s \<in> set heavySources, d \<leftarrow> sgOrder w dsts, d \<in> set heavySinksL])"

text \<open>
  \<open>batch[pk]++\<close> for every pair, flushing when the batch has \<open>sz\<close> entries; the final flush of a
  non-empty batch. The result is the list of flushed batches.
\<close>

fun flushedBatches :: "nat \<Rightarrow> TxQ4PairKey list \<Rightarrow> (TxQ4PairKey, goint) gomap \<Rightarrow> (TxQ4PairKey, goint) gomap list" where
  "flushedBatches sz [] batch = (if 0 < length batch then [batch] else [])"
| "flushedBatches sz (pk # pks) batch =
     (let batch = mput pk (mgetd 0 batch pk + 1) batch in
      if sz \<le> length batch then batch # flushedBatches sz pks [] else flushedBatches sz pks batch)"

fun sendFlushed :: "scatterAndGather \<Rightarrow> uuid \<Rightarrow> (TxQ4PairKey, goint) gomap list \<Rightarrow> (sgState, nat) act" where
  "sendFlushed w c [] = wresult (Inr 0)"
| "sendFlushed w c (b # bs) =
     wbind (sendPhaseTwo w c (sgPairOrder w b)) (\<lambda>k. wbind (sendFlushed w c bs) (\<lambda>k'. wresult (Inr (k + k'))))"

definition pairStream :: "scatterAndGather \<Rightarrow> uuid \<Rightarrow> sgState \<Rightarrow> TxQ4PairKey list" where
  "pairStream w c x =
     (let cl = sgClient x c in
      concat (map (\<lambda>(bridge, dsts). bridgePairs w (HeavySources (sgMonitor x) c) (HeavySinks (sgMonitor x) c)
                (gatherGroups cl) bridge dsts) (sgGroupOrder w (scatterGroups cl))))"

text \<open>The groups are consumed while they are streamed: every scatter group and its gather group is deleted.\<close>

definition streamPhaseTwo :: "scatterAndGather \<Rightarrow> uuid \<Rightarrow> (sgState, nat) act" where
  "streamPhaseTwo w c s =
     (let x = own s; cl = sgClient x c in
      wbind (sendFlushed w c (flushedBatches maxPairsBuffered (pairStream w c x) [])) (\<lambda>msgSent.
      wbind (wmodify (updOwn (putSgClient c (cl\<lparr>scatterGroups := [],
               gatherGroups := filter (\<lambda>(a, _). \<not> mhas (scatterGroups cl) a) (gatherGroups cl)\<rparr>)))) (\<lambda>_.
      wresult (Inr msgSent))) s)"

section \<open>End of a client\<close>

definition FindHeavyAccountsForClient :: "scatterAndGather \<Rightarrow> uuid \<Rightarrow> sgState \<Rightarrow> sgState" where
  "FindHeavyAccountsForClient w c x =
     (let cl = sgClient x c;
          heavy = (\<lambda>g. map fst (filter (\<lambda>(a, ns). sgThreshold w \<le> int (length ns)) g)) in
      putSgClient c (cl\<lparr>clHeavySources := fold List.insert (heavy (scatterGroups cl)) (clHeavySources cl),
                        clHeavySinks := fold List.insert (heavy (gatherGroups cl)) (clHeavySinks cl)\<rparr>) x)"

definition onClientReady :: "scatterAndGather \<Rightarrow> uuid \<Rightarrow> (sgState, unit) act" where
  "onClientReady w c =
     wbind (streamPhaseTwo w c) (\<lambda>msgSent.
     wbind (case EncodeEOFCountsEnvelope c [(KeyNil, word_of_nat msgSent)] of
              Inl e \<Rightarrow> wresult (Inr ())
            | Inr eofEnvelope \<Rightarrow> ignoring (publishRaw KeyControlEOF eofEnvelope (eofMsgID (sgCfg w) c))) (\<lambda>_.
     wbind (wmodify (updOwn (markCompleted c))) (\<lambda>_.
     wbind (fromIo (SaveClient (SG_sources w) c)) (\<lambda>_ s.
     case takePendingAck c s of
       (a, s) \<Rightarrow> (Inr (), dropClientState c (case a of None \<Rightarrow> s | Some ack \<Rightarrow> callAck ack s))))))"

definition publishHeavyOf :: "scatterAndGather \<Rightarrow> uuid \<Rightarrow> (sgState, unit) act" where
  "publishHeavyOf w c s =
     (let cl = sgClient (own s) c in
      case PublishHeavy (sgOrder w) (word_of_int (WorkerID (sgCfg w))) c (clHeavySources cl) (clHeavySinks cl) (sgExchange (own s)) of
        (r, n) \<Rightarrow> (wrapf ''publishing heavy accounts'' [] r, updOwn (\<lambda>x. x\<lparr>sgExchange := n\<rparr>) s))"

definition mergeLocalOf :: "uuid \<Rightarrow> (sgState, bool) act" where
  "mergeLocalOf c s =
     (let cl = sgClient (own s) c in
      case MergeLocal c (clHeavySources cl) (clHeavySinks cl) (sgMonitor (own s)) of
        (ready, m) \<Rightarrow> (Inr ready, updOwn (\<lambda>x. x\<lparr>sgMonitor := m\<rparr>) s))"

definition SG_handleEOFMessage :: "scatterAndGather \<Rightarrow> nat \<Rightarrow> sgState wnode handler" where
  "SG_handleEOFMessage w ack env =
     (let c = ClientId env; src = SG_sources w in
      if isFlushPayload (Payload env) then
        wbind (wmodify (dropClientState c)) (\<lambda>_.
        wbind (wresult (wrapf ''encoding flush EOF'' [] (EncodeEOFCountsEnvelope c flushCounts))) (\<lambda>eofEnvelope.
        wbind (wwrap ''sending flush EOF'' (publishRaw KeyControlEOF eofEnvelope (eofMsgID (sgCfg w) c))) (\<lambda>_.
        wbind (wmodify (callAck ack)) (\<lambda>_.
        fromIo (coFlush src)))))
      else (\<lambda>s.
        if isCompleted (own s) c then (Inr (), callAck ack s)
        else if IsSealed (sgMonitor (own s)) c then
          wbind (wmodify (updOwn (storePendingAck c ack))) (\<lambda>_. onClientReady w c) s
        else
          wbind (wmodify (updOwn (FindHeavyAccountsForClient w c))) (\<lambda>_.
          wbind (publishHeavyOf w c) (\<lambda>_.
          wbind (wmodify (updOwn (storePendingAck c ack))) (\<lambda>_.
          wbind (mergeLocalOf c) (\<lambda>ready.
          wbind (if ready then onClientReady w c else wresult (Inr ())) (\<lambda>_.
          fromIo (coFlush src)))))) s))"

section \<open>The main loop\<close>

text \<open>\<open>processMessage\<close>: this worker does not go through \<open>Dispatch\<close>.\<close>

definition processMessage :: "scatterAndGather \<Rightarrow> Message \<Rightarrow> nat \<Rightarrow> sgState wnode \<Rightarrow> sgState wnode" where
  "processMessage w msg ack s =
     (if nodeDown s then s
      else case DecodeInternalEnvelope (Body msg) of
        None \<Rightarrow> stopNode s
      | Some (Inl e) \<Rightarrow> callNack ack s
      | Some (Inr env) \<Rightarrow>
         if MsgType env = MsgTxQ4 then
           (case SG_handleTxQ4Message env s of
              (Inl e, s) \<Rightarrow> if nodeDown s then s else callNack ack s
            | (Inr _, s) \<Rightarrow> snd (ignoring (fromIo (Track (SG_sources w) (ClientId env) ack)) s))
         else if MsgType env = MsgTransactionsEOF then
           (case SG_handleEOFMessage w ack env s of
              (Inl e, s) \<Rightarrow> if nodeDown s then s else callNack ack s
            | (Inr _, s) \<Rightarrow> s)
         else callNack ack s)"

definition peerClient :: "peerMessage \<Rightarrow> uuid" where
  "peerClient p = (case p of PeerBatch c _ _ _ \<Rightarrow> c | PeerDone c _ \<Rightarrow> c | DropPeer \<Rightarrow> uuid_Nil)"

definition peerSender :: "peerMessage \<Rightarrow> int" where
  "peerSender p = (case p of PeerBatch _ i _ _ \<Rightarrow> i | PeerDone _ i \<Rightarrow> i | DropPeer \<Rightarrow> 0)"

definition recordPeer :: "peerMessage \<Rightarrow> heavyMonitor \<Rightarrow> bool \<times> heavyMonitor" where
  "recordPeer p m =
     (case p of
        PeerBatch c sender role accounts \<Rightarrow> (False, RecordHeavyBatch c sender role accounts m)
      | PeerDone c sender \<Rightarrow> RecordDone c sender m
      | DropPeer \<Rightarrow> (False, m))"

definition processPeerMessage :: "scatterAndGather \<Rightarrow> peerMessage \<Rightarrow> nat \<Rightarrow> sgState wnode \<Rightarrow> sgState wnode" where
  "processPeerMessage w pm ack s =
     (if nodeDown s then s
      else if pm = DropPeer \<or> peerSender pm = WorkerID (sgCfg w) \<or> isCompleted (own s) (peerClient pm) then callAck ack s
      else case recordPeer pm (sgMonitor (own s)) of
        (ready, m) \<Rightarrow>
          let s = updOwn (\<lambda>x. x\<lparr>sgMonitor := m\<rparr>) s in
          (case fromIo (SaveClient (SG_sources w) (peerClient pm)) s of
             (Inl e, s) \<Rightarrow> if nodeDown s then s else callNack ack s
           | (Inr _, s) \<Rightarrow>
               let s = callAck ack s in
               if ready then snd (ignoring (onClientReady w (peerClient pm)) s) else s))"

datatype sgInput = SGDeliver Message nat | SGPeer bytes nat

fun SG_step :: "scatterAndGather \<Rightarrow> sgInput \<Rightarrow> sgState wnode \<Rightarrow> sgState wnode" where
  "SG_step w (SGDeliver m ack) s = processMessage w m ack s"
| "SG_step w (SGPeer body ack) s =
     (if nodeDown s then s
      else case exchangeDispatch body of None \<Rightarrow> stopNode s | Some pm \<Rightarrow> processPeerMessage w pm ack s)"

definition SG_Start :: "scatterAndGather \<Rightarrow> net \<Rightarrow> fs \<Rightarrow> net \<Rightarrow> sgState wnode" where
  "SG_Start w exchange = bootNode (sgCfg w) (SG_sources w) (newSgState (sgCfg w) exchange)"

definition SG_Run :: "scatterAndGather \<Rightarrow> sgInput list \<Rightarrow> sgState wnode \<Rightarrow> sgState wnode" where
  "SG_Run w = fold (SG_step w)"

end
