(* ===== verification/HeavyBarrier.thy ===== *)
theory HeavyBarrier
  imports PhaseOne
begin

text \<open>
  The barrier of the heavy-account exchange: over every interleaving of the peers' messages with the
  replica's own EOF a client is sealed exactly once, and only when its heavy sets are complete.
\<close>

section \<open>Events of a client\<close>

datatype degreeEvent =
    Local "Account list" "Account list"
  | Batch int byte "Account list"
  | Done int

definition monitorEvent :: "uuid \<Rightarrow> degreeEvent \<Rightarrow> heavyMonitor \<Rightarrow> bool \<times> heavyMonitor" where
  "monitorEvent c e m =
     (case e of
        Local srcs sinks \<Rightarrow> MergeLocal c srcs sinks m
      | Batch p role accs \<Rightarrow> (False, RecordHeavyBatch c p role accs m)
      | Done p \<Rightarrow> RecordDone c p m)"

text \<open>The number of times an event reported that the client is ready, and the final monitor.\<close>

fun monitorRun :: "uuid \<Rightarrow> degreeEvent list \<Rightarrow> heavyMonitor \<Rightarrow> nat \<times> heavyMonitor" where
  "monitorRun c [] m = (0, m)"
| "monitorRun c (e # es) m =
     (case monitorEvent c e m of (ready, m) \<Rightarrow> case monitorRun c es m of (k, m) \<Rightarrow> (k + of_bool ready, m))"

lemma monitorRun_append:
  "monitorRun c (es @ fs) m =
     (case monitorRun c es m of (k, m) \<Rightarrow> case monitorRun c fs m of (k', m) \<Rightarrow> (k + k', m))"
  by (induction es arbitrary: m) (auto split: prod.split)

text \<open>What one event contributes.\<close>

fun eventSources :: "int \<Rightarrow> degreeEvent \<Rightarrow> Account set" where
  "eventSources self (Local srcs sinks) = set srcs"
| "eventSources self (Batch p role accs) = (if p \<noteq> self \<and> role \<noteq> Q4HeavyRoleSink then set accs else {})"
| "eventSources self (Done p) = {}"

fun eventSinks :: "int \<Rightarrow> degreeEvent \<Rightarrow> Account set" where
  "eventSinks self (Local srcs sinks) = set sinks"
| "eventSinks self (Batch p role accs) = (if p \<noteq> self \<and> role = Q4HeavyRoleSink then set accs else {})"
| "eventSinks self (Done p) = {}"

fun eventDone :: "int \<Rightarrow> degreeEvent \<Rightarrow> int set" where
  "eventDone self (Done p) = (if p = self then {} else {p})"
| "eventDone self _ = {}"

fun isLocal :: "degreeEvent \<Rightarrow> bool" where
  "isLocal (Local srcs sinks) = True"
| "isLocal _ = False"

definition sourcesIn :: "int \<Rightarrow> degreeEvent list \<Rightarrow> Account set" where
  "sourcesIn self es = \<Union> (eventSources self ` set es)"

definition sinksIn :: "int \<Rightarrow> degreeEvent list \<Rightarrow> Account set" where
  "sinksIn self es = \<Union> (eventSinks self ` set es)"

definition doneIn :: "int \<Rightarrow> degreeEvent list \<Rightarrow> int set" where
  "doneIn self es = \<Union> (eventDone self ` set es)"

definition localIn :: "degreeEvent list \<Rightarrow> bool" where
  "localIn es \<longleftrightarrow> list_ex isLocal es"

definition barrierOpen :: "heavyMonitor \<Rightarrow> degreeEvent list \<Rightarrow> bool" where
  "barrierOpen m es \<longleftrightarrow> localIn es \<and> peerTarget m \<le> int (card (doneIn (selfID m) es))"

text \<open>What the monitor knows of a client that is not sealed: exactly the events so far.\<close>

definition collected :: "heavyMonitor \<Rightarrow> degreeEvent list \<Rightarrow> degreeState \<Rightarrow> bool" where
  "collected m es ce \<longleftrightarrow>
     set (heavySrcs ce) = sourcesIn (selfID m) es \<and> set (heavySinks ce) = sinksIn (selfID m) es
   \<and> set (donePeers ce) = doneIn (selfID m) es \<and> distinct (donePeers ce) \<and> localDone ce = localIn es"

lemma set_fold_insert [simp]: "set (fold List.insert xs ys) = set xs \<union> set ys"
  by (induction xs arbitrary: ys) auto

lemma distinct_fold_insert [simp]: "distinct (fold List.insert xs ys) = distinct ys"
  by (induction xs arbitrary: ys) (auto simp: List.insert_def)

lemma degreeOf_put [simp]:
  "degreeOf (putDegree c ce m) c' = (if c' = c then ce else degreeOf m c')" "selfID (putDegree c ce m) = selfID m"
  "peerTarget (putDegree c ce m) = peerTarget m" "isReady (putDegree c ce m) = isReady m"
  by (auto simp: degreeOf_def putDegree_def isReady_def fun_eq_iff)

lemma events_snoc:
  "sourcesIn self (es @ [e]) = sourcesIn self es \<union> eventSources self e"
  "sinksIn self (es @ [e]) = sinksIn self es \<union> eventSinks self e"
  "doneIn self (es @ [e]) = doneIn self es \<union> eventDone self e"
  "localIn (es @ [e]) \<longleftrightarrow> localIn es \<or> isLocal e"
  by (auto simp: sourcesIn_def sinksIn_def doneIn_def localIn_def)

lemma monitorEvent_keeps:
  "selfID (snd (monitorEvent c e m)) = selfID m" "peerTarget (snd (monitorEvent c e m)) = peerTarget m"
  by (auto simp: monitorEvent_def MergeLocal_def RecordHeavyBatch_def RecordDone_def Let_def split: degreeEvent.split prod.split)

text \<open>A sealed client never changes again and is not reported again.\<close>

lemma monitorEvent_sealed:
  "sealed (degreeOf m c) \<Longrightarrow>
     \<not> fst (monitorEvent c e m) \<and> degreeOf (snd (monitorEvent c e m)) c = degreeOf m c"
  by (auto simp: monitorEvent_def MergeLocal_def RecordHeavyBatch_def RecordDone_def Let_def split: degreeEvent.split)

lemma isReady_simps:
  "\<not> sealed ce \<Longrightarrow> distinct (donePeers ce) \<Longrightarrow>
     isReady m ce = (if localDone ce \<and> peerTarget m \<le> int (card (set (donePeers ce))) then (True, ce\<lparr>sealed := True\<rparr>) else (False, ce))"
  by (auto simp: isReady_def distinct_card)

lemma monitorEvent_open:
  assumes "\<not> sealed (degreeOf m c)" "collected m es (degreeOf m c)" "\<not> barrierOpen m es"
  shows "(let m' = snd (monitorEvent c e m) in
       fst (monitorEvent c e m) = barrierOpen m (es @ [e]) \<and> sealed (degreeOf m' c) = barrierOpen m (es @ [e])
     \<and> collected m (es @ [e]) (degreeOf m' c))"
  using assms
  by (cases e)
    (auto simp: monitorEvent_def MergeLocal_def RecordHeavyBatch_def RecordDone_def Let_def isReady_simps
      collected_def events_snoc barrierOpen_def)

lemma monitorRun_keeps:
  "selfID (snd (monitorRun c es m)) = selfID m" "peerTarget (snd (monitorRun c es m)) = peerTarget m"
  by (induction es arbitrary: m) (auto split: prod.split simp: monitorEvent_keeps; metis monitorEvent_keeps snd_conv)+

lemma barrierOpen_snoc: "barrierOpen m es \<Longrightarrow> barrierOpen m (es @ [e])"
proof -
  have "finite (eventDone self e)" for self e by (cases e) auto
  hence "card (doneIn (selfID m) es) \<le> card (doneIn (selfID m) (es @ [e]))"
    by (intro card_mono) (auto simp: events_snoc doneIn_def)
  thus "barrierOpen m es \<Longrightarrow> barrierOpen m (es @ [e])" by (auto simp: barrierOpen_def events_snoc)
qed

text \<open>
  The state of a client after any events: before the barrier opens, all of them; afterwards, those up
  to the event that opened it.
\<close>

definition barrierState :: "heavyMonitor \<Rightarrow> uuid \<Rightarrow> degreeEvent list \<Rightarrow> nat \<Rightarrow> degreeState \<Rightarrow> bool" where
  "barrierState m c es k ce \<longleftrightarrow>
     (if barrierOpen m es
      then k = 1 \<and> sealed ce \<and> (\<exists>pre rest. es = pre @ rest \<and> barrierOpen m pre \<and> collected m pre ce)
      else k = 0 \<and> \<not> sealed ce \<and> collected m es ce)"

lemma same_members:
  assumes "selfID m' = selfID m" "peerTarget m' = peerTarget m"
  shows "barrierOpen m' = barrierOpen m" "collected m' = collected m"
  using assms by (auto simp: barrierOpen_def collected_def fun_eq_iff)

lemma barrier_state:
  assumes "\<not> sealed (degreeOf m c)" "collected m [] (degreeOf m c)"
  shows "barrierState m c es (fst (monitorRun c es m)) (degreeOf (snd (monitorRun c es m)) c)"
proof (induction es rule: rev_induct)
  case Nil
  show ?case using assms by (simp add: barrierState_def) (auto simp: barrierOpen_def localIn_def)
next
  case (snoc e es)
  obtain k m1 where r: "monitorRun c es m = (k, m1)" by (cases "monitorRun c es m")
  obtain b m2 where s: "monitorEvent c e m1 = (b, m2)" by (cases "monitorEvent c e m1")
  have run: "monitorRun c (es @ [e]) m = (k + of_bool b, m2)" by (simp add: monitorRun_append r s)
  have same: "selfID m1 = selfID m" "peerTarget m1 = peerTarget m" using monitorRun_keeps [of c es m] r by auto
  show ?case
  proof (cases "barrierOpen m es")
    case True
    then obtain pre rest where "k = 1" "sealed (degreeOf m1 c)" "es = pre @ rest" "barrierOpen m pre"
      "collected m pre (degreeOf m1 c)"
      using snoc.IH by (auto simp: r barrierState_def)
    moreover have "\<not> b" "degreeOf m2 c = degreeOf m1 c" using monitorEvent_sealed [of m1 c e] calculation(2) s by auto
    moreover from calculation have "\<exists>pre rest. es @ [e] = pre @ rest \<and> barrierOpen m pre \<and> collected m pre (degreeOf m2 c)"
      by (intro exI [of _ pre] exI [of _ "rest @ [e]"]) simp
    ultimately show ?thesis unfolding run barrierState_def using barrierOpen_snoc [OF True, of e] by simp
  next
    case False
    hence "k = 0" "\<not> sealed (degreeOf m1 c)" "collected m es (degreeOf m1 c)" using snoc.IH by (auto simp: r barrierState_def)
    moreover have "b = barrierOpen m (es @ [e])" "sealed (degreeOf m2 c) = barrierOpen m (es @ [e])"
      "collected m (es @ [e]) (degreeOf m2 c)"
      using monitorEvent_open [of m1 c es e] calculation False s by (auto simp: same_members [OF same] Let_def)
    ultimately show ?thesis by (auto simp: run barrierState_def)
  qed
qed

text \<open>The peers' protocol: every message is of a member, the batches of a peer are out before its Done.\<close>

definition orderlyExchange :: "int \<Rightarrow> int set \<Rightarrow> Account list \<Rightarrow> Account list \<Rightarrow> degreeEvent list \<Rightarrow> bool" where
  "orderlyExchange self peers srcs sinks es \<longleftrightarrow>
     (\<forall>e \<in> set es. case e of
        Local s k \<Rightarrow> s = srcs \<and> k = sinks
      | Batch p role accs \<Rightarrow> p = self \<or> p \<in> peers \<and> Batch p role accs \<in> set (takeWhile (\<lambda>e. e \<noteq> Done p) es)
      | Done p \<Rightarrow> p \<in> insert self peers)"

lemma orderlyD:
  assumes "orderlyExchange self peers srcs sinks es"
  shows "Done p \<in> set es \<Longrightarrow> p \<in> insert self peers" "Local s k \<in> set es \<Longrightarrow> s = srcs \<and> k = sinks"
    "Batch p role accs \<in> set es \<Longrightarrow> p = self \<or> p \<in> peers \<and> Batch p role accs \<in> set (takeWhile (\<lambda>e. e \<noteq> Done p) es)"
  using assms by (auto simp: orderlyExchange_def split: degreeEvent.splits)

lemma doneIn_iff: "p \<in> doneIn self es \<longleftrightarrow> p \<noteq> self \<and> Done p \<in> set es"
proof -
  have "p \<in> eventDone self e \<longleftrightarrow> p \<noteq> self \<and> e = Done p" for e by (cases e) auto
  thus ?thesis by (auto simp: doneIn_def)
qed

lemma localIn_iff: "localIn es \<longleftrightarrow> (\<exists>s k. Local s k \<in> set es)"
  by (auto simp: localIn_def list_ex_iff elim!: isLocal.elims intro!: bexI [of _ "Local _ _"])

lemma takeWhile_before:
  "x \<in> set xs \<Longrightarrow> set (takeWhile (\<lambda>e. e \<noteq> x) (xs @ ys)) \<subseteq> set xs"
  by (auto dest: set_takeWhileD)

lemma monitor_collects_all:
  assumes "orderlyExchange self peers srcs sinks es" "finite peers" "self \<notin> peers"
    "selfID m = self" "peerTarget m = int (card peers)"
    "es = pre @ rest" "barrierOpen m pre"
  shows "sourcesIn self pre = sourcesIn self es" "sinksIn self pre = sinksIn self es"
proof -
  have sub: "doneIn self pre \<subseteq> peers" using assms(6) orderlyD(1) [OF assms(1)] by (auto simp: doneIn_iff) blast
  have "doneIn self pre = peers" using sub assms(2,4,5,7) by (intro card_seteq) (auto simp: barrierOpen_def)
  hence peer: "Done p \<in> set pre" if "p \<in> peers" for p
    using that by (auto simp: doneIn_iff)
  have loc: "Local srcs sinks \<in> set pre"
    using assms(6,7) orderlyD(2) [OF assms(1)] by (auto simp: barrierOpen_def localIn_iff)
  have "e \<in> set pre \<or> (eventSources self e = {} \<and> eventSinks self e = {})" if "e \<in> set es" for e
  proof (cases e)
    case (Local s k) thus ?thesis using that orderlyD(2) [OF assms(1)] loc by auto
  next
    case (Batch p role accs)
    with that have "p = self \<or> p \<in> peers \<and> e \<in> set (takeWhile (\<lambda>e. e \<noteq> Done p) es)"
      using orderlyD(3) [OF assms(1)] by blast
    thus ?thesis using takeWhile_before [OF peer, of p rest] Batch assms(6) by (cases "p = self") auto
  qed auto
  thus "sourcesIn self pre = sourcesIn self es" "sinksIn self pre = sinksIn self es"
    using assms(6) by (auto simp: sourcesIn_def sinksIn_def; blast)+
qed

lemma monitor_seals:
  fixes c :: uuid
  assumes "orderlyExchange self peers srcs sinks es" "finite peers" "self \<notin> peers"
    and "int (card peers) = max (workers - 1) 0"
  defines "run \<equiv> monitorRun c es (NewHeavyAccountsMonitor self workers)"
    and "complete \<equiv> Local srcs sinks \<in> set es \<and> (\<forall>p \<in> peers. Done p \<in> set es)"
  shows "fst run = of_bool complete \<and> IsSealed (snd run) c = complete
    \<and> (complete \<longrightarrow> set (HeavySources (snd run) c) = sourcesIn self es \<and> set (HeavySinks (snd run) c) = sinksIn self es)"
proof -
  let ?m = "NewHeavyAccountsMonitor self workers"
  have m: "selfID ?m = self" "peerTarget ?m = int (card peers)" using assms(4) by (auto simp: NewHeavyAccountsMonitor_def)
  have st: "barrierState ?m c es (fst run) (degreeOf (snd run) c)"
    unfolding run_def by (rule barrier_state)
      (simp_all add: degreeOf_def NewHeavyAccountsMonitor_def newDegreeState_def collected_def sourcesIn_def sinksIn_def
        doneIn_def localIn_def)
  have "doneIn self es \<subseteq> peers" using orderlyD(1) [OF assms(1)] by (auto simp: doneIn_iff) blast
  hence "card peers \<le> card (doneIn self es) \<longleftrightarrow> doneIn self es = peers" using assms(2) card_seteq by blast
  moreover have "doneIn self es = peers \<longleftrightarrow> (\<forall>p \<in> peers. Done p \<in> set es)"
    using assms(3) \<open>doneIn self es \<subseteq> peers\<close> by (auto simp: doneIn_iff)
  ultimately have opn: "barrierOpen ?m es = complete"
    using m orderlyD(2) [OF assms(1)] by (auto simp: barrierOpen_def localIn_iff complete_def)
  have acc: "HeavySources m' c = heavySrcs (degreeOf m' c)" "HeavySinks m' c = heavySinks (degreeOf m' c)"
    "IsSealed m' c = sealed (degreeOf m' c)" for m'
    by (auto simp: HeavySources_def HeavySinks_def IsSealed_def degreeOf_def mgetd_def newDegreeState_def split: option.split)
  show ?thesis
  proof (cases complete)
    case True
    then obtain pre rest where s: "fst run = 1" "sealed (degreeOf (snd run) c)" "es = pre @ rest" "barrierOpen ?m pre"
      "collected ?m pre (degreeOf (snd run) c)" using st by (auto simp: barrierState_def opn)
    with monitor_collects_all [OF assms(1-3) m s(3,4)] True show ?thesis by (simp add: acc collected_def m(1))
  next
    case False
    with st show ?thesis by (simp add: barrierState_def opn acc)
  qed
qed

text \<open>
  C32. However the announcements of the peers and the replica's own EOF interleave, and however often
  they are repeated, a client is handed on exactly once, as soon as the local accounts and every peer's
  Done are in, and then its heavy sets hold the local accounts and every batch of every peer.
\<close>

theorem monitor_seals_once_complete:
  fixes c :: uuid
  assumes "orderlyExchange self peers srcs sinks es" "finite peers" "self \<notin> peers"
    and "int (card peers) = max (workers - 1) 0"
  defines "run \<equiv> monitorRun c es (NewHeavyAccountsMonitor self workers)"
    and "complete \<equiv> Local srcs sinks \<in> set es \<and> (\<forall>p \<in> peers. Done p \<in> set es)"
  shows "fst run = of_bool complete \<and> IsSealed (snd run) c = complete
    \<and> (complete \<longrightarrow> set (HeavySources (snd run) c) = sourcesIn self es \<and> set (HeavySinks (snd run) c) = sinksIn self es)"
  unfolding run_def complete_def by (rule monitor_seals [OF assms(1-4)])

lemma monitor_seals_once_complete_witness:
  "let a = \<lparr>BankID = ''1'', ID = ''A''\<rparr>; b = \<lparr>BankID = ''2'', ID = ''B''\<rparr>;
       es = [Batch 1 Q4HeavyRoleSink [b], Done 1, Local [a] [], Batch 2 Q4HeavyRoleSource [b], Batch 1 Q4HeavyRoleSink [b], Done 2];
       run = monitorRun (replicate 16 7) es (NewHeavyAccountsMonitor 0 3) in
   fst run = 1 \<and> IsSealed (snd run) (replicate 16 7) \<and> set (HeavySources (snd run) (replicate 16 7)) = {a, b} \<and> set (HeavySinks (snd run) (replicate 16 7)) = {b}"
  using monitor_seals_once_complete
    [of 0 "{1, 2}" "[\<lparr>BankID = ''1'', ID = ''A''\<rparr>]" "[]"
      "[Batch 1 Q4HeavyRoleSink [\<lparr>BankID = ''2'', ID = ''B''\<rparr>], Done 1, Local [\<lparr>BankID = ''1'', ID = ''A''\<rparr>] [],
        Batch 2 Q4HeavyRoleSource [\<lparr>BankID = ''2'', ID = ''B''\<rparr>],
        Batch 1 Q4HeavyRoleSink [\<lparr>BankID = ''2'', ID = ''B''\<rparr>], Done 2]" 3 "replicate 16 7"]
  by (simp add: orderlyExchange_def sourcesIn_def sinksIn_def Q4HeavyRoleSink_def Q4HeavyRoleSource_def insert_commute)

section \<open>The exchange delivers in order\<close>

fun eventSender :: "degreeEvent \<Rightarrow> int option" where
  "eventSender (Local srcs sinks) = None"
| "eventSender (Batch p role accs) = Some p"
| "eventSender (Done p) = Some p"

text \<open>What \<open>PublishHeavy\<close> announces, as events of the receiver.\<close>

definition announcement :: "(Account list \<Rightarrow> Account list) \<Rightarrow> int \<Rightarrow> Account list \<Rightarrow> Account list \<Rightarrow> degreeEvent list" where
  "announcement order p srcs sinks =
     map (Batch p Q4HeavyRoleSource) (chunks heavyBatchSize (order srcs))
   @ map (Batch p Q4HeavyRoleSink) (chunks heavyBatchSize (order sinks)) @ [Done p]"

text \<open>
  A replica sees the announcement of every member in the order it was sent, interleaved in any way
  with those of the others and with its own EOF.
\<close>

definition fanout :: "(int \<Rightarrow> Account list \<Rightarrow> Account list) \<Rightarrow> int \<Rightarrow> int \<Rightarrow> (int \<Rightarrow> Account list) \<Rightarrow> (int \<Rightarrow> Account list) \<Rightarrow> degreeEvent list \<Rightarrow> bool" where
  "fanout order n self srcs sinks es \<longleftrightarrow>
     (\<forall>p \<in> {0..<n}. filter (\<lambda>e. eventSender e = Some p) es = announcement (order p) p (srcs p) (sinks p))
   \<and> filter (\<lambda>e. eventSender e = None) es = [Local (srcs self) (sinks self)]
   \<and> (\<forall>e \<in> set es. \<forall>p. eventSender e = Some p \<longrightarrow> p \<in> {0..<n})"

lemma filter_last_takeWhile:
  assumes "filter P es = pre @ [x]" "x \<notin> set pre" "y \<in> set es" "P y" "y \<noteq> x"
  shows "y \<in> set (takeWhile (\<lambda>e. e \<noteq> x) es)"
proof -
  have "x \<in> set (filter P es)" by (simp add: assms(1))
  hence "x \<in> set es" "P x" by auto
  then obtain es1 es2 where es: "es = es1 @ x # es2" "x \<notin> set es1" using split_list_first by metis
  with assms(1) \<open>P x\<close> have "filter P es1 @ x # filter P es2 = pre @ [x]" by simp
  with assms(2) have "filter P es2 = []" by (auto simp: append_eq_append_conv2 append_eq_Cons_conv Cons_eq_append_conv)
  hence "y \<in> set es1" using es(1) assms(3-5) by (auto simp: filter_empty_conv)
  thus ?thesis using es by (auto simp: takeWhile_append takeWhile_eq_all_conv [THEN iffD2])
qed

lemma announcement_members:
  "e \<in> set (announcement order p srcs sinks) \<longleftrightarrow>
     (\<exists>accs \<in> set (chunks heavyBatchSize (order srcs)). e = Batch p Q4HeavyRoleSource accs)
   \<or> (\<exists>accs \<in> set (chunks heavyBatchSize (order sinks)). e = Batch p Q4HeavyRoleSink accs) \<or> e = Done p"
  by (auto simp: announcement_def)

lemma fanout_events:
  assumes "fanout order n self srcs sinks es" "e \<in> set es"
  shows "case eventSender e of None \<Rightarrow> e = Local (srcs self) (sinks self)
    | Some p \<Rightarrow> p \<in> {0..<n} \<and> e \<in> set (announcement (order p) p (srcs p) (sinks p))"
proof (cases "eventSender e")
  case None
  hence "e \<in> set (filter (\<lambda>e. eventSender e = None) es)" using assms(2) by simp
  moreover have "filter (\<lambda>e. eventSender e = None) es = [Local (srcs self) (sinks self)]"
    using assms(1) by (simp add: fanout_def)
  ultimately show ?thesis using None by simp
next
  case (Some p)
  hence "e \<in> set (filter (\<lambda>e. eventSender e = Some p) es)" using assms(2) by simp
  moreover have "p \<in> {0..<n}" using assms Some unfolding fanout_def by blast
  moreover from this have "filter (\<lambda>e. eventSender e = Some p) es = announcement (order p) p (srcs p) (sinks p)"
    using assms(1) unfolding fanout_def by blast
  ultimately show ?thesis using Some by simp
qed

lemma fanout_orderly:
  assumes "fanout order n self srcs sinks es" "self \<in> {0..<n}"
  shows "orderlyExchange self ({0..<n} - {self}) (srcs self) (sinks self) es"
proof -
  have "case e of Local s k \<Rightarrow> s = srcs self \<and> k = sinks self
      | Batch p role accs \<Rightarrow> p = self \<or> p \<in> {0..<n} - {self} \<and> Batch p role accs \<in> set (takeWhile (\<lambda>e. e \<noteq> Done p) es)
      | Done p \<Rightarrow> p \<in> insert self ({0..<n} - {self})" if e: "e \<in> set es" for e
  proof (cases e)
    case (Batch p role accs)
    with fanout_events [OF assms(1) e] have p: "p \<in> {0..<n}" by simp
    with assms(1) have f: "filter (\<lambda>e. eventSender e = Some p) es =
        (map (Batch p Q4HeavyRoleSource) (chunks heavyBatchSize (order p (srcs p)))
         @ map (Batch p Q4HeavyRoleSink) (chunks heavyBatchSize (order p (sinks p)))) @ [Done p]"
      by (simp add: fanout_def announcement_def)
    show ?thesis using filter_last_takeWhile [OF f _ e] Batch p by (cases "p = self") auto
  qed (use fanout_events [OF assms(1) e] in auto)
  thus ?thesis by (simp add: orderlyExchange_def)
qed

lemma concat_chunks: "0 < n \<Longrightarrow> concat (chunks n xs) = xs"
  by (induction n xs rule: chunks.induct) auto

lemma eventsIn: "e \<in> set es \<Longrightarrow> eventSources self e \<subseteq> sourcesIn self es \<and> eventSinks self e \<subseteq> sinksIn self es"
  by (auto simp: sourcesIn_def sinksIn_def)

lemma fanout_sources:
  assumes "fanout order n self srcs sinks es" "self \<in> {0..<n}" "\<And>p xs. set (order p xs) = set xs"
  shows "sourcesIn self es = (\<Union>p \<in> {0..<n}. set (srcs p))" "sinksIn self es = (\<Union>p \<in> {0..<n}. set (sinks p))"
proof -
  have ch: "\<Union> (set ` set (chunks heavyBatchSize (order p xs))) = set xs" for p xs
    using concat_chunks [of heavyBatchSize "order p xs"] assms(3) [of p xs] by (simp add: heavyBatchSize_def flip: set_concat)
  have chD: "a \<in> set xs" if "accs \<in> set (chunks heavyBatchSize (order p xs))" "a \<in> set accs" for a accs p xs
    using that ch by blast
  have announced: "e \<in> set es" if "p \<in> {0..<n}" "e \<in> set (announcement (order p) p (srcs p) (sinks p))" for e p
  proof -
    have "filter (\<lambda>e. eventSender e = Some p) es = announcement (order p) p (srcs p) (sinks p)"
      using assms(1) that(1) unfolding fanout_def by blast
    thus ?thesis using that(2) by (metis filter_is_subset subsetD)
  qed
  have loc: "Local (srcs self) (sinks self) \<in> set es"
    using assms(1) unfolding fanout_def by (metis filter_is_subset list.set_intros(1) subsetD)
  have ev: "eventSources self e \<subseteq> (\<Union>p \<in> {0..<n}. set (srcs p)) \<and> eventSinks self e \<subseteq> (\<Union>p \<in> {0..<n}. set (sinks p))"
    if "e \<in> set es" for e
    using fanout_events [OF assms(1) that] assms(2) chD
    by (cases e) (auto simp: announcement_members Q4HeavyRoleSource_def Q4HeavyRoleSink_def)
  have src: "set (srcs p) \<subseteq> sourcesIn self es \<and> set (sinks p) \<subseteq> sinksIn self es" if p: "p \<in> {0..<n}" for p
  proof (cases "p = self")
    case True
    thus ?thesis using eventsIn [OF loc] by simp
  next
    case False
    have "set accs \<subseteq> sourcesIn self es" if "accs \<in> set (chunks heavyBatchSize (order p (srcs p)))" for accs
      using eventsIn [OF announced [OF p, of "Batch p Q4HeavyRoleSource accs"], of self] that False
      by (simp add: announcement_members Q4HeavyRoleSource_def Q4HeavyRoleSink_def)
    moreover have "set accs \<subseteq> sinksIn self es" if "accs \<in> set (chunks heavyBatchSize (order p (sinks p)))" for accs
      using eventsIn [OF announced [OF p, of "Batch p Q4HeavyRoleSink accs"], of self] that False
      by (simp add: announcement_members)
    ultimately show ?thesis using ch by blast
  qed
  show "sourcesIn self es = (\<Union>p \<in> {0..<n}. set (srcs p))" "sinksIn self es = (\<Union>p \<in> {0..<n}. set (sinks p))"
    using src by (intro equalityI; (auto simp: sourcesIn_def sinksIn_def dest!: ev; fail | blast))+
qed

lemma fanout_seals:
  assumes "fanout order n self srcs sinks es" "self \<in> {0..<n}" "\<And>p xs. set (order p xs) = set xs"
  shows "set (HeavySources (snd (monitorRun c es (NewHeavyAccountsMonitor self n))) c) = (\<Union>p \<in> {0..<n}. set (srcs p))"
    "set (HeavySinks (snd (monitorRun c es (NewHeavyAccountsMonitor self n))) c) = (\<Union>p \<in> {0..<n}. set (sinks p))"
proof -
  have "Local (srcs self) (sinks self) \<in> set es"
    using assms(1) unfolding fanout_def by (metis filter_is_subset list.set_intros(1) subsetD)
  moreover have "Done p \<in> set es" if "p \<in> {0..<n}" for p
  proof -
    have "Done p \<in> set (filter (\<lambda>e. eventSender e = Some p) es)"
      using assms(1) that unfolding fanout_def by (simp add: announcement_members)
    thus ?thesis by simp
  qed
  moreover have "int (card ({0..<n} - {self})) = max (n - 1) 0" using assms(2) by auto
  ultimately show "set (HeavySources (snd (monitorRun c es (NewHeavyAccountsMonitor self n))) c) = (\<Union>p \<in> {0..<n}. set (srcs p))"
    "set (HeavySinks (snd (monitorRun c es (NewHeavyAccountsMonitor self n))) c) = (\<Union>p \<in> {0..<n}. set (sinks p))"
    using monitor_seals [OF fanout_orderly [OF assms(1,2)], of n c] fanout_sources [OF assms] by simp_all
qed

end
