(* ===== verification/Query4Graph.thy ===== *)
theory Query4Graph
  imports HeavyBarrier
begin

text \<open>
  Query 4 as a question about the payment graph, and what the adjacency of a replica and its stream of
  pairs say about it.
\<close>

section \<open>Abstract specification\<close>

definition payments :: "Transaction list \<Rightarrow> (Account \<times> Account) set" where
  "payments txs = (\<lambda>t. (srcAccountOf t, dstAccountOf t)) ` set txs"

text \<open>The accounts over which \<open>s\<close> can have passed money on to \<open>d\<close>.\<close>

definition bridges :: "(Account \<times> Account) set \<Rightarrow> Account \<Rightarrow> Account \<Rightarrow> Account set" where
  "bridges E s d = {b. (s, b) \<in> E \<and> (b, d) \<in> E}"

definition query4Spec :: "int \<Rightarrow> (Account \<times> Account) set \<Rightarrow> Account set" where
  "query4Spec thr E = \<Union> {{s, d} |s d. thr \<le> int (card (bridges E s d))}"

text \<open>
  Accounts whose textual ids can be told apart: no dash in the bank id, no colon in either part.
\<close>

definition plainAccount :: "Account \<Rightarrow> bool" where
  "plainAccount a \<longleftrightarrow> CHR ''-'' \<notin> set (BankID a) \<and> CHR '':'' \<notin> set (BankID a) \<and> CHR '':'' \<notin> set (ID a)"

section \<open>Adjacency\<close>

lemma neighbours_addEdge [simp]:
  "neighbours (addEdge k n g) a = (if a = k then List.insert n (neighbours g k) else neighbours g a)"
  by (simp add: neighbours_def addEdge_def)

definition goodAdjacency :: "adjacency \<Rightarrow> bool" where
  "goodAdjacency g \<longleftrightarrow> wf_map g \<and> (\<forall>a. distinct (neighbours g a))"

lemma goodAdjacency_Nil [simp]: "goodAdjacency []"
  by (simp add: goodAdjacency_def neighbours_def)

lemma goodAdjacency_addEdge [simp]: "goodAdjacency g \<Longrightarrow> goodAdjacency (addEdge k n g)"
  by (auto simp: goodAdjacency_def) (simp add: addEdge_def)

lemma fold_addEdge:
  "set (neighbours (fold (\<lambda>t. addEdge (f t) (h t)) ts g) a) = set (neighbours g a) \<union> {h t |t. t \<in> set ts \<and> f t = a}"
  "goodAdjacency g \<Longrightarrow> goodAdjacency (fold (\<lambda>t. addEdge (f t) (h t)) ts g)"
  by (induction ts arbitrary: g) auto

lemma neighbours_mem:
  "wf_map g \<Longrightarrow> (a, ns) \<in> set g \<Longrightarrow> neighbours g a = ns"
  by (simp add: neighbours_def mgetd_def wf_map_def)

lemma sgClient_put [simp]: "sgClient (putSgClient c cl x) c' = (if c' = c then cl else sgClient x c')"
  by (simp add: sgClient_def putSgClient_def)

lemma handleTx_simps [simp]:
  "sgClient (x\<lparr>sgPendingScatter := p\<rparr>) = sgClient x" "sgClient (x\<lparr>sgPendingGather := p\<rparr>) = sgClient x"
  "sgMonitor (putSgClient c cl x) = sgMonitor x" "sgCompleted (putSgClient c cl x) = sgCompleted x"
  by (simp_all add: sgClient_def putSgClient_def fun_eq_iff)

lemma handleTx_groups [simp]:
  "scatterGroups (sgClient (handleScatterTx c t x) c) = addEdge (srcAccountOf t) (dstAccountOf t) (scatterGroups (sgClient x c))"
  "gatherGroups (sgClient (handleScatterTx c t x) c) = gatherGroups (sgClient x c)"
  "gatherGroups (sgClient (handleGatherTx c t x) c) = addEdge (dstAccountOf t) (srcAccountOf t) (gatherGroups (sgClient x c))"
  "scatterGroups (sgClient (handleGatherTx c t x) c) = scatterGroups (sgClient x c)"
  "sgMonitor (handleScatterTx c t x) = sgMonitor x" "sgMonitor (handleGatherTx c t x) = sgMonitor x"
  unfolding handleScatterTx_def handleGatherTx_def Let_def by (simp_all split: if_split)

lemma handleScatterTx_groups:
  "scatterGroups (sgClient (fold (handleScatterTx c) txs x) c) =
     fold (\<lambda>t. addEdge (srcAccountOf t) (dstAccountOf t)) txs (scatterGroups (sgClient x c))"
  "gatherGroups (sgClient (fold (handleScatterTx c) txs x) c) = gatherGroups (sgClient x c)"
  by (induction txs arbitrary: x) simp_all

lemma handleGatherTx_groups:
  "gatherGroups (sgClient (fold (handleGatherTx c) txs x) c) =
     fold (\<lambda>t. addEdge (dstAccountOf t) (srcAccountOf t)) txs (gatherGroups (sgClient x c))"
  "scatterGroups (sgClient (fold (handleGatherTx c) txs x) c) = scatterGroups (sgClient x c)"
  by (induction txs arbitrary: x) simp_all

section \<open>The stream of pairs\<close>

abbreviation pairOf :: "Account \<Rightarrow> Account \<Rightarrow> TxQ4PairKey" where
  "pairOf s d \<equiv> \<lparr>Src = GetID s, Dst = GetID d\<rparr>"

lemma GetID_plain: "plainAccount a \<Longrightarrow> plainAccount b \<Longrightarrow> GetID a = GetID b \<longleftrightarrow> a = b"
  by (metis plainAccount_def accountFromID_GetID)

lemma count_list_distinct: "distinct xs \<Longrightarrow> count_list xs x = of_bool (x \<in> set xs)"
  by (induction xs) auto

lemma count_list_concat: "count_list (concat xss) x = (\<Sum>xs\<leftarrow>xss. count_list xs x)"
  by (induction xss) (auto simp: count_list_append)

lemma bridgePairs_product:
  "[f s d. s \<leftarrow> xs, P s, d \<leftarrow> ys, Q d] = map (\<lambda>(s, d). f s d) (List.product (filter P xs) (filter Q ys))"
proof -
  have "concat (map (\<lambda>d. if Q d then [f s d] else []) ys) = map (f s) (filter Q ys)" for s
    by (induction ys) auto
  thus ?thesis by (induction xs) (auto simp: comp_def)
qed

lemma bridgePairs_count:
  assumes "mget gather b = Some srcs" "distinct srcs" "distinct dsts"
    and "mset (sgOrder w srcs) = mset srcs" "mset (sgOrder w dsts) = mset dsts"
    and "\<forall>a \<in> set srcs \<union> set dsts. plainAccount a" "plainAccount s" "plainAccount d"
  shows "count_list (bridgePairs w HS HK gather b dsts) (pairOf s d) =
     of_bool (s \<in> set srcs \<and> s \<in> set HS \<and> d \<in> set dsts \<and> d \<in> set HK)"
proof -
  let ?xs = "filter (\<lambda>s. s \<in> set HS) (sgOrder w srcs)" and ?ys = "filter (\<lambda>d. d \<in> set HK) (sgOrder w dsts)"
  have sets: "set (sgOrder w srcs) = set srcs" "set (sgOrder w dsts) = set dsts"
    using assms(4,5) by (metis set_mset_mset)+
  have "distinct ?xs" "distinct ?ys"
    using assms(2-5) by (metis distinct_filter mset_eq_imp_distinct_iff)+
  hence "distinct (List.product ?xs ?ys)" by (rule distinct_product)
  moreover have inj: "pairOf a b = pairOf s d \<longleftrightarrow> a = s \<and> b = d" if "a \<in> set srcs" "b \<in> set dsts" for a b
    using that assms(6-8) by (auto simp: GetID_plain)
  moreover have "inj_on (\<lambda>(s, d). pairOf s d) (set (List.product ?xs ?ys))"
    using assms(6) by (auto simp: inj_on_def GetID_plain sets)
  ultimately have "distinct (bridgePairs w HS HK gather b dsts)"
    by (simp add: bridgePairs_def assms(1) bridgePairs_product distinct_map)
  moreover have "pairOf s d \<in> set (bridgePairs w HS HK gather b dsts) \<longleftrightarrow>
      s \<in> set srcs \<and> s \<in> set HS \<and> d \<in> set dsts \<and> d \<in> set HK"
    using assms(6-8) by (auto simp: bridgePairs_def assms(1) sets GetID_plain)
  ultimately show ?thesis by (simp add: count_list_distinct)
qed

lemma sum_list_mset_eq: "mset xs = mset ys \<Longrightarrow> sum_list (map (f :: 'a \<Rightarrow> nat) xs) = sum_list (map f ys)"
  by (metis mset_map sum_mset_sum_list)

lemma sum_list_groups:
  assumes "wf_map g"
  shows "(\<Sum>(b, ds)\<leftarrow>g. of_bool (P b)) = card {b \<in> fst ` set g. P b}"
proof -
  have "(\<Sum>(b, ds)\<leftarrow>g. of_bool (P b)) = (\<Sum>b\<leftarrow>map fst g. of_bool (P b) :: nat)"
    by (simp add: comp_def case_prod_unfold)
  also have "\<dots> = (\<Sum>b \<in> set (map fst g). of_bool (P b))"
    using assms unfolding wf_map_def by (rule sum_list_distinct_conv_sum_set)
  also have "\<dots> = card {b \<in> fst ` set g. P b}"
    by (simp add: Int_def)
  finally show ?thesis .
qed

lemma neighbours_key: "a \<in> set (neighbours g b) \<Longrightarrow> b \<in> fst ` set g"
  by (cases "mget g b") (auto simp: neighbours_def mgetd_def dest: map_of_SomeD intro: rev_image_eqI)

definition permutesMaps :: "scatterAndGather \<Rightarrow> bool" where
  "permutesMaps w \<longleftrightarrow> (\<forall>xs. mset (sgOrder w xs) = mset xs) \<and> (\<forall>g. mset (sgGroupOrder w g) = mset g)
     \<and> (\<forall>m. mset (sgPairOrder w m) = mset m)"

definition plainAdjacency :: "adjacency \<Rightarrow> bool" where
  "plainAdjacency g \<longleftrightarrow> (\<forall>b. \<forall>a \<in> set (neighbours g b). plainAccount a)"

definition bridgesAt :: "phaseClient \<Rightarrow> Account \<Rightarrow> Account \<Rightarrow> Account set" where
  "bridgesAt cl s d = {b. s \<in> set (neighbours (gatherGroups cl) b) \<and> d \<in> set (neighbours (scatterGroups cl) b)}"

lemma bridgePairs_group:
  assumes "permutesMaps w" "goodAdjacency sg" "goodAdjacency gg" "plainAdjacency sg" "plainAdjacency gg"
    and "plainAccount s" "plainAccount d" "(b, ds) \<in> set sg"
  shows "count_list (bridgePairs w HS HK gg b ds) (pairOf s d) =
     of_bool (s \<in> set HS \<and> d \<in> set HK \<and> s \<in> set (neighbours gg b) \<and> d \<in> set (neighbours sg b))"
proof (cases "mget gg b")
  case None
  thus ?thesis by (simp add: bridgePairs_def neighbours_def mgetd_def)
next
  case (Some srcs)
  have ds: "neighbours sg b = ds" using assms(2,8) by (auto simp: goodAdjacency_def neighbours_mem)
  have srcs: "neighbours gg b = srcs" using Some by (simp add: neighbours_def mgetd_def)
  have dd: "distinct srcs" "distinct ds" using assms(2,3) srcs ds by (metis goodAdjacency_def)+
  have pl: "\<forall>a \<in> set srcs \<union> set ds. plainAccount a" using assms(4,5) srcs ds by (auto simp: plainAdjacency_def)
  show ?thesis
    using bridgePairs_count [OF Some dd _ _ pl assms(6,7)] assms(1) by (auto simp: permutesMaps_def srcs ds)
qed

lemma pairStream_count:
  assumes "permutesMaps w" "goodAdjacency (scatterGroups cl)" "goodAdjacency (gatherGroups cl)"
    and "plainAdjacency (scatterGroups cl)" "plainAdjacency (gatherGroups cl)" "plainAccount s" "plainAccount d"
    and "cl = sgClient x c"
  shows "count_list (pairStream w c x) (pairOf s d) =
     (if s \<in> set (HeavySources (sgMonitor x) c) \<and> d \<in> set (HeavySinks (sgMonitor x) c) then card (bridgesAt cl s d) else 0)"
proof -
  let ?HS = "HeavySources (sgMonitor x) c" and ?HK = "HeavySinks (sgMonitor x) c"
  let ?P = "\<lambda>b. s \<in> set ?HS \<and> d \<in> set ?HK \<and> s \<in> set (neighbours (gatherGroups cl) b) \<and> d \<in> set (neighbours (scatterGroups cl) b)"
  let ?f = "\<lambda>(b, ds). count_list (bridgePairs w ?HS ?HK (gatherGroups cl) b ds) (pairOf s d)"
  have "count_list (pairStream w c x) (pairOf s d) = (\<Sum>e\<leftarrow>sgGroupOrder w (scatterGroups cl). ?f e)"
    by (simp add: pairStream_def Let_def count_list_concat assms(8) comp_def case_prod_unfold)
  also have "\<dots> = (\<Sum>e\<leftarrow>scatterGroups cl. ?f e)"
    using assms(1) by (intro sum_list_mset_eq) (simp add: permutesMaps_def)
  also have "\<dots> = (\<Sum>(b, ds)\<leftarrow>scatterGroups cl. of_bool (?P b))"
    using bridgePairs_group [OF assms(1-7)] by (intro arg_cong [where f = sum_list] map_cong refl) auto
  also have "\<dots> = card {b \<in> fst ` set (scatterGroups cl). ?P b}"
    using assms(2) by (intro sum_list_groups) (simp add: goodAdjacency_def)
  also have "{b \<in> fst ` set (scatterGroups cl). ?P b} = (if s \<in> set ?HS \<and> d \<in> set ?HK then bridgesAt cl s d else {})"
    using neighbours_key by (auto simp: bridgesAt_def)
  finally show ?thesis by (simp split: if_splits)
qed

section \<open>Shards\<close>

text \<open>What the phase-one batches of a client do to the state of its replica.\<close>

fun absorb :: "uuid \<Rightarrow> (TypeTxQ4 \<times> Transaction list) list \<Rightarrow> sgState \<Rightarrow> sgState" where
  "absorb c [] x = x"
| "absorb c ((ty, txs) # bs) x =
     absorb c bs (if ty = TxQ4Scatter then fold (handleScatterTx c) txs x else fold (handleGatherTx c) txs x)"

definition roleTxs :: "TypeTxQ4 \<Rightarrow> (TypeTxQ4 \<times> Transaction list) list \<Rightarrow> Transaction set" where
  "roleTxs ty bs = \<Union> {set txs |txs. (ty, txs) \<in> set bs}"

lemma roleTxs_simps [simp]:
  "roleTxs ty [] = {}" "roleTxs ty ((ty', txs) # bs) = (if ty' = ty then set txs else {}) \<union> roleTxs ty bs"
  by (auto simp: roleTxs_def)

text \<open>Every batch carries one of the two roles, as the phase-one handler requires.\<close>

definition goodRoles :: "(TypeTxQ4 \<times> Transaction list) list \<Rightarrow> bool" where
  "goodRoles bs \<longleftrightarrow> (\<forall>(ty, txs) \<in> set bs. ty = TxQ4Scatter \<or> ty = TxQ4Gather)"

lemma roles_differ [simp]: "TxQ4Scatter \<noteq> TxQ4Gather" "TxQ4Gather \<noteq> TxQ4Scatter"
  by (simp_all add: TxQ4Scatter_def TxQ4Gather_def)

lemma fold_monitor [simp]:
  "sgMonitor (fold (handleScatterTx c) txs x) = sgMonitor x" "sgMonitor (fold (handleGatherTx c) txs x) = sgMonitor x"
  by (induction txs arbitrary: x) simp_all

lemma absorb_groups:
  assumes "goodRoles bs"
  shows "set (neighbours (scatterGroups (sgClient (absorb c bs x) c)) a) =
      set (neighbours (scatterGroups (sgClient x c)) a) \<union> {dstAccountOf t |t. t \<in> roleTxs TxQ4Scatter bs \<and> srcAccountOf t = a}"
    "set (neighbours (gatherGroups (sgClient (absorb c bs x) c)) a) =
      set (neighbours (gatherGroups (sgClient x c)) a) \<union> {srcAccountOf t |t. t \<in> roleTxs TxQ4Gather bs \<and> dstAccountOf t = a}"
    "sgMonitor (absorb c bs x) = sgMonitor x"
  using assms
  by (induction c bs x rule: absorb.induct)
    (auto simp: goodRoles_def handleScatterTx_groups handleGatherTx_groups fold_addEdge)

lemma absorb_good:
  assumes "goodAdjacency (scatterGroups (sgClient x c))" "goodAdjacency (gatherGroups (sgClient x c))"
  shows "goodAdjacency (scatterGroups (sgClient (absorb c bs x) c))" "goodAdjacency (gatherGroups (sgClient (absorb c bs x) c))"
  using assms
  by (induction c bs x rule: absorb.induct) (auto simp: handleScatterTx_groups handleGatherTx_groups fold_addEdge)

text \<open>
  Replica \<open>i\<close> has received the payments of its accounts as a payer and as a payee. \<open>owner\<close> is the hash
  by which the spliter routes.
\<close>

definition receivesShard :: "(Account \<Rightarrow> int) \<Rightarrow> int \<Rightarrow> Transaction list \<Rightarrow> (TypeTxQ4 \<times> Transaction list) list \<Rightarrow> bool" where
  "receivesShard owner i txs bs \<longleftrightarrow> goodRoles bs
   \<and> roleTxs TxQ4Scatter bs = {t \<in> set txs. owner (srcAccountOf t) = i}
   \<and> roleTxs TxQ4Gather bs = {t \<in> set txs. owner (dstAccountOf t) = i}"

definition replicaOf :: "scatterAndGather \<Rightarrow> uuid \<Rightarrow> net \<Rightarrow> (TypeTxQ4 \<times> Transaction list) list \<Rightarrow> sgState" where
  "replicaOf w c exchange bs = FindHeavyAccountsForClient w c (absorb c bs (newSgState (sgCfg w) exchange))"

lemma FindHeavy_groups [simp]:
  "scatterGroups (sgClient (FindHeavyAccountsForClient w c x) c) = scatterGroups (sgClient x c)"
  "gatherGroups (sgClient (FindHeavyAccountsForClient w c x) c) = gatherGroups (sgClient x c)"
  "sgMonitor (FindHeavyAccountsForClient w c x) = sgMonitor x"
  by (simp_all add: FindHeavyAccountsForClient_def Let_def)

lemma newSgState_client [simp]:
  "scatterGroups (sgClient (newSgState cfg exchange) c) = []" "gatherGroups (sgClient (newSgState cfg exchange) c) = []"
  "clHeavySources (sgClient (newSgState cfg exchange) c) = []" "clHeavySinks (sgClient (newSgState cfg exchange) c) = []"
  "neighbours [] a = []"
  by (simp_all add: newSgState_def sgClient_def newPhaseClient_def neighbours_def)

lemma replica_groups:
  assumes "receivesShard owner i txs bs" "cl = sgClient (replicaOf w c exchange bs) c"
  shows "set (neighbours (scatterGroups cl) a) = (if owner a = i then {b. (a, b) \<in> payments txs} else {})"
    and "set (neighbours (gatherGroups cl) a) = (if owner a = i then {b. (b, a) \<in> payments txs} else {})"
    and "goodAdjacency (scatterGroups cl)" and "goodAdjacency (gatherGroups cl)"
proof -
  have g: "goodRoles bs" using assms(1) by (simp add: receivesShard_def)
  show "set (neighbours (scatterGroups cl) a) = (if owner a = i then {b. (a, b) \<in> payments txs} else {})"
    using assms by (auto simp: replicaOf_def absorb_groups [OF g] receivesShard_def payments_def)
  show "set (neighbours (gatherGroups cl) a) = (if owner a = i then {b. (b, a) \<in> payments txs} else {})"
    using assms by (auto simp: replicaOf_def absorb_groups [OF g] receivesShard_def payments_def)
  show "goodAdjacency (scatterGroups cl)" "goodAdjacency (gatherGroups cl)"
    by (simp_all add: assms(2) replicaOf_def absorb_good)
qed

lemma absorb_heavy [simp]:
  "clHeavySources (sgClient (absorb c bs x) c) = clHeavySources (sgClient x c)"
  "clHeavySinks (sgClient (absorb c bs x) c) = clHeavySinks (sgClient x c)"
proof -
  have tx: "clHeavySources (sgClient (handleScatterTx c t x) c) = clHeavySources (sgClient x c)"
    "clHeavySinks (sgClient (handleScatterTx c t x) c) = clHeavySinks (sgClient x c)"
    "clHeavySources (sgClient (handleGatherTx c t x) c) = clHeavySources (sgClient x c)"
    "clHeavySinks (sgClient (handleGatherTx c t x) c) = clHeavySinks (sgClient x c)" for t x c
    unfolding handleScatterTx_def handleGatherTx_def Let_def by (simp_all split: if_split)
  have fo: "clHeavySources (sgClient (fold (handleScatterTx c) txs x) c) = clHeavySources (sgClient x c)"
    "clHeavySinks (sgClient (fold (handleScatterTx c) txs x) c) = clHeavySinks (sgClient x c)"
    "clHeavySources (sgClient (fold (handleGatherTx c) txs x) c) = clHeavySources (sgClient x c)"
    "clHeavySinks (sgClient (fold (handleGatherTx c) txs x) c) = clHeavySinks (sgClient x c)" for txs x c
    by (induction txs arbitrary: x) (simp_all add: tx)
  show "clHeavySources (sgClient (absorb c bs x) c) = clHeavySources (sgClient x c)"
    "clHeavySinks (sgClient (absorb c bs x) c) = clHeavySinks (sgClient x c)"
    by (induction c bs x rule: absorb.induct) (simp_all add: fo)
qed

lemma heavy_keys:
  assumes "goodAdjacency g" "0 < thr"
  shows "a \<in> set (map fst (filter (\<lambda>(a, ns). thr \<le> int (length ns)) g)) \<longleftrightarrow> thr \<le> int (card (set (neighbours g a)))"
proof -
  have *: "length ns = card (set (neighbours g b))" if "(b, ns) \<in> set g" for b ns
    using that assms(1) neighbours_mem [of g b ns] by (metis distinct_card goodAdjacency_def)
  have "\<exists>ns. (a, ns) \<in> set g" if "thr \<le> int (card (set (neighbours g a)))"
  proof -
    have "neighbours g a \<noteq> []" using that assms(2) by auto
    thus ?thesis by (cases "mget g a") (auto simp: neighbours_def mgetd_def dest: map_of_SomeD)
  qed
  thus ?thesis using * by force
qed

lemma replica_heavy:
  assumes "receivesShard owner i txs bs" "0 < sgThreshold w" "cl = sgClient (replicaOf w c exchange bs) c"
  shows "set (clHeavySources cl) = {a. owner a = i \<and> sgThreshold w \<le> int (card {b. (a, b) \<in> payments txs})}"
    and "set (clHeavySinks cl) = {a. owner a = i \<and> sgThreshold w \<le> int (card {b. (b, a) \<in> payments txs})}"
proof -
  let ?x = "absorb c bs (newSgState (sgCfg w) exchange)"
  have cl: "clHeavySources cl = fold List.insert (map fst (filter (\<lambda>(a, ns). sgThreshold w \<le> int (length ns)) (scatterGroups cl))) []"
    "clHeavySinks cl = fold List.insert (map fst (filter (\<lambda>(a, ns). sgThreshold w \<le> int (length ns)) (gatherGroups cl))) []"
    by (simp_all add: assms(3) replicaOf_def FindHeavyAccountsForClient_def Let_def)
  note g = replica_groups [OF assms(1,3)]
  have "a \<in> set (clHeavySources cl) \<longleftrightarrow> owner a = i \<and> sgThreshold w \<le> int (card {b. (a, b) \<in> payments txs})" for a
    using heavy_keys [OF g(3) assms(2), of a] assms(2) by (simp add: cl g(1) split: if_splits)
  moreover have "a \<in> set (clHeavySinks cl) \<longleftrightarrow> owner a = i \<and> sgThreshold w \<le> int (card {b. (b, a) \<in> payments txs})" for a
    using heavy_keys [OF g(4) assms(2), of a] assms(2) by (simp add: cl g(2) split: if_splits)
  ultimately show "set (clHeavySources cl) = {a. owner a = i \<and> sgThreshold w \<le> int (card {b. (a, b) \<in> payments txs})}"
    "set (clHeavySinks cl) = {a. owner a = i \<and> sgThreshold w \<le> int (card {b. (b, a) \<in> payments txs})}"
    by blast+
qed

text \<open>Every streamed pair is one of accounts in the adjacency.\<close>

lemma pairStream_members:
  assumes "pk \<in> set (pairStream w c x)" "permutesMaps w" "goodAdjacency (scatterGroups (sgClient x c))"
  shows "\<exists>b s d. s \<in> set (neighbours (gatherGroups (sgClient x c)) b) \<and> d \<in> set (neighbours (scatterGroups (sgClient x c)) b)
    \<and> pk = pairOf s d"
proof -
  let ?cl = "sgClient x c"
  have m: "mset (sgGroupOrder w g) = mset g" "mset (sgOrder w xs) = mset xs" for g xs
    using assms(2) by (simp_all add: permutesMaps_def)
  have so: "set (sgGroupOrder w g) = set g" "set (sgOrder w xs) = set xs" for g xs
    by (rule mset_eq_setD [OF m(1)], rule mset_eq_setD [OF m(2)])
  from assms(1) obtain b ds where b: "(b, ds) \<in> set (scatterGroups ?cl)"
    "pk \<in> set (bridgePairs w (HeavySources (sgMonitor x) c) (HeavySinks (sgMonitor x) c) (gatherGroups ?cl) b ds)"
    by (auto simp: pairStream_def Let_def so)
  obtain srcs where srcs: "mget (gatherGroups ?cl) b = Some srcs" using b(2) by (cases "mget (gatherGroups ?cl) b") (auto simp: bridgePairs_def)
  have "neighbours (scatterGroups ?cl) b = ds" "neighbours (gatherGroups ?cl) b = srcs"
    using b(1) assms(3) srcs by (simp_all add: goodAdjacency_def neighbours_mem) (simp add: neighbours_def mgetd_def)
  moreover obtain s d where "s \<in> set srcs" "d \<in> set ds" "pk = pairOf s d"
    using b(2) by (auto simp: bridgePairs_def srcs so split: if_splits)
  ultimately show ?thesis by blast
qed

end
