(* ===== verification/Query4Result.thy ===== *)
theory Query4Result
  imports Query4Graph Constructors
begin

text \<open>
  From the streams of the first phase to the result of query 4: the flushed batches, the accumulators,
  the threshold and the collected accounts, composed and compared with the abstract specification.
\<close>

section \<open>Flushed batches\<close>

lemma length_wf_map: "wf_map m \<Longrightarrow> length m = card (fst ` set m)"
  using distinct_card [of "map fst m"] by (simp add: wf_map_def)

declare keys_mput [simp]

lemma flushedBatches_single:
  assumes "wf_map batch" "card (fst ` set batch \<union> set pks) < sz"
  shows "\<exists>m. flushedBatches sz pks batch = (if m = [] then [] else [m]) \<and> wf_map m
    \<and> fst ` set m = fst ` set batch \<union> set pks
    \<and> (\<forall>p. mgetd 0 m p = mgetd 0 batch p + word_of_nat (count_list pks p))"
  using assms
proof (induction sz pks batch rule: flushedBatches.induct)
  case (1 sz batch)
  thus ?case by (intro exI [of _ batch]) auto
next
  case (2 sz pk pks batch)
  let ?b = "mput pk (mgetd 0 batch pk + 1) batch"
  have wf: "wf_map ?b" using 2(3) by simp
  have "card (fst ` set ?b) \<le> card (fst ` set batch \<union> set (pk # pks))" by (intro card_mono) auto
  hence few: "\<not> sz \<le> length ?b" using 2(4) length_wf_map [OF wf] by simp
  have "fst ` set ?b \<union> set pks = fst ` set batch \<union> set (pk # pks)" by auto
  with 2(2) [OF refl few wf] 2(4) obtain m where
    m: "flushedBatches sz pks ?b = (if m = [] then [] else [m])" "wf_map m" "fst ` set m = fst ` set batch \<union> set (pk # pks)"
    "\<And>p. mgetd 0 m p = mgetd 0 ?b p + word_of_nat (count_list pks p)" by auto
  have "flushedBatches sz (pk # pks) batch = flushedBatches sz pks ?b" using few by (simp add: Let_def)
  thus ?case using m(1-3) by (intro exI [of _ m]) (simp add: m(4))
qed

section \<open>Accumulators\<close>

lemma fold_addPair:
  "mgetd 0 (fold addPair pcs m) p = mgetd 0 m p + (\<Sum>pc\<leftarrow>pcs. if pcKey pc = p then pcCount pc else 0)"
  "wf_map m \<Longrightarrow> wf_map (fold addPair pcs m)"
  "fst ` set (fold addPair pcs m) = fst ` set m \<union> pcKey ` set pcs"
  by (induction pcs arbitrary: m) (auto simp: addPair_def)

text \<open>The counts a replica ships: every pair once, since a second message of a pair has the id of the first.\<close>

definition shippedPairs :: "scatterAndGather \<Rightarrow> uuid \<Rightarrow> sgState \<Rightarrow> TxQ4PairCount list" where
  "shippedPairs w c x = map (\<lambda>(k, n). \<lparr>pcKey = k, pcCount = n\<rparr>)
     (AList.clearjunk (concat (map (sgPairOrder w) (flushedBatches maxPairsBuffered (pairStream w c x) []))))"

lemma sum_keyed:
  "wf_map m \<Longrightarrow> (\<Sum>(k, n)\<leftarrow>m. if k = p then n else 0) = (mgetd 0 m p :: goint)"
proof (induction m)
  case (Cons e m)
  have "mget m k = None \<Longrightarrow> mgetd 0 m k = 0" for k by (simp add: mgetd_def)
  with Cons show ?case
    by (cases e) (auto simp: wf_map_def mgetd_def map_of_eq_None_iff [THEN iffD2] split: option.splits)
qed simp

lemma shippedPairs_counts:
  assumes "permutesMaps w" "card (set (pairStream w c x)) < maxPairsBuffered"
  shows "(\<Sum>pc\<leftarrow>shippedPairs w c x. if pcKey pc = p then pcCount pc else 0) = word_of_nat (count_list (pairStream w c x) p)"
    and "pcKey ` set (shippedPairs w c x) = set (pairStream w c x)"
proof -
  obtain m where m: "flushedBatches maxPairsBuffered (pairStream w c x) [] = (if m = [] then [] else [m])" "wf_map m"
    "fst ` set m = set (pairStream w c x)" "\<And>p. mgetd 0 m p = word_of_nat (count_list (pairStream w c x) p)"
    using flushedBatches_single [of "[]" "pairStream w c x" maxPairsBuffered] assms(2) by auto
  have o: "mset (sgPairOrder w m) = mset m" "sgPairOrder w [] = []" using assms(1) by (auto simp: permutesMaps_def) (metis mset_zero_iff)
  hence wf: "wf_map (sgPairOrder w m)" using m(2) unfolding wf_map_def by (metis mset_eq_imp_distinct_iff mset_map)
  have s: "shippedPairs w c x = map (\<lambda>(k, n). \<lparr>pcKey = k, pcCount = n\<rparr>) (sgPairOrder w m)"
    using wf o by (auto simp: shippedPairs_def m(1) wf_map_def)
  have st: "set (sgPairOrder w m) = set m" using o by (metis set_mset_mset)
  have "mgetd 0 (sgPairOrder w m) p = mgetd 0 m p"
    using map_of_inject_set [of "sgPairOrder w m" m] wf m(2) st by (simp add: mgetd_def wf_map_def)
  thus "(\<Sum>pc\<leftarrow>shippedPairs w c x. if pcKey pc = p then pcCount pc else 0) = word_of_nat (count_list (pairStream w c x) p)"
    using sum_keyed [OF wf, of p] m(4) [of p] by (simp add: s comp_def case_prod_unfold cong: if_cong)
  show "pcKey ` set (shippedPairs w c x) = set (pairStream w c x)"
    using m(3) st by (auto simp: s image_image case_prod_unfold)
qed

section \<open>Shipped batches and the threshold\<close>

lemma set_mput_fresh: "k \<notin> fst ` set m \<Longrightarrow> set (mput k v m) = insert (k, v) (set m)"
  by (induction m) auto

lemma pairBatches_entries:
  assumes "distinct (map (PairKey_Key \<circ> fst) ps)" "\<forall>(pk, n) \<in> set ps. PairKey_Key pk \<notin> fst ` set batch"
  shows "\<Union> (set ` set (pairBatches sz ps batch)) =
     set batch \<union> (\<lambda>(pk, n). (PairKey_Key pk, pairEntry pk n)) ` set ps"
  using assms
proof (induction sz ps batch rule: pairBatches.induct)
  case (2 sz pk n ps batch)
  let ?b = "mput (PairKey_Key pk) (pairEntry pk n) batch"
  have b: "set ?b = insert (PairKey_Key pk, pairEntry pk n) (set batch)" using 2(4) by (intro set_mput_fresh) auto
  have d: "distinct (map (PairKey_Key \<circ> fst) ps)" using 2(3) by (simp add: comp_def)
  have fresh: "\<forall>(pk, n) \<in> set ps. PairKey_Key pk \<notin> fst ` set ?b" using 2(3,4) by (force simp: b)
  show ?case
  proof (cases "sz \<le> length ?b")
    case True
    with 2(1) [OF refl True d] show ?thesis by (auto simp: Let_def b)
  next
    case False
    with 2(2) [OF refl False d fresh] show ?thesis by (auto simp: Let_def b)
  qed
next
  case (1 sz batch)
  show ?case by (cases batch) auto
qed

text \<open>The accounts the threshold filter passes on for one batch.\<close>

definition qualifyingAccounts :: "thresholdFilter \<Rightarrow> TxQ4PhaseThree \<Rightarrow> Account list" where
  "qualifyingAccounts f batch =
     concat (map (\<lambda>(k, e). if thresholdAmount f \<le>s peCount e then [SrcAccount e, DstAccount e] else []) (thOrder f batch))"

lemma takeWhile_colon: "CHR '':'' \<notin> set xs \<Longrightarrow> takeWhile (\<lambda>ch. ch \<noteq> CHR '':'') (xs @ ''::'' @ ys) = xs"
  by (induction xs) auto

lemma PairKey_plain:
  assumes "plainAccount s" "plainAccount d" "plainAccount s'" "plainAccount d'"
  shows "PairKey_Key (pairOf s d) = PairKey_Key (pairOf s' d') \<longleftrightarrow> s = s' \<and> d = d'"
proof
  assume eq: "PairKey_Key (pairOf s d) = PairKey_Key (pairOf s' d')"
  have "CHR '':'' \<notin> set (GetID a)" if "plainAccount a" for a using that by (auto simp: plainAccount_def GetID_def)
  hence "GetID s = GetID s'"
    using eq assms takeWhile_colon [of "GetID s" "GetID d"] takeWhile_colon [of "GetID s'" "GetID d'"]
    by (simp add: PairKey_Key_def)
  with eq show "s = s' \<and> d = d'" using assms by (simp add: PairKey_Key_def GetID_plain)
qed simp

definition plainPair :: "TxQ4PairKey \<Rightarrow> bool" where
  "plainPair pk \<longleftrightarrow> (\<exists>s d. plainAccount s \<and> plainAccount d \<and> pk = pairOf s d)"

lemma pairEntry_plain:
  "plainAccount s \<Longrightarrow> plainAccount d \<Longrightarrow> pairEntry (pairOf s d) n = \<lparr>peCount = n, SrcAccount = s, DstAccount = d\<rparr>"
  by (simp add: pairEntry_def plainAccount_def accountFromID_GetID)

text \<open>One accumulator: the accounts that leave the threshold filter for what it was sent.\<close>

definition resultAccounts :: "pairCounter \<Rightarrow> thresholdFilter \<Rightarrow> TxQ4PairCount list \<Rightarrow> Account set" where
  "resultAccounts a f pcs =
     \<Union> {set (qualifyingAccounts f batch) |batch.
           batch \<in> set (pairBatches pairBatchSize (sortedPairs a (fold addPair pcs [])) [])}"

lemma qualifyingAccounts_set:
  assumes "mset (thOrder f b) = mset b"
  shows "y \<in> set (qualifyingAccounts f b) \<longleftrightarrow>
     (\<exists>k e. (k, e) \<in> set b \<and> thresholdAmount f \<le>s peCount e \<and> (y = SrcAccount e \<or> y = DstAccount e))"
proof -
  have st: "set (thOrder f b) = set b" using assms by (rule mset_eq_setD)
  have "set (case x of (k, e) \<Rightarrow> if thresholdAmount f \<le>s peCount e then [SrcAccount e, DstAccount e] else []) =
      (if thresholdAmount f \<le>s peCount (snd x) then {SrcAccount (snd x), DstAccount (snd x)} else {})" for x :: "string \<times> TxQ4PairEntry"
    by (cases x) auto
  hence "y \<in> set (qualifyingAccounts f b) \<longleftrightarrow>
      (\<exists>x \<in> set b. thresholdAmount f \<le>s peCount (snd x) \<and> (y = SrcAccount (snd x) \<or> y = DstAccount (snd x)))"
    by (auto simp: qualifyingAccounts_def st split: if_splits)
  thus ?thesis by (metis prod.collapse snd_conv)
qed

lemma accumulated_sorted:
  assumes "\<And>m. mset (pcOrder a m) = mset m" "\<forall>pc \<in> set pcs. plainPair (pcKey pc)"
  defines "acc \<equiv> fold addPair pcs []"
  shows "distinct (map (PairKey_Key \<circ> fst) (sortedPairs a acc))" "set (sortedPairs a acc) = set acc" "wf_map acc"
    "fst ` set acc = pcKey ` set pcs"
proof -
  show wf: "wf_map acc" and keys: "fst ` set acc = pcKey ` set pcs"
    using fold_addPair(2) [of "[]" pcs] fold_addPair(3) [of pcs "[]"] by (simp_all add: acc_def)
  have sp: "mset (sortedPairs a acc) = mset acc" by (simp add: sortedPairs_def assms(1))
  thus sps: "set (sortedPairs a acc) = set acc" by (rule mset_eq_setD)
  have "inj_on (PairKey_Key \<circ> fst) (set acc)"
  proof (rule inj_onI)
    fix e e' assume e: "e \<in> set acc" "e' \<in> set acc" "(PairKey_Key \<circ> fst) e = (PairKey_Key \<circ> fst) e'"
    hence "fst e \<in> pcKey ` set pcs" "fst e' \<in> pcKey ` set pcs" using keys by (metis imageI)+
    hence "plainPair (fst e)" "plainPair (fst e')" using assms(2) by auto
    hence "fst e = fst e'" using e(3) PairKey_plain by (auto simp: plainPair_def)
    thus "e = e'" using e(1,2) wf unfolding wf_map_def by (metis eq_key_imp_eq_value prod.collapse)
  qed
  moreover have "distinct (sortedPairs a acc)"
    using wf mset_eq_imp_distinct_iff [OF sp] by (simp add: wf_map_def distinct_map)
  ultimately show "distinct (map (PairKey_Key \<circ> fst) (sortedPairs a acc))" by (simp add: distinct_map sps)
qed

definition pairTotal :: "TxQ4PairCount list \<Rightarrow> TxQ4PairKey \<Rightarrow> goint" where
  "pairTotal pcs p = (\<Sum>pc\<leftarrow>pcs. if pcKey pc = p then pcCount pc else 0)"

lemma accumulated_entry:
  "(p, n) \<in> set (fold addPair pcs []) \<longleftrightarrow> p \<in> pcKey ` set pcs \<and> n = pairTotal pcs p"
proof -
  let ?acc = "fold addPair pcs []"
  have wf: "distinct (map fst ?acc)" using fold_addPair(2) [of "[]" pcs] by (simp add: wf_map_def)
  have keys: "fst ` set ?acc = pcKey ` set pcs" using fold_addPair(3) [of pcs "[]"] by simp
  have total: "mgetd 0 ?acc p = pairTotal pcs p" using fold_addPair(1) [of pcs "[]" p] by (simp add: pairTotal_def)
  show ?thesis
  proof (cases "mget ?acc p")
    case None
    hence "p \<notin> fst ` set ?acc" by (simp add: map_of_eq_None_iff)
    thus ?thesis using keys by (metis fst_conv imageI)
  next
    case (Some k)
    hence "(p, k) \<in> set ?acc" "k = pairTotal pcs p" using total by (simp_all add: map_of_SomeD mgetd_def)
    moreover have "(p, n) \<in> set ?acc \<Longrightarrow> n = k" using wf Some by (simp add: map_of_eq_Some_iff)
    moreover have "p \<in> pcKey ` set pcs" using calculation(1) keys by (metis fst_conv imageI)
    ultimately show ?thesis by blast
  qed
qed

lemma resultAccounts_pairs:
  assumes "\<And>m. mset (pcOrder a m) = mset m" "\<And>m. mset (thOrder f m) = mset m"
    and "\<forall>pc \<in> set pcs. plainPair (pcKey pc)"
  shows "y \<in> resultAccounts a f pcs \<longleftrightarrow> (\<exists>s d. plainAccount s \<and> plainAccount d \<and> pairOf s d \<in> pcKey ` set pcs
     \<and> thresholdAmount f \<le>s pairTotal pcs (pairOf s d) \<and> (y = s \<or> y = d))" (is "_ \<longleftrightarrow> ?R")
proof -
  let ?bs = "pairBatches pairBatchSize (sortedPairs a (fold addPair pcs [])) []"
  have en: "\<Union> (set ` set ?bs) = (\<lambda>(pk, n). (PairKey_Key pk, pairEntry pk n)) ` set (fold addPair pcs [])"
    using pairBatches_entries [OF accumulated_sorted(1) [of a, OF assms(1,3)], of "[]" pairBatchSize]
      accumulated_sorted(2) [of a, OF assms(1,3)] by simp
  have "y \<in> resultAccounts a f pcs \<longleftrightarrow> (\<exists>k e. (k, e) \<in> \<Union> (set ` set ?bs) \<and> thresholdAmount f \<le>s peCount e
      \<and> (y = SrcAccount e \<or> y = DstAccount e))"
  proof -
    have "y \<in> resultAccounts a f pcs \<longleftrightarrow> (\<exists>b \<in> set ?bs. y \<in> set (qualifyingAccounts f b))"
      unfolding resultAccounts_def by blast
    also have "\<dots> \<longleftrightarrow> (\<exists>b \<in> set ?bs. \<exists>k e. (k, e) \<in> set b \<and> thresholdAmount f \<le>s peCount e \<and> (y = SrcAccount e \<or> y = DstAccount e))"
      by (intro bex_cong refl qualifyingAccounts_set assms(2))
    finally show ?thesis by blast
  qed
  also have "\<dots> \<longleftrightarrow> (\<exists>p n. (p, n) \<in> set (fold addPair pcs []) \<and> thresholdAmount f \<le>s n
      \<and> (y = SrcAccount (pairEntry p n) \<or> y = DstAccount (pairEntry p n)))"
  proof -
    have cnt: "peCount (pairEntry p n) = n" for p n by (simp add: pairEntry_def)
    have "(k, e) \<in> \<Union> (set ` set ?bs) \<longleftrightarrow> (\<exists>p n. (p, n) \<in> set (fold addPair pcs []) \<and> k = PairKey_Key p \<and> e = pairEntry p n)" for k e
      unfolding en by auto
    hence "(\<exists>k e. (k, e) \<in> \<Union> (set ` set ?bs) \<and> P e) \<longleftrightarrow> (\<exists>p n. (p, n) \<in> set (fold addPair pcs []) \<and> P (pairEntry p n))" for P
      by (simp only:) blast
    thus ?thesis using cnt by simp
  qed
  also have "\<dots> \<longleftrightarrow> (\<exists>p \<in> pcKey ` set pcs. thresholdAmount f \<le>s pairTotal pcs p
      \<and> (y = SrcAccount (pairEntry p (pairTotal pcs p)) \<or> y = DstAccount (pairEntry p (pairTotal pcs p))))"
    by (auto simp: accumulated_entry)
  also have "\<dots> \<longleftrightarrow> ?R"
  proof
    assume "\<exists>p \<in> pcKey ` set pcs. thresholdAmount f \<le>s pairTotal pcs p
      \<and> (y = SrcAccount (pairEntry p (pairTotal pcs p)) \<or> y = DstAccount (pairEntry p (pairTotal pcs p)))"
    then obtain p where p: "p \<in> pcKey ` set pcs" "thresholdAmount f \<le>s pairTotal pcs p"
      "y = SrcAccount (pairEntry p (pairTotal pcs p)) \<or> y = DstAccount (pairEntry p (pairTotal pcs p))" by blast
    with assms(3) obtain s d where "plainAccount s" "plainAccount d" "p = pairOf s d" by (auto simp: plainPair_def)
    with p show ?R by (intro exI [of _ s] exI [of _ d]) (simp add: pairEntry_plain)
  next
    assume ?R
    then obtain s d where "plainAccount s" "plainAccount d" "pairOf s d \<in> pcKey ` set pcs"
      "thresholdAmount f \<le>s pairTotal pcs (pairOf s d)" "y = s \<or> y = d" by blast
    thus "\<exists>p \<in> pcKey ` set pcs. thresholdAmount f \<le>s pairTotal pcs p
      \<and> (y = SrcAccount (pairEntry p (pairTotal pcs p)) \<or> y = DstAccount (pairEntry p (pairTotal pcs p)))"
      by (intro bexI [of _ "pairOf s d"]) (simp_all add: pairEntry_plain)
  qed
  finally show ?thesis .
qed

section \<open>The whole query\<close>

lemma pairTotal_simps [simp]:
  "pairTotal [] p = 0" "pairTotal (pc # pcs) p = (if pcKey pc = p then pcCount pc else 0) + pairTotal pcs p"
  by (simp_all add: pairTotal_def)

lemma pairTotal_filter: "pairTotal (filter (\<lambda>pc. Q (pcKey pc)) pcs) p = (if Q p then pairTotal pcs p else 0)"
  by (induction pcs) auto

lemma pairTotal_mset: "pairTotal pcs p = (\<Sum>pc \<in># mset pcs. if pcKey pc = p then pcCount pc else 0)"
  by (simp add: pairTotal_def flip: sum_mset_sum_list mset_map)

lemma pairTotal_sum:
  assumes "finite I" "mset pcs = (\<Sum>i \<in> I. mset (qs i))"
  shows "pairTotal pcs p = (\<Sum>i \<in> I. pairTotal (qs i) p)" "set pcs = (\<Union>i \<in> I. set (qs i))"
proof -
  have "(\<Sum>pc \<in># (\<Sum>i \<in> J. mset (qs i)). if pcKey pc = p then pcCount pc else 0) = (\<Sum>i \<in> J. pairTotal (qs i) p)" if "finite J" for J
    using that by (induction J) (simp_all add: pairTotal_mset)
  thus "pairTotal pcs p = (\<Sum>i \<in> I. pairTotal (qs i) p)" using assms by (simp add: pairTotal_mset)
  have "set_mset (\<Sum>i \<in> J. mset (qs i)) = (\<Union>i \<in> J. set (qs i))" if "finite J" for J
    using that by (induction J) auto
  thus "set pcs = (\<Union>i \<in> I. set (qs i))" using assms by (metis set_mset_mset)
qed

lemma finite_payments [simp]: "finite (payments txs)" "finite {b. (a, b) \<in> payments txs}" "finite {b. (b, a) \<in> payments txs}"
proof -
  show f: "finite (payments txs)" by (simp add: payments_def)
  have "{b. (a, b) \<in> payments txs} \<subseteq> snd ` payments txs" "{b. (b, a) \<in> payments txs} \<subseteq> fst ` payments txs" by force+
  thus "finite {b. (a, b) \<in> payments txs}" "finite {b. (b, a) \<in> payments txs}"
    using f by (meson finite_imageI finite_subset)+
qed

lemma card_bridges:
  "finite (bridges (payments txs) s d)"
  "card (bridges (payments txs) s d) \<le> card {b. (s, b) \<in> payments txs}"
  "card (bridges (payments txs) s d) \<le> card {b. (b, d) \<in> payments txs}"
  "card {b. (s, b) \<in> payments txs} \<le> length txs"
proof -
  have sub: "bridges (payments txs) s d \<subseteq> {b. (s, b) \<in> payments txs}" "bridges (payments txs) s d \<subseteq> {b. (b, d) \<in> payments txs}"
    by (auto simp: bridges_def)
  show "finite (bridges (payments txs) s d)" using sub(1) finite_payments(2) by (rule finite_subset)
  show "card (bridges (payments txs) s d) \<le> card {b. (s, b) \<in> payments txs}"
    "card (bridges (payments txs) s d) \<le> card {b. (b, d) \<in> payments txs}"
    using sub by (auto intro: card_mono)
  have "{b. (s, b) \<in> payments txs} \<subseteq> dstAccountOf ` set txs" by (auto simp: payments_def)
  thus "card {b. (s, b) \<in> payments txs} \<le> length txs"
    by (meson card_image_le card_length card_mono finite_imageI finite_set le_trans)
qed

lemma card_by_owner:
  "finite B \<Longrightarrow> (\<And>b. b \<in> B \<Longrightarrow> owner b \<in> {0..<n :: int}) \<Longrightarrow> (\<Sum>i \<in> {0..<n}. card {b \<in> B. owner b = i}) = card B"
  using sum.group [of B "{0..<n}" owner "\<lambda>_. 1 :: nat"] by (simp add: image_subset_iff)

lemma sle_counts:
  assumes "0 < thr" "thr < 2 ^ 63" "k < 2 ^ 63"
  shows "(word_of_int thr :: goint) \<le>s word_of_nat k \<longleftrightarrow> thr \<le> int k"
proof -
  have "sint (word_of_int thr :: goint) = thr" using assms by (simp add: sint_sbintrunc' signed_take_bit_int_eq_self)
  moreover have "int k < 2 ^ 63" using assms(3) by simp
  hence "sint (word_of_nat k :: goint) = int k"
    using sint_sbintrunc' [of "int k", where 'a = 64] by (simp add: signed_take_bit_int_eq_self)
  ultimately show ?thesis by (simp add: word_sle_eq)
qed

text \<open>A replica when its client is handed on: its shard absorbed and its barrier open.\<close>

definition phaseOne :: "scatterAndGather \<Rightarrow> uuid \<Rightarrow> net \<Rightarrow> (TypeTxQ4 \<times> Transaction list) list \<Rightarrow> degreeEvent list \<Rightarrow> sgState" where
  "phaseOne w c exchange bs es =
     (replicaOf w c exchange bs)\<lparr>sgMonitor :=
        snd (monitorRun c es (NewHeavyAccountsMonitor (WorkerID (sgCfg w)) (WorkerAmount (sgCfg w))))\<rparr>"

text \<open>The replicas of the first phase are configured alike: \<open>n\<close> of them, with one threshold, in front of the same accumulators.\<close>

definition deployment :: "int \<Rightarrow> int \<Rightarrow> string \<Rightarrow> int \<Rightarrow> (int \<Rightarrow> scatterAndGather) \<Rightarrow> bool" where
  "deployment n thr prefix amount w \<longleftrightarrow> 0 < amount \<and> (\<forall>i. permutesMaps (w i)) \<and>
     (\<forall>i \<in> {0..<n}. WorkerID (sgCfg (w i)) = i \<and> WorkerAmount (sgCfg (w i)) = n \<and> sgThreshold (w i) = thr
        \<and> NextWorkerPrefix (sgCfg (w i)) = prefix \<and> NextWorkerAmount (sgCfg (w i)) = amount)"

text \<open>Every accumulator gets the pairs of its key, from all replicas, in any order.\<close>

definition routedPairs :: "int \<Rightarrow> (int \<Rightarrow> scatterAndGather) \<Rightarrow> (int \<Rightarrow> TxQ4PairCount list) \<Rightarrow> (string \<Rightarrow> TxQ4PairCount list) \<Rightarrow> bool" where
  "routedPairs n w shipped input \<longleftrightarrow> (\<forall>key. mset (input key) =
     (\<Sum>i \<in> {0..<n}. mset (filter (\<lambda>pc. SG_shardByValue (w i) (PairKey_Key (pcKey pc)) = Some key) (shipped i))))"

text \<open>What the replicas ship for a pair, taken together.\<close>

lemma query4_counts:
  fixes owner :: "Account \<Rightarrow> int"
  assumes dep: "deployment n thr prefix amount w" and thr: "0 < thr"
    and owner: "\<And>a. owner a \<in> {0..<n}"
    and shard: "\<And>i. i \<in> {0..<n} \<Longrightarrow> receivesShard owner i txs (bs i)"
    and fan: "\<And>i. i \<in> {0..<n} \<Longrightarrow> fanout (\<lambda>p. sgOrder (w p)) n i (\<lambda>p. clHeavySources (sgClient (replicaOf (w p) c (ex p) (bs p)) c))
        (\<lambda>p. clHeavySinks (sgClient (replicaOf (w p) c (ex p) (bs p)) c)) (es i)"
    and plain: "\<forall>t \<in> set txs. plainAccount (srcAccountOf t) \<and> plainAccount (dstAccountOf t)"
    and i: "i \<in> {0..<n}"
  defines "x \<equiv> \<lambda>i. phaseOne (w i) c (ex i) (bs i) (es i)" and "E \<equiv> payments txs"
  shows "plainAccount s \<Longrightarrow> plainAccount d \<Longrightarrow> count_list (pairStream (w i) c (x i)) (pairOf s d) =
      (if thr \<le> int (card {b. (s, b) \<in> E}) \<and> thr \<le> int (card {b. (b, d) \<in> E})
       then card {b \<in> bridges E s d. owner b = i} else 0)"
    and "\<forall>pk \<in> set (pairStream (w i) c (x i)). plainPair pk"
proof -
  let ?cl = "sgClient (x i) c"
  have cfg: "WorkerID (sgCfg (w i)) = i" "WorkerAmount (sgCfg (w i)) = n" "permutesMaps (w i)"
    "\<And>p. p \<in> {0..<n} \<Longrightarrow> sgThreshold (w p) = thr" using dep i by (auto simp: deployment_def)
  have cl: "?cl = sgClient (replicaOf (w i) c (ex i) (bs i)) c" by (simp add: x_def phaseOne_def sgClient_def)
  note g = replica_groups [OF shard [OF i] cl]
  have pl: "plainAdjacency (scatterGroups ?cl)" "plainAdjacency (gatherGroups ?cl)"
    using plain by (auto simp: plainAdjacency_def g(1,2) payments_def)
  have mon: "sgMonitor (x i) = snd (monitorRun c (es i) (NewHeavyAccountsMonitor i n))" by (simp add: x_def phaseOne_def cfg)
  have ord: "set (sgOrder (w p) xs) = set xs" for p xs
    using dep by (intro mset_eq_setD) (simp add: deployment_def permutesMaps_def)
  have hs: "set (clHeavySources (sgClient (replicaOf (w p) c (ex p) (bs p)) c)) = {a. owner a = p \<and> thr \<le> int (card {b. (a, b) \<in> E})}"
    "set (clHeavySinks (sgClient (replicaOf (w p) c (ex p) (bs p)) c)) = {a. owner a = p \<and> thr \<le> int (card {b. (b, a) \<in> E})}"
    if "p \<in> {0..<n}" for p
    using replica_heavy [OF shard [OF that], of "w p"] cfg(4) [OF that] thr by (simp_all add: E_def)
  have heavy: "set (HeavySources (sgMonitor (x i)) c) = {a. thr \<le> int (card {b. (a, b) \<in> E})}"
    "set (HeavySinks (sgMonitor (x i)) c) = {a. thr \<le> int (card {b. (b, a) \<in> E})}"
    using fanout_seals [OF fan [OF i] i ord] hs owner unfolding mon by auto
  have br: "bridgesAt ?cl s d = {b \<in> bridges E s d. owner b = i}"
    by (auto simp: bridgesAt_def bridges_def g(1,2) E_def)
  show "plainAccount s \<Longrightarrow> plainAccount d \<Longrightarrow> count_list (pairStream (w i) c (x i)) (pairOf s d) =
      (if thr \<le> int (card {b. (s, b) \<in> E}) \<and> thr \<le> int (card {b. (b, d) \<in> E})
       then card {b \<in> bridges E s d. owner b = i} else 0)"
    using pairStream_count [OF cfg(3) g(3,4) pl _ _ refl] by (simp add: heavy br)
  show "\<forall>pk \<in> set (pairStream (w i) c (x i)). plainPair pk"
    using pairStream_members [OF _ cfg(3) g(3)] pl by (fastforce simp: plainAdjacency_def plainPair_def)
qed

lemma query4_total:
  fixes shipped :: "int \<Rightarrow> TxQ4PairCount list"
  assumes "deployment n thr prefix amount w" "routedPairs n w shipped input"
    and "\<And>i p. i \<in> {0..<n} \<Longrightarrow> pairTotal (shipped i) p = word_of_nat (k i p)"
    and "\<And>i. i \<in> {0..<n} \<Longrightarrow> pcKey ` set (shipped i) = keys i"
  shows "p \<in> pcKey ` set (input key) \<longleftrightarrow> SG_shardByValue (w 0) (PairKey_Key p) = Some key \<and> (\<exists>i \<in> {0..<n}. p \<in> keys i)"
    and "p \<in> pcKey ` set (input key) \<Longrightarrow> pairTotal (input key) p = word_of_nat (\<Sum>i \<in> {0..<n}. k i p)"
proof -
  let ?route = "\<lambda>i. filter (\<lambda>pc. SG_shardByValue (w i) (PairKey_Key (pcKey pc)) = Some key) (shipped i)"
  have same: "SG_shardByValue (w i) v = SG_shardByValue (w 0) v" if "i \<in> {0..<n}" for i v
    using assms(1) that by (simp add: deployment_def SG_shardByValue_def)
  have m: "mset (input key) = (\<Sum>i \<in> {0..<n}. mset (?route i))" using assms(2) by (simp add: routedPairs_def)
  have st: "set (input key) = (\<Union>i \<in> {0..<n}. set (?route i))" by (rule pairTotal_sum(2) [OF _ m]) simp
  show mem: "p \<in> pcKey ` set (input key) \<longleftrightarrow> SG_shardByValue (w 0) (PairKey_Key p) = Some key \<and> (\<exists>i \<in> {0..<n}. p \<in> keys i)"
  proof -
    have "p \<in> pcKey ` set (?route i) \<longleftrightarrow> SG_shardByValue (w 0) (PairKey_Key p) = Some key \<and> p \<in> keys i" if "i \<in> {0..<n}" for i
      using assms(4) [OF that] same [OF that] by auto
    thus ?thesis unfolding st image_UN by auto
  qed
  assume "p \<in> pcKey ` set (input key)"
  hence "SG_shardByValue (w 0) (PairKey_Key p) = Some key" using mem by blast
  hence "pairTotal (?route i) p = word_of_nat (k i p)" if "i \<in> {0..<n}" for i
    using pairTotal_filter [of "\<lambda>k. SG_shardByValue (w i) (PairKey_Key k) = Some key" "shipped i" p] assms(3) [OF that] same [OF that]
    by simp
  thus "pairTotal (input key) p = word_of_nat (\<Sum>i \<in> {0..<n}. k i p)"
    by (simp add: pairTotal_sum(1) [OF _ m])
qed

text \<open>
  The input of the accumulators: only plain pairs; the total of a pair is the number of its bridge
  accounts, or zero when pruning stopped it; a pair with a bridge that pruning lets pass is there.
\<close>

lemma query4_inputs:
  fixes owner :: "Account \<Rightarrow> int"
  assumes dep: "deployment n thr prefix amount w" and thr: "0 < thr"
    and owner: "\<And>a. owner a \<in> {0..<n}"
    and shard: "\<And>i. i \<in> {0..<n} \<Longrightarrow> receivesShard owner i txs (bs i)"
    and fan: "\<And>i. i \<in> {0..<n} \<Longrightarrow> fanout (\<lambda>p. sgOrder (w p)) n i (\<lambda>p. clHeavySources (sgClient (replicaOf (w p) c (ex p) (bs p)) c))
        (\<lambda>p. clHeavySinks (sgClient (replicaOf (w p) c (ex p) (bs p)) c)) (es i)"
    and plain: "\<forall>t \<in> set txs. plainAccount (srcAccountOf t) \<and> plainAccount (dstAccountOf t)"
    and few: "\<And>i. i \<in> {0..<n} \<Longrightarrow> card (set (pairStream (w i) c (phaseOne (w i) c (ex i) (bs i) (es i)))) < maxPairsBuffered"
    and routed: "routedPairs n w (\<lambda>i. shippedPairs (w i) c (phaseOne (w i) c (ex i) (bs i) (es i))) input"
  defines "heavy \<equiv> \<lambda>s d. thr \<le> int (card {b. (s, b) \<in> payments txs}) \<and> thr \<le> int (card {b. (b, d) \<in> payments txs})"
  shows "\<forall>pc \<in> set (input key). plainPair (pcKey pc)"
    and "plainAccount s \<Longrightarrow> plainAccount d \<Longrightarrow> pairOf s d \<in> pcKey ` set (input key) \<Longrightarrow>
      pairTotal (input key) (pairOf s d) = word_of_nat (if heavy s d then card (bridges (payments txs) s d) else 0)"
    and "plainAccount s \<Longrightarrow> plainAccount d \<Longrightarrow> heavy s d \<Longrightarrow> bridges (payments txs) s d \<noteq> {} \<Longrightarrow>
      \<exists>key. pairOf s d \<in> pcKey ` set (input key)"
proof -
  let ?E = "payments txs" and ?x = "\<lambda>i. phaseOne (w i) c (ex i) (bs i) (es i)"
  let ?n = "\<lambda>i p. count_list (pairStream (w i) c (?x i)) p"
  have perm: "permutesMaps (w i)" for i using dep by (simp add: deployment_def)
  have ct: "?n i (pairOf s d) = (if thr \<le> int (card {b. (s, b) \<in> ?E}) \<and> thr \<le> int (card {b. (b, d) \<in> ?E})
       then card {b \<in> bridges ?E s d. owner b = i} else 0)"
    if "i \<in> {0..<n}" "plainAccount s" "plainAccount d" for i s d
    by (rule query4_counts(1) [OF dep thr owner shard fan plain that])
  have plainStream: "\<forall>pk \<in> set (pairStream (w i) c (?x i)). plainPair pk" if "i \<in> {0..<n}" for i
    by (rule query4_counts(2) [OF dep thr owner shard fan plain that])
  have sh: "pairTotal (shippedPairs (w i) c (?x i)) p = word_of_nat (?n i p)"
    "pcKey ` set (shippedPairs (w i) c (?x i)) = set (pairStream (w i) c (?x i))" if "i \<in> {0..<n}" for i p
    using shippedPairs_counts [OF perm few [OF that]] by (simp_all add: pairTotal_def)
  have mem: "p \<in> pcKey ` set (input key) \<longleftrightarrow>
      SG_shardByValue (w 0) (PairKey_Key p) = Some key \<and> (\<exists>i \<in> {0..<n}. p \<in> set (pairStream (w i) c (?x i)))" for p key
    by (rule query4_total(1) [OF dep routed sh])
  have sum: "pairTotal (input key) p = word_of_nat (\<Sum>i \<in> {0..<n}. ?n i p)" if "p \<in> pcKey ` set (input key)" for p key
    by (rule query4_total(2) [OF dep routed sh that])
  show "\<forall>pc \<in> set (input key). plainPair (pcKey pc)"
  proof
    fix pc assume "pc \<in> set (input key)"
    then obtain i where "i \<in> {0..<n}" "pcKey pc \<in> set (pairStream (w i) c (?x i))" using mem by blast
    thus "plainPair (pcKey pc)" using plainStream by blast
  qed
  have count: "(\<Sum>i \<in> {0..<n}. ?n i (pairOf s d)) = (if heavy s d then card (bridges ?E s d) else 0)"
    if "plainAccount s" "plainAccount d" for s d
  proof -
    have "(\<Sum>i \<in> {0..<n}. ?n i (pairOf s d)) = (\<Sum>i \<in> {0..<n}. if heavy s d then card {b \<in> bridges ?E s d. owner b = i} else 0)"
      by (intro sum.cong refl) (simp add: ct that heavy_def)
    moreover have "(\<Sum>i \<in> {0..<n}. card {b \<in> bridges ?E s d. owner b = i}) = card (bridges ?E s d)"
      using card_bridges(1) owner by (rule card_by_owner)
    ultimately show ?thesis by (cases "heavy s d") simp_all
  qed
  show "pairTotal (input key) (pairOf s d) = word_of_nat (if heavy s d then card (bridges ?E s d) else 0)"
    if "plainAccount s" "plainAccount d" "pairOf s d \<in> pcKey ` set (input key)"
    using sum [OF that(3)] count [OF that(1,2)] by simp
  assume sd: "plainAccount s" "plainAccount d" and h: "heavy s d" and "bridges ?E s d \<noteq> {}"
  hence "(\<Sum>i \<in> {0..<n}. ?n i (pairOf s d)) \<noteq> 0" using count [OF sd] card_bridges(1) by simp
  then obtain i where i: "i \<in> {0..<n}" "?n i (pairOf s d) \<noteq> 0" by (rule sum.not_neutral_contains_not_neutral)
  hence "pairOf s d \<in> set (pairStream (w i) c (?x i))" by (simp only: count_list_0_iff not_not)
  moreover obtain key where "SG_shardByValue (w 0) (PairKey_Key (pairOf s d)) = Some key"
    using dep i(1) unfolding deployment_def SG_shardByValue_def shardOf_def by auto
  ultimately show "\<exists>key. pairOf s d \<in> pcKey ` set (input key)" using mem i(1) by blast
qed


definition payment :: "string \<Rightarrow> string \<Rightarrow> Transaction" where
  "payment a b = \<lparr>Timestamp = '''', FromBank = ''1'', FromAccount = a, ToBank = ''1'', ToAccount = b, AmountReceived = 0,
     ReceivingCurrency = '''', AmountPaid = 0, PaymentCurrency = '''', PaymentFormat = '''', IsLaundering = False\<rparr>"

definition soleReplica :: scatterAndGather where
  "soleReplica = \<lparr>sgCfg = exampleCfg, sgThreshold = 1, sgOrder = id, sgGroupOrder = id, sgIdOrder = id, sgPairOrder = id,
     sgMarshal = (\<lambda>_. Inr []), sgUnmarshal = (\<lambda>_. Inl ErrEOF)\<rparr>"

definition soleCounter :: pairCounter where
  "soleCounter = \<lparr>pcCfg = exampleCfg, pcOrder = id, pcMarshal = (\<lambda>_. Inr []), pcUnmarshal = (\<lambda>_. Inl ErrEOF)\<rparr>"

definition soleThreshold :: thresholdFilter where
  "soleThreshold = \<lparr>thCfg = exampleCfg, thresholdAmount = 1, thOrder = id, thMarshal = (\<lambda>_. Inr []), thUnmarshal = (\<lambda>_. Inl ErrEOF)\<rparr>"

definition soleClient :: uuid where "soleClient = replicate 16 7"

definition solePayments :: "Transaction list" where
  "solePayments = [payment ''S'' ''B'', payment ''B'' ''D'']"

abbreviation acct :: "string \<Rightarrow> Account" where "acct a \<equiv> \<lparr>BankID = ''1'', ID = a\<rparr>"

abbreviation soleBatches :: "(TypeTxQ4 \<times> Transaction list) list" where
  "soleBatches \<equiv> [(TxQ4Gather, solePayments), (TxQ4Scatter, solePayments)]"

definition soleEvents :: "degreeEvent list" where
  "soleEvents = [Batch 0 Q4HeavyRoleSource [acct ''B'', acct ''S''], Local [acct ''B'', acct ''S''] [acct ''D'', acct ''B''],
     Batch 0 Q4HeavyRoleSink [acct ''D'', acct ''B''], Done 0]"

definition soleState :: sgState where
  "soleState = phaseOne soleReplica soleClient \<lparr>outcomes = [], sent = []\<rparr> soleBatches soleEvents"

lemma sole_heavy:
  "clHeavySources (sgClient (replicaOf soleReplica soleClient \<lparr>outcomes = [], sent = []\<rparr> soleBatches) soleClient) = [acct ''B'', acct ''S'']"
  "clHeavySinks (sgClient (replicaOf soleReplica soleClient \<lparr>outcomes = [], sent = []\<rparr> soleBatches) soleClient) = [acct ''D'', acct ''B'']"
  by code_simp+

lemma sole_announcement:
  "announcement id 0 [acct ''B'', acct ''S''] [acct ''D'', acct ''B''] =
     [Batch 0 Q4HeavyRoleSource [acct ''B'', acct ''S''], Batch 0 Q4HeavyRoleSink [acct ''D'', acct ''B''], Done 0]"
  by code_simp

lemma sole_stream: "pairStream soleReplica soleClient soleState = [pairOf (acct ''S'') (acct ''D'')]"
  by code_simp

lemma sole_payments:
  "payments solePayments = {(acct ''S'', acct ''B''), (acct ''B'', acct ''D'')}"
  by (simp add: payments_def solePayments_def payment_def srcAccountOf_def dstAccountOf_def)

lemma sole_spec: "query4Spec 1 (payments solePayments) = {acct ''S'', acct ''D''}"
proof -
  have "bridges (payments solePayments) s d = (if s = acct ''S'' \<and> d = acct ''D'' then {acct ''B''} else {})" for s d
    by (auto simp: bridges_def sole_payments)
  thus ?thesis by (auto simp: query4Spec_def split: if_splits)
qed


end
