(* ===== verification/Aggregation.thy ===== *)
theory Aggregation
  imports Barrier Constructors PairCounts
begin

text \<open>
  \<open>workers/aggregator/aggregator.go\<close> and \<open>service.go\<close>: maximum, minimum, sum, count or average of the
  transactions of a client, per group, sent in batches when the client ends. The order in which Go
  iterates a map is a parameter.
\<close>

section \<open>Aggregation functions (service.go)\<close>

datatype aggFunction = opMax | opMin | opSum | opCount | opAvg

record avgState =
  avgSum :: float64
  avgCount :: int
  avgSample :: Transaction

record aggregator =
  agCfg :: workerCfg
  agFunction :: aggFunction
  agField :: string
  agGrouped :: bool
  agGroupSource :: string
  agGroupField :: string
  agTxOrder :: "(string, Transaction) gomap \<Rightarrow> (string, Transaction) gomap"
  agAvgOrder :: "(string, avgState) gomap \<Rightarrow> (string, avgState) gomap"

definition fieldValue :: "aggregator \<Rightarrow> Transaction \<Rightarrow> float64" where
  "fieldValue a tx = (if agField a = ''Amount'' then AmountPaid tx else 0)"

text \<open>The float64 one.\<close>

definition fl_one :: float64 where "fl_one = 0x3FF0000000000000"

text \<open>\<open>combine(current, incoming, hasCurrent)\<close>; \<open>None\<close> is \<open>hasCurrent = false\<close>.\<close>

definition combine :: "aggregator \<Rightarrow> Transaction option \<Rightarrow> Transaction \<Rightarrow> Transaction" where
  "combine a current incoming =
     (case current of
        None \<Rightarrow> (case agFunction a of opCount \<Rightarrow> incoming\<lparr>AmountPaid := fl_one\<rparr> | _ \<Rightarrow> incoming)
      | Some cur \<Rightarrow>
         (case agFunction a of
            opMax \<Rightarrow> (if fl_less (fieldValue a cur) (fieldValue a incoming) then incoming else cur)
          | opMin \<Rightarrow> (if fl_less (fieldValue a incoming) (fieldValue a cur) then incoming else cur)
          | opSum \<Rightarrow> cur\<lparr>AmountPaid := fl_add (AmountPaid cur) (fieldValue a incoming)\<rparr>
          | opCount \<Rightarrow> cur\<lparr>AmountPaid := fl_add (AmountPaid cur) fl_one\<rparr>
          | opAvg \<Rightarrow> cur))"

definition accountKey :: "aggregator \<Rightarrow> string \<Rightarrow> string \<Rightarrow> string result" where
  "accountKey a bank account =
     (if agGroupField a = ''BankID'' then
        (if bank = '''' then Inl (Errorf ''Account missing BankID'' []) else Inr bank)
      else if agGroupField a = ''ID'' then
        (if account = '''' then Inl (Errorf ''Account missing ID'' []) else Inr account)
      else Inl (Errorf ''Invalid group field'' []))"

definition extractGroupKey :: "aggregator \<Rightarrow> Transaction \<Rightarrow> string result" where
  "extractGroupKey a tx =
     (if agGroupSource a = ''origin'' then accountKey a (FromBank tx) (FromAccount tx)
      else if agGroupSource a = ''dest'' then accountKey a (ToBank tx) (ToAccount tx)
      else if agGroupSource a = ''format'' then
        (if PaymentFormat tx = '''' then Inl (Errorf ''Transaction missing format'' []) else Inr (PaymentFormat tx))
      else Inl (Errorf ''Invalid group source'' []))"

definition aggFunctionOf :: "string \<Rightarrow> aggFunction option" where
  "aggFunctionOf s =
     (if s = ''max'' then Some opMax else if s = ''min'' then Some opMin else if s = ''sum'' then Some opSum
      else if s = ''count'' then Some opCount else if s = ''avg'' then Some opAvg else None)"

text \<open>A parameter that is not a string reads as the empty string.\<close>

definition stringOr :: "(string, goany) gomap \<Rightarrow> string \<Rightarrow> string" where
  "stringOr params name = (case mget params name of Some (AString s) \<Rightarrow> s | _ \<Rightarrow> '''')"

definition agg_parseParams :: "(string, goany) gomap \<Rightarrow> (aggFunction \<times> string \<times> bool \<times> string \<times> string) result" where
  "agg_parseParams params =
     (case mget params ''type'' of
        Some (AString rawType) \<Rightarrow>
          (case aggFunctionOf rawType of
             None \<Rightarrow> Inl (Errorf ''aggregator params: unsupported type'' [])
           | Some op \<Rightarrow>
              let field = stringOr params ''field'';
                  group = (case mget params ''group'' of Some (AMap m) \<Rightarrow> m | _ \<Rightarrow> []) in
              if field = '''' \<and> op \<noteq> opCount then Inl (Errorf ''aggregator params: 'field' is required'' [])
              else (case group of
                 [] \<Rightarrow> (if op \<noteq> opCount
                        then Inl (Errorf ''aggregator params: ungrouped aggregation only supported for count'' [])
                        else Inr (op, field, False, '''', ''''))
               | [(k, AString s)] \<Rightarrow> Inr (op, field, True, k, s)
               | [_] \<Rightarrow> Inl (Errorf ''aggregator params: group value must be a string'' [])
               | _ \<Rightarrow> Inl (Errorf ''aggregator params: 'group' supports a single source'' [])))
      | _ \<Rightarrow> Inl (Errorf ''aggregator params: missing or invalid type'' []))"

definition NewAggregator ::
  "((string, Transaction) gomap \<Rightarrow> (string, Transaction) gomap) \<Rightarrow> ((string, avgState) gomap \<Rightarrow> (string, avgState) gomap)
    \<Rightarrow> workerCfg \<Rightarrow> aggregator result" where
  "NewAggregator txOrder avgOrder cfg =
     rbind (agg_parseParams (Params cfg)) (\<lambda>(op, field, grouped, source, groupField).
     Inr \<lparr>agCfg = cfg, agFunction = op, agField = field, agGrouped = grouped, agGroupSource = source,
          agGroupField = groupField, agTxOrder = txOrder, agAvgOrder = avgOrder\<rparr>)"

section \<open>State (aggregator.go)\<close>

record aggState =
  agCount :: "(uuid, goint) gomap"
  agState :: "(uuid, (string, Transaction) gomap) gomap"
  agAvg :: "(uuid, (string, avgState) gomap) gomap"

definition newAggState :: aggState where
  "newAggState = \<lparr>agCount = [], agState = [], agAvg = []\<rparr>"

record aggCheckpoint =
  acCount :: goint
  acState :: "(string, Transaction) gomap"
  acAvg :: "(string, avgState) gomap"

definition Agg_SnapshotClient :: "(aggCheckpoint \<Rightarrow> bytes result) \<Rightarrow> uuid \<Rightarrow> aggState \<Rightarrow> bytes result \<times> aggState" where
  "Agg_SnapshotClient marshal c x =
     (marshal \<lparr>acCount = mgetd 0 (agCount x) c, acState = mgetd [] (agState x) c, acAvg = mgetd [] (agAvg x) c\<rparr>, x)"

definition Agg_RestoreClient :: "(bytes \<Rightarrow> aggCheckpoint result) \<Rightarrow> uuid \<Rightarrow> bytes \<Rightarrow> aggState \<Rightarrow> unit result \<times> aggState" where
  "Agg_RestoreClient unmarshal c data x =
     (if data = [] then (Inr (), x)
      else case unmarshal data of
        Inl e \<Rightarrow> (Inl e, x)
      | Inr cp \<Rightarrow>
          let x = (if acCount cp \<noteq> 0 then x\<lparr>agCount := mput c (acCount cp) (agCount x)\<rparr> else x);
              x = (if acState cp \<noteq> [] then x\<lparr>agState := mput c (acState cp) (agState x)\<rparr> else x);
              x = (if acAvg cp \<noteq> [] then x\<lparr>agAvg := mput c (acAvg cp) (agAvg x)\<rparr> else x) in
          (Inr (), x))"

text \<open>The two JSON functions are parameters of the coordinator's sources.\<close>

definition Agg_sources ::
  "(aggCheckpoint \<Rightarrow> bytes result) \<Rightarrow> (bytes \<Rightarrow> aggCheckpoint result) \<Rightarrow> aggregator \<Rightarrow> aggState worker_scheme sources" where
  "Agg_sources marshal unmarshal a =
     plainSources (agCfg a) (Some (ownSource (Agg_SnapshotClient marshal) (Agg_RestoreClient unmarshal)))"

section \<open>Transactions\<close>

definition addAvg :: "aggregator \<Rightarrow> Transaction \<Rightarrow> avgState option \<Rightarrow> avgState" where
  "addAvg a tx current =
     (case current of
        None \<Rightarrow> \<lparr>avgSum = fl_add (fl_zero False) (fieldValue a tx), avgCount = 1, avgSample = tx\<rparr>
      | Some st \<Rightarrow>
          let st = st\<lparr>avgSum := fl_add (avgSum st) (fieldValue a tx), avgCount := avgCount st + 1\<rparr> in
          if avgCount st = 1 then st\<lparr>avgSample := tx\<rparr> else st)"

definition aggOne :: "aggregator \<Rightarrow> uuid \<Rightarrow> string \<Rightarrow> Transaction \<Rightarrow> aggState \<Rightarrow> aggState" where
  "aggOne a c key tx x =
     (if agFunction a = opAvg then
        let groups = mgetd [] (agAvg x) c in
        x\<lparr>agAvg := mput c (mput key (addAvg a tx (mget groups key)) groups) (agAvg x)\<rparr>
      else
        let groups = mgetd [] (agState x) c in
        x\<lparr>agState := mput c (mput key (combine a (mget groups key) tx) groups) (agState x)\<rparr>)"

text \<open>The loop stops at the first transaction without a key; what it did before stays.\<close>

fun aggregate :: "aggregator \<Rightarrow> uuid \<Rightarrow> Transaction list \<Rightarrow> aggState \<Rightarrow> unit result \<times> aggState" where
  "aggregate a c [] x = (Inr (), x)"
| "aggregate a c (tx # txs) x =
     (case extractGroupKey a tx of
        Inl e \<Rightarrow> (Inl e, x)
      | Inr key \<Rightarrow> aggregate a c txs (aggOne a c key tx x))"

definition Agg_handleTransactionMessage :: "aggregator \<Rightarrow> aggState wnode handler" where
  "Agg_handleTransactionMessage a env =
     wbind (wresult (DecodeTransactionBatch (Payload env))) (\<lambda>txs s.
     if agFunction a = opCount then
       (Inr (), updOwn (\<lambda>x. x\<lparr>agCount := mput (ClientId env) (mgetd 0 (agCount x) (ClientId env) + word_of_nat (length txs)) (agCount x)\<rparr>) s)
     else case aggregate a (ClientId env) txs (own s) of (r, x) \<Rightarrow> (r, updOwn (\<lambda>_. x) s))"

section \<open>End of a client\<close>

definition agFlushBatchSize :: nat where "agFlushBatchSize = 100"

definition avgResult :: "avgState \<Rightarrow> Transaction" where
  "avgResult st =
     (if 0 < avgCount st then (avgSample st)\<lparr>AmountPaid := fl_div (avgSum st) (fl_round False (avgCount st) 1 0)\<rparr>
      else avgSample st)"

definition sortByTransactionID :: "Transaction list \<Rightarrow> Transaction list" where
  "sortByTransactionID = sort_key GetTransactionId"

definition collectResults :: "aggregator \<Rightarrow> uuid \<Rightarrow> aggState \<Rightarrow> Transaction list \<times> aggState" where
  "collectResults a c x =
     (if agFunction a = opAvg
      then (sortByTransactionID (map (avgResult \<circ> snd) (agAvgOrder a (mgetd [] (agAvg x) c))), x\<lparr>agAvg := mdel c (agAvg x)\<rparr>)
      else (sortByTransactionID (map snd (agTxOrder a (mgetd [] (agState x) c))), x\<lparr>agState := mdel c (agState x)\<rparr>))"

text \<open>The chunks are numbered by \<open>batchIdx\<close>; the result is the number of transactions sent.\<close>

fun sendTransactionBatches :: "aggregator \<Rightarrow> uuid \<Rightarrow> nat \<Rightarrow> Transaction list list \<Rightarrow> (aggState, nat) act" where
  "sendTransactionBatches a c idx [] = wresult (Inr 0)"
| "sendTransactionBatches a c idx (chunk # rest) =
     wbind (wresult (wrapf ''encoding aggregated batch'' [] (EncodeTransactionBatch chunk))) (\<lambda>payload.
     wbind (wwrap ''sending aggregated batch'' (publishWithID c MsgTransactionsBatch KeyNil payload
              (StageMsgID c (stageName (agCfg a)) ''result'' (word_of_nat idx)))) (\<lambda>_.
     wbind (sendTransactionBatches a c (Suc idx) rest) (\<lambda>n. wresult (Inr (length chunk + n)))))"

definition sendTransactionsEOF :: "aggregator \<Rightarrow> uuid \<Rightarrow> goint \<Rightarrow> (aggState, unit) act" where
  "sendTransactionsEOF a c n =
     wbind (wresult (wrapf ''encoding eof counts'' [] (EncodeEOFCounts [(KeyNil, n)]))) (\<lambda>counts.
     publishWithID c MsgTransactionsEOF KeyControlEOF counts (eofMsgID (agCfg a) c))"

definition emitUngroupedCount :: "aggregator \<Rightarrow> uuid \<Rightarrow> (aggState, unit) act" where
  "emitUngroupedCount a c s =
     (let n = mgetd 0 (agCount (own s)) c in
      wbind (wmodify (updOwn (\<lambda>x. x\<lparr>agCount := mdel c (agCount x)\<rparr>))) (\<lambda>_.
      wbind (wresult (EncodeQuery5Result \<lparr>q5Count = n\<rparr>)) (\<lambda>resultMsg.
      wbind (publishWithID c MsgQuery5Result KeyNil resultMsg (StageMsgID c (stageName (agCfg a)) ''q5result'' 0)) (\<lambda>_.
      publishWithID c MsgQuery5ResultEOF KeyNil [] (StageMsgID c (stageName (agCfg a)) ''q5eof'' 0)))) s)"

definition collectAction :: "aggregator \<Rightarrow> uuid \<Rightarrow> (aggState, Transaction list) act" where
  "collectAction a c s = (case collectResults a c (own s) of (txs, x) \<Rightarrow> (Inr txs, updOwn (\<lambda>_. x) s))"

definition Agg_handleEOFMessage :: "aggState worker_scheme sources \<Rightarrow> aggregator \<Rightarrow> aggState wnode handler" where
  "Agg_handleEOFMessage src a env =
     (let c = ClientId env in
      if isFlushPayload (Payload env) then
        wbind (wmodify (updOwn (\<lambda>x. x\<lparr>agState := mdel c (agState x), agAvg := mdel c (agAvg x)\<rparr>))) (\<lambda>_.
        sendTransactionsEOF a c (-1))
      else if \<not> agGrouped a \<and> agFunction a = opCount then emitUngroupedCount a c
      else
        wbind (collectAction a c) (\<lambda>results.
        wbind (sendTransactionBatches a c 0 (chunks agFlushBatchSize results)) (\<lambda>n.
        wbind (sendTransactionsEOF a c (word_of_nat n)) (\<lambda>_.
        fromIo (coFlush src)))))"

definition Agg_handlers :: "aggState worker_scheme sources \<Rightarrow> aggregator \<Rightarrow> (MsgType, aggState wnode handler) gomap" where
  "Agg_handlers src a =
     [(MsgTransactionsBatch, Agg_handleTransactionMessage a), (MsgTransactionsEOF, Agg_handleEOFMessage src a)]"

definition Agg_handleMessage :: "aggState worker_scheme sources \<Rightarrow> aggregator \<Rightarrow> aggState dispatcher" where
  "Agg_handleMessage src a msg ack = Dispatch nodePub putPub (Agg_handlers src a) msg"

definition Agg_Start :: "aggState worker_scheme sources \<Rightarrow> aggregator \<Rightarrow> fs \<Rightarrow> net \<Rightarrow> aggState wnode" where
  "Agg_Start src a = bootNode (agCfg a) src newAggState"

definition Agg_Run :: "aggState worker_scheme sources \<Rightarrow> aggregator \<Rightarrow> (Message \<times> nat) list \<Rightarrow> aggState wnode \<Rightarrow> aggState wnode" where
  "Agg_Run src a = fold (\<lambda>(m, ack). consumeEof src (Agg_handleMessage src a) (\<lambda>c x. False) noCleanup m ack)"

section \<open>The running maximum is the maximum\<close>

lemma aggregate_append:
  "aggregate a c (txs @ us) x = (case aggregate a c txs x of (Inl e, x) \<Rightarrow> (Inl e, x) | (Inr _, x) \<Rightarrow> aggregate a c us x)"
  by (induction txs arbitrary: x) (auto split: sum.split)

definition inGroup :: "aggregator \<Rightarrow> string \<Rightarrow> Transaction \<Rightarrow> bool" where
  "inGroup a k tx \<longleftrightarrow> extractGroupKey a tx = Inr k"

text \<open>\<open>best\<close> is the answer for group \<open>k\<close> of \<open>txs\<close>: one of its transactions, and none is larger.\<close>

definition groupMax :: "aggregator \<Rightarrow> Transaction list \<Rightarrow> string \<Rightarrow> Transaction option \<Rightarrow> bool" where
  "groupMax a txs k best \<longleftrightarrow>
     (case best of
        None \<Rightarrow> \<forall>tx \<in> set txs. \<not> inGroup a k tx
      | Some b \<Rightarrow> b \<in> set txs \<and> inGroup a k b \<and> (\<forall>tx \<in> set txs. inGroup a k tx \<longrightarrow> fl_le (fieldValue a tx) (fieldValue a b)))"

lemma fl_le_trans: "fl_le x y \<Longrightarrow> fl_le y z \<Longrightarrow> fl_le x z"
  and fl_le_refl: "\<not> fl_isNaN x \<Longrightarrow> fl_le x x"
  and fl_le_less: "\<not> fl_isNaN x \<Longrightarrow> \<not> fl_isNaN y \<Longrightarrow> fl_le y x \<longleftrightarrow> \<not> fl_less x y"
  by (auto simp: fl_le_def fl_less_def)

lemma aggOne_get:
  "agFunction a \<noteq> opAvg \<Longrightarrow> mget (mgetd [] (agState (aggOne a c key tx x)) c) k =
     (if k = key then Some (combine a (mget (mgetd [] (agState x) c) k) tx) else mget (mgetd [] (agState x) c) k)"
  by (simp add: aggOne_def Let_def)

lemma groupMax_step:
  assumes "agFunction a = opMax" "groupMax a txs k (mget (mgetd [] (agState x) c) k)"
    and "extractGroupKey a tx = Inr key" "\<forall>t \<in> set (txs @ [tx]). \<not> fl_isNaN (fieldValue a t)"
  shows "groupMax a (txs @ [tx]) k (mget (mgetd [] (agState (aggOne a c key tx x)) c) k)"
proof (cases "k = key")
  case True
  show ?thesis
  proof (cases "mget (mgetd [] (agState x) c) k")
    case None
    thus ?thesis using assms True by (auto simp: aggOne_get combine_def groupMax_def inGroup_def fl_le_refl)
  next
    case (Some b)
    hence b: "b \<in> set txs" "inGroup a k b" "\<And>t. t \<in> set txs \<Longrightarrow> inGroup a k t \<Longrightarrow> fl_le (fieldValue a t) (fieldValue a b)"
      using assms(2) by (auto simp: groupMax_def)
    have "\<not> fl_isNaN (fieldValue a b)" "\<not> fl_isNaN (fieldValue a tx)" using assms(4) b(1) by auto
    moreover have "fl_less (fieldValue a b) (fieldValue a tx) \<Longrightarrow> fl_le (fieldValue a b) (fieldValue a tx)"
      by (auto simp: fl_le_def fl_less_def)
    ultimately show ?thesis using assms(1,3) b True Some
      by (auto simp: aggOne_get combine_def groupMax_def inGroup_def fl_le_refl fl_le_less [THEN iffD2] intro: fl_le_trans)
  qed
next
  case False
  thus ?thesis using assms by (auto simp: aggOne_get groupMax_def inGroup_def split: option.splits)
qed

lemma aggregate_max:
  assumes "agFunction a = opMax" "\<forall>tx \<in> set txs. \<exists>k. extractGroupKey a tx = Inr k"
    and "\<forall>tx \<in> set txs. \<not> fl_isNaN (fieldValue a tx)"
  shows "\<exists>x'. aggregate a c txs newAggState = (Inr (), x') \<and> wf_map (mgetd [] (agState x') c)
    \<and> (\<forall>k. groupMax a txs k (mget (mgetd [] (agState x') c) k))"
  using assms(2,3)
proof (induction txs rule: rev_induct)
  case Nil
  show ?case by (auto simp: newAggState_def groupMax_def)
next
  case (snoc tx txs)
  then obtain x' where x': "aggregate a c txs newAggState = (Inr (), x')" "wf_map (mgetd [] (agState x') c)"
    "\<And>k. groupMax a txs k (mget (mgetd [] (agState x') c) k)" by auto
  obtain key where key: "extractGroupKey a tx = Inr key" using snoc.prems(1) by auto
  have "aggregate a c (txs @ [tx]) newAggState = (Inr (), aggOne a c key tx x')"
    by (simp add: aggregate_append x'(1) key)
  moreover have "wf_map (mgetd [] (agState (aggOne a c key tx x')) c)"
    using x'(2) assms(1) by (simp add: aggOne_def Let_def)
  ultimately show ?case using groupMax_step [OF assms(1) x'(3) key] snoc.prems(2) by blast
qed

lemma aggregate_batches:
  "fold (\<lambda>batch (r, x). case r of Inl e \<Rightarrow> (Inl e, x) | Inr _ \<Rightarrow> aggregate a c batch x) batches (Inr (), x) =
     aggregate a c (concat batches) x"
proof -
  have stuck: "fold (\<lambda>batch (r, x). case r of Inl e \<Rightarrow> (Inl e, x) | Inr _ \<Rightarrow> aggregate a c batch x) bs (Inl e, y) = (Inl e, y)" for bs e y
    by (induction bs) auto
  show ?thesis
    by (induction batches arbitrary: x) (auto simp: aggregate_append stuck split: sum.splits prod.splits)
qed

lemma wf_map_mget: "wf_map m \<Longrightarrow> (k, v) \<in> set m \<Longrightarrow> mget m k = Some v"
  by (simp add: wf_map_def)


definition exampleAggregator :: aggregator where
  "exampleAggregator = \<lparr>agCfg = exampleCfg, agFunction = opMax, agField = ''Amount'', agGrouped = True, agGroupSource = ''origin'',
     agGroupField = ''BankID'', agTxOrder = rev, agAvgOrder = rev\<rparr>"

lemma exampleAggregator_keys:
  "FromBank tx \<noteq> '''' \<Longrightarrow> extractGroupKey exampleAggregator tx = Inr (FromBank tx)"
  by (simp add: extractGroupKey_def accountKey_def exampleAggregator_def)


section \<open>The handlers and the duplicate filter\<close>

lemma Agg_quiet: "quietSources (Agg_sources marshal unmarshal a)"
  unfolding Agg_sources_def
  by (intro plainSources_quiet ownSource_pure) (simp add: Agg_SnapshotClient_def)

lemma seen_batches [keeps_seen]: "seenOf (snd (sendTransactionBatches a c idx batches s)) = seenOf s"
  by (induction batches arbitrary: idx s) (auto intro!: keeps_seen)

lemma seen_eof [keeps_seen]: "seenOf (snd (sendTransactionsEOF a c n s)) = seenOf s"
  unfolding sendTransactionsEOF_def by (intro keeps_seen)

lemma seen_collect [keeps_seen]: "seenOf (snd (collectAction a c s)) = seenOf s"
  by (auto simp: collectAction_def split: prod.split)

lemma seen_ungrouped [keeps_seen]: "seenOf (snd (emitUngroupedCount a c s)) = seenOf s"
  unfolding emitUngroupedCount_def Let_def by (intro keeps_seen)

lemma seen_transactions [keeps_seen]: "seenOf (snd (Agg_handleTransactionMessage a env s)) = seenOf s"
  unfolding Agg_handleTransactionMessage_def
  by (rule seen_wbind, rule keeps_seen) (auto split: prod.split intro: keeps_seen)

lemma seen_aggEOF: "seenOf (snd (Agg_handleEOFMessage (Agg_sources marshal unmarshal a) a env s)) = seenOf s"
  unfolding Agg_handleEOFMessage_def Let_def by (intro keeps_seen Agg_quiet)

interpretation aggregator: publisher_host nodePub putPub "Agg_handlers (Agg_sources marshal unmarshal a) a"
  by (rule publisher_hostI) (auto simp: Agg_handlers_def seen_transactions seen_aggEOF)

section \<open>A failed publication\<close>

lemma batches_fail_first:
  assumes "outcomes (nodeNet s) = False # os" "EncodeTransactionBatch chunk = Inr payload"
  shows "\<exists>e s'. sendTransactionBatches a c idx (chunk # rest) s = (Inl e, s') \<and> outbox s' = outbox s \<and> own s' = own s
    \<and> outcomes (nodeNet s') = os"
proof -
  let ?i = "StageMsgID c (stageName (agCfg a)) ''result'' (word_of_nat idx)"
  obtain e s' where "publishWithID c MsgTransactionsBatch KeyNil payload ?i s = (Inl e, s')" "outbox s' = outbox s" "own s' = own s"
    "outcomes (nodeNet s') = os"
    using publishWithID_fails [OF assms(1)] by metis
  thus ?thesis using assms(2) by (simp add: wbind_def wresult_def wrapf_def wwrap_def)
qed

text \<open>The announcement of \<open>n\<close> transactions of client \<open>c\<close>.\<close>

definition announced :: "aggregator \<Rightarrow> uuid \<Rightarrow> goint \<Rightarrow> Message" where
  "announced a c n =
     internalMessage c MsgTransactionsEOF KeyControlEOF (PutUint32 1 @ [0] @ writeInt64 n) (eofMsgID (agCfg a) c)"

lemma eof_sends:
  assumes "outcomes (nodeNet s) = [] \<or> hd (outcomes (nodeNet s))"
  shows "\<exists>s'. sendTransactionsEOF a c n s = (Inr (), s') \<and> own s' = own s \<and> outbox s' = outbox s @ [announced a c n]"
proof -
  have "EncodeEOFCounts [(KeyNil, n)] = Inr (PutUint32 1 @ [0] @ writeInt64 n)"
    by (simp add: EncodeEOFCounts_def KeyNil_def writeString_def str_bytes_def wrapf_def mgetd_def)
  thus ?thesis
    using publishWithID_works [OF assms, of c MsgTransactionsEOF KeyControlEOF "PutUint32 1 @ [0] @ writeInt64 n" "eofMsgID (agCfg a) c"]
    by (auto simp: sendTransactionsEOF_def announced_def wbind_def wresult_def wrapf_def)
qed

lemma collect_gone:
  assumes "\<And>m. mset (agTxOrder a m) = mset m" "\<And>m. mset (agAvgOrder a m) = mset m"
  shows "\<exists>y. collectResults a c (snd (collectResults a c x)) = ([], y)"
proof -
  have "agTxOrder a [] = []" "agAvgOrder a [] = []" using assms(1) [of "[]"] assms(2) [of "[]"] by simp_all
  thus ?thesis by (simp add: collectResults_def sortByTransactionID_def mgetd_def)
qed

text \<open>
  C21. Results can be lost: the state of a client is removed before its results are sent, so when the
  broker refuses the first batch the handler returns an error with nothing sent, and when the EOF is
  delivered again the worker announces an end with zero transactions.
\<close>

theorem aggregator_loses_results_on_failed_publish:
  assumes "agFunction a \<noteq> opCount" "\<And>m. mset (agTxOrder a m) = mset m" "\<And>m. mset (agAvgOrder a m) = mset m"
    and "\<not> isFlushPayload (Payload env)" "outcomes (nodeNet s) = [False]"
    and "chunks agFlushBatchSize (fst (collectResults a (ClientId env) (own s))) = chunk # rest"
    and "EncodeTransactionBatch chunk = Inr payload"
  shows "\<exists>e s1. Agg_handleEOFMessage (Agg_sources marshal unmarshal a) a env s = (Inl e, s1) \<and> outbox s1 = outbox s
   \<and> outbox (snd (Agg_handleEOFMessage (Agg_sources marshal unmarshal a) a env s1)) = outbox s @ [announced a (ClientId env) 0]"
proof -
  let ?c = "ClientId env" and ?src = "Agg_sources marshal unmarshal a"
  let ?x = "snd (collectResults a (ClientId env) (own s))"
  obtain e s1 where s1: "sendTransactionBatches a ?c 0 (chunk # rest) (updOwn (\<lambda>_. ?x) s) = (Inl e, s1)"
    "outbox s1 = outbox s" "own s1 = ?x" "outcomes (nodeNet s1) = []"
    using batches_fail_first [of "updOwn (\<lambda>_. ?x) s" "[]" chunk payload a ?c 0 rest] assms(5,7) by auto
  have col: "collectAction a ?c s = (Inr (fst (collectResults a ?c (own s))), updOwn (\<lambda>_. ?x) s)"
    by (simp add: collectAction_def case_prod_unfold)
  have first: "Agg_handleEOFMessage ?src a env s = (Inl e, s1)"
    using assms(1,4) by (simp add: Agg_handleEOFMessage_def Let_def wbind_run [of "collectAction a ?c", OF col] assms(6) del: sendTransactionBatches.simps)
      (simp add: wbind_def s1(1) del: sendTransactionBatches.simps)
  obtain y where y: "collectResults a ?c (own s1) = ([], y)" using collect_gone [OF assms(2,3)] s1(3) by metis
  obtain s2 where s2: "sendTransactionsEOF a ?c 0 (updOwn (\<lambda>_. y) s1) = (Inr (), s2)" "outbox s2 = outbox s @ [announced a ?c 0]"
    using eof_sends [where s = "updOwn (\<lambda>_. y) s1" and a = a and c = ?c and n = 0] s1(2,4) by auto
  have col1: "collectAction a ?c s1 = (Inr [], updOwn (\<lambda>_. y) s1)" by (simp add: collectAction_def y)
  have "Agg_handleEOFMessage ?src a env s1 = fromIo (coFlush ?src) s2"
    using assms(1,4) s2(1) by (simp add: Agg_handleEOFMessage_def Let_def wbind_run [of "collectAction a ?c", OF col1] chunks.simps)
      (simp add: wbind_def wresult_def)
  thus ?thesis using first s1(2) s2(2) outbox_flush(1) [OF Agg_quiet, of marshal unmarshal a s2] by simp
qed

definition exampleEnd :: "aggState wnode" where
  "exampleEnd = NewCoordinator (newHost exampleCfg (snd (aggregate exampleAggregator (replicate 16 7) [exampleTx] newAggState))
     \<lparr>outcomes = [False], sent = []\<rparr>) \<lparr>files = [], script = []\<rparr> 1"

lemma exampleEnd_own [simp]:
  "own exampleEnd = snd (aggregate exampleAggregator (replicate 16 7) [exampleTx] newAggState)"
  "outcomes (nodeNet exampleEnd) = [False]" "outbox exampleEnd = []"
  by (simp_all add: exampleEnd_def own_def outbox_def NewCoordinator_def newHost_def)

lemma aggregator_loses_results_on_failed_publish_witness:
  "let h = Agg_handleEOFMessage (Agg_sources (\<lambda>_. Inr []) (\<lambda>_. Inl ErrEOF) exampleAggregator) exampleAggregator
     \<lparr>MsgType = MsgTransactionsEOF, ClientId = replicate 16 7, MsgID = replicate 16 1, Payload = []\<rparr> in
   outbox (snd (h (snd (h exampleEnd)))) = [announced exampleAggregator (replicate 16 7) 0]"
proof -
  let ?env = "\<lparr>MsgType = MsgTransactionsEOF, ClientId = replicate 16 7, MsgID = replicate 16 1, Payload = []\<rparr>"
  have enc: "chunks agFlushBatchSize (fst (collectResults exampleAggregator (replicate 16 7) (own exampleEnd))) = [[exampleTx]]"
    unfolding exampleEnd_own by code_simp
  have "\<not> isFlushPayload []" by code_simp
  with \<open>\<not> isFlushPayload []\<close> enc exampleBatch show ?thesis
    using aggregator_loses_results_on_failed_publish
      [of exampleAggregator ?env exampleEnd "[exampleTx]" "[]" exampleBatch "\<lambda>_. Inr []" "\<lambda>_. Inl ErrEOF"]
    by (auto simp: Let_def exampleAggregator_def)
qed

end
