(* ===== verification/Conversion.thy ===== *)
theory Conversion
  imports Barrier Constructors
begin

text \<open>
  \<open>workers/converter\<close>: the worker that converts the amounts of a batch to US dollars (\<open>converter.go\<close>)
  and the exchange rates it uses (\<open>rates.go\<close>): a table of the reference notebook, two static
  fallbacks, and the Frankfurter web service behind a cache. The service is a parameter: a function of
  the number of requests made so far and of the request. Rates are doubles, the nearest ones to the
  decimal numbers of the source.
\<close>

section \<open>Timestamps\<close>

text \<open>
  \<open>time.Parse\<close> for the elements that the layouts of \<open>transactionDate\<close> use, as far as the date goes.
  \<open>Blank\<close> is a space of a layout, \<open>Hour\<close> is \<open>15\<close> (one digit is accepted), a fraction may follow the
  seconds, and \<open>Zone\<close> is the \<open>Z07:00\<close> of RFC 3339.
\<close>

datatype layoutItem = Lit char | Blank | Year | Month | Day | Hour | Minute | Second | Zone

definition digitAt :: "string \<Rightarrow> nat \<Rightarrow> bool" where
  "digitAt s i \<longleftrightarrow> i < length s \<and> isDigit (s ! i)"

definition digitVal :: "char \<Rightarrow> nat" where
  "digitVal c = of_char c - 48"

definition getnum :: "bool \<Rightarrow> string \<Rightarrow> (nat \<times> string) option" where
  "getnum fixed s =
     (if \<not> digitAt s 0 then None
      else if \<not> digitAt s 1 then (if fixed then None else Some (digitVal (s ! 0), drop 1 s))
      else Some (10 * digitVal (s ! 0) + digitVal (s ! 1), drop 2 s))"

definition getYear :: "string \<Rightarrow> (nat \<times> string) option" where
  "getYear s =
     (if length s < 4 \<or> \<not> list_all isDigit (take 4 s) then None
      else Some (fold (\<lambda>c n. 10 * n + digitVal c) (take 4 s) 0, drop 4 s))"

definition skipFraction :: "string \<Rightarrow> string" where
  "skipFraction s = (if s \<noteq> [] \<and> (hd s = CHR ''.'' \<or> hd s = CHR '','') \<and> digitAt s 1 then dropWhile isDigit (tl s) else s)"

definition skipZone :: "string \<Rightarrow> string option" where
  "skipZone s =
     (if s \<noteq> [] \<and> hd s = CHR ''Z'' then Some (tl s)
      else if length s < 6 \<or> s ! 3 \<noteq> CHR '':'' then None
      else case (getnum True (take 2 (drop 1 s)), getnum True (take 2 (drop 4 s))) of
        (Some (h, _), Some (m, _)) \<Rightarrow>
          if h \<le> 24 \<and> m \<le> 60 \<and> (hd s = CHR ''+'' \<or> hd s = CHR ''-'') then Some (drop 6 s) else None
      | _ \<Rightarrow> None)"

fun parseItems :: "layoutItem list \<Rightarrow> string \<Rightarrow> nat \<times> nat \<times> nat \<Rightarrow> (nat \<times> nat \<times> nat) option" where
  "parseItems [] s d = (if s = [] then Some d else None)"
| "parseItems (Lit c # ls) s d = (case s of x # s' \<Rightarrow> if x = c then parseItems ls s' d else None | [] \<Rightarrow> None)"
| "parseItems (Blank # ls) s d =
     (if s \<noteq> [] \<and> hd s \<noteq> CHR '' '' then None else parseItems ls (dropWhile (\<lambda>c. c = CHR '' '') s) d)"
| "parseItems (Year # ls) s (y, m, d) = (case getYear s of None \<Rightarrow> None | Some (n, s') \<Rightarrow> parseItems ls s' (n, m, d))"
| "parseItems (Month # ls) s (y, m, d) =
     (case getnum True s of None \<Rightarrow> None | Some (n, s') \<Rightarrow> if 1 \<le> n \<and> n \<le> 12 then parseItems ls s' (y, n, d) else None)"
| "parseItems (Day # ls) s (y, m, d) = (case getnum True s of None \<Rightarrow> None | Some (n, s') \<Rightarrow> parseItems ls s' (y, m, n))"
| "parseItems (Hour # ls) s d =
     (case getnum False s of None \<Rightarrow> None | Some (n, s') \<Rightarrow> if n < 24 then parseItems ls s' d else None)"
| "parseItems (Minute # ls) s d =
     (case getnum True s of None \<Rightarrow> None | Some (n, s') \<Rightarrow> if n < 60 then parseItems ls s' d else None)"
| "parseItems (Second # ls) s d =
     (case getnum True s of None \<Rightarrow> None | Some (n, s') \<Rightarrow> if n < 60 then parseItems ls (skipFraction s') d else None)"
| "parseItems (Zone # ls) s d = (case skipZone s of None \<Rightarrow> None | Some s' \<Rightarrow> parseItems ls s' d)"

definition leapYear :: "nat \<Rightarrow> bool" where
  "leapYear y \<longleftrightarrow> y mod 4 = 0 \<and> (y mod 100 \<noteq> 0 \<or> y mod 400 = 0)"

definition daysIn :: "nat \<Rightarrow> nat \<Rightarrow> nat" where
  "daysIn m y = (if m = 2 then (if leapYear y then 29 else 28) else if m = 4 \<or> m = 6 \<or> m = 9 \<or> m = 11 then 30 else 31)"

definition timeParse :: "layoutItem list \<Rightarrow> string \<Rightarrow> (nat \<times> nat \<times> nat) option" where
  "timeParse layout s =
     (case parseItems layout s (0, 0, 0) of
        None \<Rightarrow> None
      | Some (y, m, d) \<Rightarrow> if 1 \<le> d \<and> d \<le> daysIn m y then Some (y, m, d) else None)"

definition padded :: "nat \<Rightarrow> nat \<Rightarrow> string" where
  "padded width n = (let s = itoa n in replicate (width - length s) (CHR ''0'') @ s)"

definition formatDate :: "nat \<times> nat \<times> nat \<Rightarrow> string" where
  "formatDate = (\<lambda>(y, m, d). padded 4 y @ ''-'' @ padded 2 m @ ''-'' @ padded 2 d)"

definition layouts :: "layoutItem list list" where
  "layouts =
     (let date = (\<lambda>c. [Year, Lit c, Month, Lit c, Day]);
          clock = [Hour, Lit (CHR '':''), Minute, Lit (CHR '':''), Second] in
      [date (CHR ''-'') @ [Lit (CHR ''T'')] @ clock @ [Zone],
       date (CHR ''-'') @ [Lit (CHR ''T'')] @ clock,
       date (CHR ''-'') @ [Blank] @ clock,
       date (CHR ''/'') @ [Blank] @ clock,
       date (CHR ''/'') @ [Blank, Hour, Lit (CHR '':''), Minute],
       date (CHR ''-'')])"

definition transactionDate :: "string \<Rightarrow> string result" where
  "transactionDate timestamp =
     (case List.map_filter (\<lambda>l. timeParse l timestamp) layouts of
        d # _ \<Rightarrow> Inr (formatDate d)
      | [] \<Rightarrow> Inl (Errorf ''unrecognised timestamp format'' []))"

section \<open>Rates (rates.go)\<close>

text \<open>The double nearest to \<open>n / d\<close>.\<close>

definition rate :: "int \<Rightarrow> int \<Rightarrow> float64" where
  "rate n d = fl_round False n d 0"

definition currencyISO :: "(string, string) gomap" where
  "currencyISO =
     [(''US Dollar'', ''USD''), (''Euro'', ''EUR''), (''UK Pound'', ''GBP''), (''Yuan'', ''CNY''), (''Yen'', ''JPY''),
      (''Australian Dollar'', ''AUD''), (''Canadian Dollar'', ''CAD''), (''Mexican Peso'', ''MXN''),
      (''Brazil Real'', ''BRL''), (''Rupee'', ''INR''), (''Swiss Franc'', ''CHF''), (''Shekel'', ''ILS'')]"

definition ErrUnsupportedCurrency :: gerr where
  "ErrUnsupportedCurrency = Errorf ''unsupported currency'' []"

definition fallbackUSDPerUnit :: "(string, float64) gomap" where
  "fallbackUSDPerUnit =
     [(''Saudi Riyal'', rate 100 375), (''Ruble'', rate 10 605), (''Bitcoin'', rate 20000 1)]"

definition notebookForeignPerUSD :: "(string, (string, float64) gomap) gomap" where
  "notebookForeignPerUSD =
     [(''2022-09-01'',
        [(''Australian Dollar'', rate 14644 10000), (''Brazil Real'', rate 51805 10000), (''Canadian Dollar'', rate 1314 1000), (''Swiss Franc'', rate 97999 100000),
         (''Yuan'', rate 69 10), (''Euro'', rate 10002 10000), (''UK Pound'', rate 86272 100000), (''Shekel'', rate 33535 10000),
         (''Rupee'', rate 79543 1000), (''Yen'', rate 13934 100), (''Mexican Peso'', rate 20189 1000), (''Ruble'', rate 60367 1000),
         (''Saudi Riyal'', rate 375 100), (''US Dollar'', rate 1 1), (''Bitcoin'', rate 197931 10)]),
      (''2022-09-02'',
        [(''Australian Dollar'', rate 14691 10000), (''Brazil Real'', rate 52035 10000), (''Canadian Dollar'', rate 13141 10000), (''Swiss Franc'', rate 98175 100000),
         (''Yuan'', rate 69035 10000), (''Euro'', rate 10011 10000), (''UK Pound'', rate 86468 100000), (''Shekel'', rate 33755 10000),
         (''Rupee'', rate 79719 1000), (''Yen'', rate 14011 100), (''Mexican Peso'', rate 20085 1000), (''Ruble'', rate 60427 1000),
         (''Saudi Riyal'', rate 375 100), (''US Dollar'', rate 1 1), (''Bitcoin'', rate 199999 1)]),
      (''2022-09-03'',
        [(''Australian Dollar'', rate 14691 10000), (''Brazil Real'', rate 52056 10000), (''Canadian Dollar'', rate 13138 10000), (''Swiss Franc'', rate 98207 100000),
         (''Yuan'', rate 69046 10000), (''Euro'', rate 10013 10000), (''UK Pound'', rate 86478 100000), (''Shekel'', rate 33791 10000),
         (''Rupee'', rate 7975 100), (''Yen'', rate 14017 100), (''Mexican Peso'', rate 20081 1000), (''Ruble'', rate 60471 1000),
         (''Saudi Riyal'', rate 375 100), (''US Dollar'', rate 1 1), (''Bitcoin'', rate 198314 10)]),
      (''2022-09-04'',
        [(''Australian Dollar'', rate 14695 10000), (''Brazil Real'', rate 52082 10000), (''Canadian Dollar'', rate 13139 10000), (''Swiss Franc'', rate 98219 100000),
         (''Yuan'', rate 69047 10000), (''Euro'', rate 10013 10000), (''UK Pound'', rate 8649 10000), (''Shekel'', rate 33815 10000),
         (''Rupee'', rate 79754 1000), (''Yen'', rate 14022 100), (''Mexican Peso'', rate 20084 1000), (''Ruble'', rate 60461 1000),
         (''Saudi Riyal'', rate 375 100), (''US Dollar'', rate 1 1), (''Bitcoin'', rate 199527 10)]),
      (''2022-09-05'',
        [(''Australian Dollar'', rate 14722 10000), (''Brazil Real'', rate 51786 10000), (''Canadian Dollar'', rate 13142 10000), (''Swiss Franc'', rate 98273 100000),
         (''Yuan'', rate 69216 10000), (''Euro'', rate 10068 10000), (''UK Pound'', rate 86813 100000), (''Shekel'', rate 34006 10000),
         (''Rupee'', rate 79816 1000), (''Yen'', rate 14049 100), (''Mexican Peso'', rate 20018 1000), (''Ruble'', rate 60737 1000),
         (''Saudi Riyal'', rate 375 100), (''US Dollar'', rate 1 1), (''Bitcoin'', rate 201261 10)])]"

definition bitcoinUSDPerUnit :: "(string, float64) gomap" where
  "bitcoinUSDPerUnit =
     [(''2022-09-01'', rate 197931 10), (''2022-09-02'', rate 199999 1), (''2022-09-03'', rate 198314 10),
      (''2022-09-04'', rate 199527 10), (''2022-09-05'', rate 201261 10)]"

text \<open>
  The client of the service. An answer is a failed call, or a status with a body that decodes to a
  table of rates or fails to. The key of the cache is (date, currency code).
\<close>

datatype httpAnswer = CallFailed gerr | Answer nat "(string, float64) gomap result"

record rateClient =
  baseURL :: string
  service :: "nat \<Rightarrow> string \<Rightarrow> string \<Rightarrow> string \<Rightarrow> httpAnswer"

definition newRateClient :: "(string \<Rightarrow> string) \<Rightarrow> (nat \<Rightarrow> string \<Rightarrow> string \<Rightarrow> string \<Rightarrow> httpAnswer) \<Rightarrow> rateClient" where
  "newRateClient env http =
     (let base = env ''FRANKFURTER_URL'' in
      \<lparr>baseURL = (if base = '''' then ''https://api.frankfurter.app'' else base), service = http\<rparr>)"

record rateState =
  rateCache :: "(string \<times> string, float64) gomap"
  requests :: nat

definition fetchRate :: "rateClient \<Rightarrow> string \<Rightarrow> string \<Rightarrow> 'a rateState_scheme \<Rightarrow> float64 result \<times> 'a rateState_scheme" where
  "fetchRate rc date code x =
     ((case service rc (requests x) (baseURL rc) date code of
         CallFailed e \<Rightarrow> Inl (Wrapf ''calling frankfurter'' [] e)
       | Answer status body \<Rightarrow>
           if status \<noteq> 200 then Inl (Errorf ''frankfurter returned status'' [status])
           else rbind (wrapf ''decoding frankfurter response'' [] body) (\<lambda>rates.
                case mget rates ''USD'' of
                  None \<Rightarrow> Inl (Errorf ''frankfurter response missing USD rate'' [])
                | Some r \<Rightarrow> Inr r)),
      x\<lparr>requests := Suc (requests x)\<rparr>)"

definition staticRate :: "string \<Rightarrow> string \<Rightarrow> float64 \<Rightarrow> float64 result" where
  "staticRate date currency amount =
     (case (if currency = ''Bitcoin'' then mget bitcoinUSDPerUnit date else None) of
        Some r \<Rightarrow> Inr (fl_div amount r)
      | None \<Rightarrow>
         (case mget fallbackUSDPerUnit currency of
            Some r \<Rightarrow> Inr (fl_mul amount r)
          | None \<Rightarrow> Inl (Wrapf ''currency'' [] ErrUnsupportedCurrency)))"

definition notebookRate :: "string \<Rightarrow> string \<Rightarrow> float64 option" where
  "notebookRate date currency =
     (case mget notebookForeignPerUSD date of None \<Rightarrow> None | Some dayRates \<Rightarrow> mget dayRates currency)"

definition convertToUSD ::
  "rateClient \<Rightarrow> string \<Rightarrow> string \<Rightarrow> float64 \<Rightarrow> 'a rateState_scheme \<Rightarrow> float64 result \<times> 'a rateState_scheme" where
  "convertToUSD rc date currency amount x =
     (case notebookRate date currency of
        Some r \<Rightarrow> (Inr (fl_div amount r), x)
      | None \<Rightarrow>
         (case mget currencyISO currency of
            None \<Rightarrow> (staticRate date currency amount, x)
          | Some code \<Rightarrow>
             if code = ''USD'' then (Inr amount, x)
             else case mget (rateCache x) (date, code) of
                Some r \<Rightarrow> (Inr (fl_mul amount r), x)
              | None \<Rightarrow>
                 (case fetchRate rc date code x of
                    (Inl e, x) \<Rightarrow> (Inl e, x)
                  | (Inr r, x) \<Rightarrow> (Inr (fl_mul amount r), x\<lparr>rateCache := mput (date, code) r (rateCache x)\<rparr>))))"

section \<open>Converter (converter.go)\<close>

record convState = rateState +
  txProcessed :: "(uuid, goint) gomap"

record converter =
  coCfg :: workerCfg
  coRates :: rateClient

definition NewConverter :: "(string \<Rightarrow> string) \<Rightarrow> (nat \<Rightarrow> string \<Rightarrow> string \<Rightarrow> string \<Rightarrow> httpAnswer) \<Rightarrow> workerCfg \<Rightarrow> converter" where
  "NewConverter env http cfg = \<lparr>coCfg = cfg, coRates = newRateClient env http\<rparr>"

definition newConvState :: convState where
  "newConvState = \<lparr>rateCache = [], requests = 0, txProcessed = []\<rparr>"

text \<open>The coordinator of \<open>Run\<close> is given no state source, so these two are never called.\<close>

definition Converter_SnapshotClient :: "(goint \<Rightarrow> bytes result) \<Rightarrow> uuid \<Rightarrow> convState \<Rightarrow> bytes result \<times> convState" where
  "Converter_SnapshotClient marshal c x = (marshal (mgetd 0 (txProcessed x) c), x)"

definition Converter_RestoreClient :: "(bytes \<Rightarrow> goint result) \<Rightarrow> uuid \<Rightarrow> bytes \<Rightarrow> convState \<Rightarrow> unit result \<times> convState" where
  "Converter_RestoreClient unmarshal c data x =
     (if data = [] then (Inr (), x)
      else case unmarshal data of
        Inl e \<Rightarrow> (Inl e, x)
      | Inr n \<Rightarrow> (Inr (), x\<lparr>txProcessed := mput c n (txProcessed x)\<rparr>))"

definition Converter_sources :: "converter \<Rightarrow> convState worker_scheme sources" where
  "Converter_sources w = plainSources (coCfg w) None"

definition Converter_sendTransactionBatch :: "uuid \<Rightarrow> Transaction list \<Rightarrow> MsgID \<Rightarrow> (convState, unit) act" where
  "Converter_sendTransactionBatch c txs parentID =
     wbind (wresult (EncodeTransactionBatch txs)) (\<lambda>payload.
     wbind (publishWithID c MsgTransactionsBatch KeyDollarTransaction payload (DeriveMsgID parentID KeyDollarTransaction 0)) (\<lambda>_.
     wmodify (updOwn (\<lambda>x. x\<lparr>txProcessed := mput c (mgetd 0 (txProcessed x) c + word_of_nat (length txs)) (txProcessed x)\<rparr>))))"

text \<open>
  The loop over a batch: \<open>Some results\<close>, or \<open>None\<close> when a transaction has no date or no rate and the
  handler returns \<open>nil\<close> at once. \<open>errors.Is\<close> looks through the wrapping.
\<close>

fun errorsIs :: "gerr \<Rightarrow> gerr \<Rightarrow> bool" where
  "errorsIs (Wrapf s ns e) target = (Wrapf s ns e = target \<or> errorsIs e target)"
| "errorsIs e target = (e = target)"

fun convertBatch ::
  "rateClient \<Rightarrow> Transaction list \<Rightarrow> 'a rateState_scheme \<Rightarrow> Transaction list option result \<times> 'a rateState_scheme" where
  "convertBatch rc [] x = (Inr (Some []), x)"
| "convertBatch rc (tx # txs) x =
     (let keep = (\<lambda>tx (r, x). (case r of Inr (Some res) \<Rightarrow> Inr (Some (tx # res)) | _ \<Rightarrow> r, x)) in
      if PaymentCurrency tx = Dollar then keep tx (convertBatch rc txs x)
      else case transactionDate (Timestamp tx) of
        Inl e \<Rightarrow> (Inr None, x)
      | Inr date \<Rightarrow>
         (case convertToUSD rc date (PaymentCurrency tx) (AmountPaid tx) x of
            (Inl e, x) \<Rightarrow> (if errorsIs e ErrUnsupportedCurrency then Inr None else Inl e, x)
          | (Inr usd, x) \<Rightarrow> keep (tx\<lparr>AmountPaid := usd, PaymentCurrency := Dollar\<rparr>) (convertBatch rc txs x)))"

definition Converter_handleTransactionMessage :: "converter \<Rightarrow> convState wnode handler" where
  "Converter_handleTransactionMessage w env =
     wbind (wresult (DecodeTransactionBatch (Payload env))) (\<lambda>txs.
     wbind (\<lambda>s. case convertBatch (coRates w) txs (own s) of (r, x) \<Rightarrow> (r, updOwn (\<lambda>_. x) s)) (\<lambda>results.
     case results of
       None \<Rightarrow> wresult (Inr ())
     | Some txs \<Rightarrow> Converter_sendTransactionBatch (ClientId env) txs (MsgID env)))"

definition Converter_forwardFlushEOF :: "converter \<Rightarrow> uuid \<Rightarrow> (convState, unit) act" where
  "Converter_forwardFlushEOF w c =
     wbind (wresult (wrapf ''encoding flush EOF'' [] (EncodeEOFCountsEnvelope c flushCounts))) (\<lambda>envelope.
     publishRaw KeyControlEOF envelope (eofMsgID (coCfg w) c))"

definition forgetProcessed :: "uuid \<Rightarrow> convState \<Rightarrow> convState" where
  "forgetProcessed c x = x\<lparr>txProcessed := mdel c (txProcessed x)\<rparr>"

definition Converter_handleEOFMessage :: "converter \<Rightarrow> convState wnode handler" where
  "Converter_handleEOFMessage w env s =
     (let c = ClientId env in
      if isFlushPayload (Payload env)
      then wbind (wmodify (updOwn (forgetProcessed c))) (\<lambda>_. Converter_forwardFlushEOF w c) s
      else wbind (wresult (EncodeEOFCounts [(KeyNil, mgetd 0 (txProcessed (own s)) c)])) (\<lambda>payload.
           publishWithID c MsgTransactionsEOF KeyControlEOF payload (eofMsgID (coCfg w) c)) s)"

definition Converter_handlers :: "converter \<Rightarrow> (MsgType, convState wnode handler) gomap" where
  "Converter_handlers w =
     [(MsgTransactionsBatch, Converter_handleTransactionMessage w), (MsgTransactionsEOF, Converter_handleEOFMessage w)]"

definition Converter_handleMessage :: "converter \<Rightarrow> convState dispatcher" where
  "Converter_handleMessage w msg ack = Dispatch nodePub putPub (Converter_handlers w) msg"

definition Converter_Start :: "converter \<Rightarrow> fs \<Rightarrow> net \<Rightarrow> convState wnode" where
  "Converter_Start w = bootNode (coCfg w) (Converter_sources w) newConvState"

definition Converter_Run :: "converter \<Rightarrow> (Message \<times> nat) list \<Rightarrow> convState wnode \<Rightarrow> convState wnode" where
  "Converter_Run w = fold (\<lambda>(m, ack). consumeEof (Converter_sources w) (Converter_handleMessage w) (\<lambda>c x. False) forgetProcessed m ack)"

section \<open>The duplicate filter\<close>

lemma seen_converted [keeps_seen]:
  "seenOf (snd ((case results of None \<Rightarrow> wresult (Inr ()) | Some txs \<Rightarrow> Converter_sendTransactionBatch c txs i) s)) = seenOf s"
  unfolding Converter_sendTransactionBatch_def by (cases results) (auto intro!: keeps_seen)

interpretation converter: publisher_host nodePub putPub "Converter_handlers w"
  by (rule publisher_hostI)
    (auto simp: Converter_handlers_def Converter_handleTransactionMessage_def Converter_handleEOFMessage_def Let_def
        Converter_forwardFlushEOF_def split: prod.split intro!: keeps_seen)

section \<open>What happens to a batch\<close>

text \<open>The transactions the notebook's table covers, and what they become.\<close>

definition quoted :: "Transaction \<Rightarrow> bool" where
  "quoted tx \<longleftrightarrow> PaymentCurrency tx = Dollar \<or>
     (case transactionDate (Timestamp tx) of Inl e \<Rightarrow> False | Inr date \<Rightarrow> notebookRate date (PaymentCurrency tx) \<noteq> None)"

definition inDollars :: "Transaction \<Rightarrow> Transaction" where
  "inDollars tx =
     (if PaymentCurrency tx = Dollar then tx
      else case transactionDate (Timestamp tx) of
        Inl e \<Rightarrow> tx
      | Inr date \<Rightarrow>
         (case notebookRate date (PaymentCurrency tx) of
            None \<Rightarrow> tx
          | Some r \<Rightarrow> tx\<lparr>AmountPaid := fl_div (AmountPaid tx) r, PaymentCurrency := Dollar\<rparr>))"

text \<open>A transaction without a readable date, or in a currency nothing quotes.\<close>

definition unconvertible :: "Transaction \<Rightarrow> bool" where
  "unconvertible tx \<longleftrightarrow> PaymentCurrency tx \<noteq> Dollar \<and>
     (case transactionDate (Timestamp tx) of
        Inl e \<Rightarrow> True
      | Inr date \<Rightarrow> notebookRate date (PaymentCurrency tx) = None \<and> mget currencyISO (PaymentCurrency tx) = None
          \<and> isl (staticRate date (PaymentCurrency tx) (AmountPaid tx)))"

lemma staticRate_error: "staticRate date cur amount = Inl e \<Longrightarrow> errorsIs e ErrUnsupportedCurrency"
  by (auto simp: staticRate_def ErrUnsupportedCurrency_def split: option.splits)

lemma convertBatch_quoted:
  "\<forall>tx \<in> set us. quoted tx \<Longrightarrow> convertBatch rc (us @ txs) x =
     (case convertBatch rc txs x of (Inr (Some res), x) \<Rightarrow> (Inr (Some (map inDollars us @ res)), x) | r \<Rightarrow> r)"
proof (induction us)
  case Nil
  show ?case by (auto split: prod.split sum.split option.split)
next
  case (Cons tx us)
  show ?case
  proof (cases "PaymentCurrency tx = Dollar")
    case True
    thus ?thesis using Cons by (auto simp: inDollars_def split: prod.split sum.split option.split)
  next
    case False
    then obtain date r where "transactionDate (Timestamp tx) = Inr date" "notebookRate date (PaymentCurrency tx) = Some r"
      using Cons.prems by (auto simp: quoted_def split: sum.splits)
    thus ?thesis using False Cons by (auto simp: inDollars_def convertToUSD_def split: prod.split sum.split option.split)
  qed
qed

lemma convertBatch_unconvertible: "unconvertible tx \<Longrightarrow> convertBatch rc (tx # txs) x = (Inr None, x)"
  by (auto simp: unconvertible_def convertToUSD_def isl_def staticRate_error split: sum.splits)

lemma inDollars_wire: "wireTx tx \<Longrightarrow> wireTx (inDollars tx)"
  by (auto simp: inDollars_def wireTx_def Dollar_def split: sum.split option.split)

lemma inDollars_currency: "quoted tx \<Longrightarrow> PaymentCurrency (inDollars tx) = Dollar"
  by (auto simp: inDollars_def quoted_def split: sum.splits option.splits)


definition yenTx :: Transaction where "yenTx = exampleTx\<lparr>PaymentCurrency := ''Yen'', AmountPaid := rate 1000 1\<rparr>"
definition shellTx :: Transaction where "shellTx = exampleTx\<lparr>PaymentCurrency := ''Shells''\<rparr>"

definition exampleConverter :: converter where
  "exampleConverter = NewConverter (\<lambda>_. '''') (\<lambda>_ _ _ _. CallFailed ErrEOF) exampleCfg"

definition exampleConversion :: "convState wnode" where
  "exampleConversion = NewCoordinator (newHost exampleCfg newConvState \<lparr>outcomes = [], sent = []\<rparr>) \<lparr>files = [], script = []\<rparr> 1"

definition carrying :: "Transaction list \<Rightarrow> InternalEnvelope" where
  "carrying txs = \<lparr>MsgType = MsgTransactionsBatch, ClientId = replicate 16 7, MsgID = replicate 16 1,
     Payload = projr (EncodeTransactionBatch txs)\<rparr>"

lemma carrying_decodes: "\<forall>t \<in> set txs. wireTx t \<Longrightarrow> length txs < 2 ^ 32 \<Longrightarrow> DecodeTransactionBatch (Payload (carrying txs)) = Inr txs"
  using EncodeTransactionBatch_ok [of txs] batch_arrives [of txs] by (auto simp: carrying_def)


end
