(* ===== verification/BankJoin.thy ===== *)
theory BankJoin
  imports Barrier Constructors
begin

text \<open>
  \<open>workers/join/join.go\<close>: the worker that gives query 2 its bank names. It consumes the accounts of a
  client on one queue and its maximal transactions on another, keeps the transactions until the table
  of banks is complete, and ends the query when both queues have. Its two consumers take turns under a
  mutex, so a run is a sequence of deliveries tagged with their queue. The account configuration and
  the second broker are created outside the model and enter as results.
\<close>

section \<open>State\<close>

record cachedBatch =
  cbMsgID :: MsgID
  cbTxs :: "Transaction list"

record joinCheckpoint =
  jcBankNames :: "(string, string) gomap option"
  jcTxCache :: "cachedBatch list option"
  jcWorkerEOF :: int
  jcAccountsEOF :: bool
  jcFinalized :: bool

record joinState =
  jnEofs :: "(uuid, int) gomap"
  jnAccountsEof :: "(uuid, bool) gomap"
  jnFinalized :: "(uuid, bool) gomap"
  jnBanks :: "(uuid, (string, string) gomap) gomap"
  jnCache :: "(uuid, cachedBatch list) gomap"

record join =
  jnCfg :: workerCfg
  jnMarshal :: "joinCheckpoint \<Rightarrow> bytes result"
  jnUnmarshal :: "bytes \<Rightarrow> joinCheckpoint result"

definition newJoinState :: joinState where
  "newJoinState = \<lparr>jnEofs = [], jnAccountsEof = [], jnFinalized = [], jnBanks = [], jnCache = []\<rparr>"

definition NewJoin :: "unit result \<Rightarrow> unit result \<Rightarrow> (joinCheckpoint \<Rightarrow> bytes result) \<Rightarrow> (bytes \<Rightarrow> joinCheckpoint result)
    \<Rightarrow> workerCfg \<Rightarrow> join result" where
  "NewJoin accountConfig accountsBroker marshal unmarshal cfg =
     rbind (wrapf ''failed to load accounts config'' [] accountConfig) (\<lambda>_.
     rbind (wrapf ''failed to create accounts broker'' [] accountsBroker) (\<lambda>_.
     Inr \<lparr>jnCfg = cfg, jnMarshal = marshal, jnUnmarshal = unmarshal\<rparr>))"

definition Join_SnapshotClient :: "join \<Rightarrow> uuid \<Rightarrow> joinState \<Rightarrow> bytes result \<times> joinState" where
  "Join_SnapshotClient w c x =
     (jnMarshal w \<lparr>jcBankNames = mget (jnBanks x) c, jcTxCache = mget (jnCache x) c, jcWorkerEOF = mgetd 0 (jnEofs x) c,
                   jcAccountsEOF = mgetd False (jnAccountsEof x) c, jcFinalized = mgetd False (jnFinalized x) c\<rparr>, x)"

definition Join_RestoreClient :: "join \<Rightarrow> uuid \<Rightarrow> bytes \<Rightarrow> joinState \<Rightarrow> unit result \<times> joinState" where
  "Join_RestoreClient w c data x =
     (if data = [] then (Inr (), x)
      else case jnUnmarshal w data of
        Inl e \<Rightarrow> (Inl e, x)
      | Inr cp \<Rightarrow>
          let x = (case jcBankNames cp of None \<Rightarrow> x | Some m \<Rightarrow> x\<lparr>jnBanks := mput c m (jnBanks x)\<rparr>);
              x = (case jcTxCache cp of None \<Rightarrow> x | Some l \<Rightarrow> x\<lparr>jnCache := mput c l (jnCache x)\<rparr>);
              x = (if jcWorkerEOF cp \<noteq> 0 then x\<lparr>jnEofs := mput c (jcWorkerEOF cp) (jnEofs x)\<rparr> else x);
              x = (if jcAccountsEOF cp then x\<lparr>jnAccountsEof := mput c True (jnAccountsEof x)\<rparr> else x);
              x = (if jcFinalized cp then x\<lparr>jnFinalized := mput c True (jnFinalized x)\<rparr> else x) in
          (Inr (), x))"

definition Join_sources :: "join \<Rightarrow> joinState worker_scheme sources" where
  "Join_sources w = plainSources (jnCfg w) (Some (ownSource (Join_SnapshotClient w) (Join_RestoreClient w)))"

section \<open>Joining\<close>

definition toQuery2Result :: "Transaction \<Rightarrow> string \<Rightarrow> Query2Result" where
  "toQuery2Result tx bankName =
     \<lparr>q2FromBank = FromBank tx, q2FromAccount = FromAccount tx, q2BankName = bankName, q2AmountPaid = AmountPaid tx\<rparr>"

definition joinResults :: "(string, string) gomap \<Rightarrow> Transaction list \<Rightarrow> Query2Result list" where
  "joinResults bankNames txs =
     concat (map (\<lambda>tx. case mget bankNames (FromBank tx) of None \<Rightarrow> [] | Some n \<Rightarrow> [toQuery2Result tx n]) txs)"

definition joinAndEmit :: "uuid \<Rightarrow> MsgID \<Rightarrow> Transaction list \<Rightarrow> (string, string) gomap \<Rightarrow> (joinState, unit) act" where
  "joinAndEmit c i txs bankNames =
     (let results = joinResults bankNames txs in
      if results = [] then wresult (Inr ())
      else wbind (wresult (EncodeQuery2ResultBatch results)) (\<lambda>payload.
           publishWithID c MsgQuery2Result KeyNil payload (DeriveMsgID i ''q2result'' 0)))"

section \<open>The end of a client\<close>

text \<open>\<open>shouldFinalize\<close> claims the client when it returns true.\<close>

definition shouldFinalize :: "join \<Rightarrow> uuid \<Rightarrow> joinState \<Rightarrow> bool \<times> joinState" where
  "shouldFinalize w c x =
     (if mgetd False (jnFinalized x) c then (False, x)
      else if mgetd 0 (jnEofs x) c \<noteq> PrevWorkerAmount (jnCfg w) then (False, x)
      else if \<not> mgetd False (jnAccountsEof x) c then (False, x)
      else (True, x\<lparr>jnFinalized := mput c True (jnFinalized x)\<rparr>))"

definition finalizeClient :: "join \<Rightarrow> uuid \<Rightarrow> (joinState, unit) act" where
  "finalizeClient w c =
     wbind (publishWithID c MsgQuery2ResultEOF KeyNil [] (StageMsgID c (WorkerPrefix (jnCfg w)) ''eof'' 0)) (\<lambda>_.
     wmodify (updOwn (\<lambda>x. x\<lparr>jnBanks := mdel c (jnBanks x), jnCache := mdel c (jnCache x),
       jnEofs := mdel c (jnEofs x), jnAccountsEof := mdel c (jnAccountsEof x)\<rparr>)))"

definition ownAction :: "('x \<Rightarrow> 'a \<times> 'x) \<Rightarrow> ('x, 'a) act" where
  "ownAction f s = (case f (own s) of (a, x) \<Rightarrow> (Inr a, updOwn (\<lambda>_. x) s))"

section \<open>Handlers\<close>

definition addBank :: "AccountData \<Rightarrow> (string, string) gomap \<Rightarrow> (string, string) gomap" where
  "addBank info m = (if mhas m (adBankID info) then m else mput (adBankID info) (adBankName info) m)"

definition handleAccountsBatch :: "joinState wnode handler" where
  "handleAccountsBatch env =
     (let c = ClientId env in
      wbind (wresult (DecodeAccountBatch (Payload env))) (\<lambda>accounts.
      wmodify (updOwn (\<lambda>x. x\<lparr>jnBanks := mput c (fold addBank accounts (mgetd [] (jnBanks x) c)) (jnBanks x)\<rparr>))))"

fun emitCached :: "uuid \<Rightarrow> (string, string) gomap \<Rightarrow> cachedBatch list \<Rightarrow> (joinState, unit) act" where
  "emitCached c bankNames [] = wresult (Inr ())"
| "emitCached c bankNames (cb # cbs) =
     wbind (joinAndEmit c (cbMsgID cb) (cbTxs cb) bankNames) (\<lambda>_. emitCached c bankNames cbs)"

definition handleAccountsEOF :: "join \<Rightarrow> joinState wnode handler" where
  "handleAccountsEOF w env s =
     (let c = ClientId env in
      wbind (wmodify (updOwn (\<lambda>x. x\<lparr>jnAccountsEof := mput c True (jnAccountsEof x)\<rparr>))) (\<lambda>_.
      wbind (emitCached c (mgetd [] (jnBanks (own s)) c) (mgetd [] (jnCache (own s)) c)) (\<lambda>_.
      wbind (wmodify (updOwn (\<lambda>x. x\<lparr>jnCache := mdel c (jnCache x)\<rparr>))) (\<lambda>_.
      wbind (ownAction (shouldFinalize w c)) (\<lambda>final.
      if final then finalizeClient w c else wresult (Inr ()))))) s)"

definition handleTransactionBatch :: "joinState wnode handler" where
  "handleTransactionBatch env =
     (let c = ClientId env in
      wbind (wresult (DecodeTransactionBatch (Payload env))) (\<lambda>txs s.
      if \<not> mgetd False (jnAccountsEof (own s)) c
      then (Inr (), updOwn (\<lambda>x. x\<lparr>jnCache := mput c (mgetd [] (jnCache x) c @ [\<lparr>cbMsgID = MsgID env, cbTxs = txs\<rparr>]) (jnCache x)\<rparr>) s)
      else joinAndEmit c (MsgID env) txs (mgetd [] (jnBanks (own s)) c) s))"

definition handleTransactionsEOF :: "join \<Rightarrow> joinState wnode handler" where
  "handleTransactionsEOF w env =
     (let c = ClientId env in
      wbind (wmodify (updOwn (\<lambda>x. x\<lparr>jnEofs := mput c (mgetd 0 (jnEofs x) c + 1) (jnEofs x)\<rparr>))) (\<lambda>_.
      wbind (ownAction (shouldFinalize w c)) (\<lambda>final.
      if final then finalizeClient w c else fromIo (coFlush (Join_sources w)))))"

definition joinAccountsHandlers :: "join \<Rightarrow> (MsgType, joinState wnode handler) gomap" where
  "joinAccountsHandlers w = [(MsgAccountsBatch, handleAccountsBatch), (MsgAccountsEOF, handleAccountsEOF w)]"

definition joinTransactionHandlers :: "join \<Rightarrow> (MsgType, joinState wnode handler) gomap" where
  "joinTransactionHandlers w = [(MsgTransactionsBatch, handleTransactionBatch), (MsgTransactionsEOF, handleTransactionsEOF w)]"

definition handleAccountsMessage :: "join \<Rightarrow> joinState dispatcher" where
  "handleAccountsMessage w msg ack = Dispatch nodePub putPub (joinAccountsHandlers w) msg"

definition Join_handleTransactionMessage :: "join \<Rightarrow> joinState dispatcher" where
  "Join_handleTransactionMessage w msg ack = Dispatch nodePub putPub (joinTransactionHandlers w) msg"

text \<open>
  \<open>process\<close>, the callback of both consumers: the errors of \<open>Track\<close>, \<open>Flush\<close> and \<open>Delete\<close> are only
  logged, and a finalized client is forgotten after every message.
\<close>

definition joinProcess :: "join \<Rightarrow> joinState dispatcher \<Rightarrow> Message \<Rightarrow> nat \<Rightarrow> joinState wnode \<Rightarrow> joinState wnode" where
  "joinProcess w handle msg ack s =
     (if nodeDown s then s
      else case handle msg ack s of
        None \<Rightarrow> stopNode s
      | Some (c, t, err, s') \<Rightarrow>
         if nodeDown s' then s'
         else case err of
             Some e \<Rightarrow> callNack ack s'
           | None \<Rightarrow>
               snd (wbind (ignoring (fromIo (Track (Join_sources w) c ack))) (\<lambda>_ s.
                    let finalized = mgetd False (jnFinalized (own s)) c in
                    wbind (if t = MsgTransactionsEOF \<or> finalized then ignoring (fromIo (coFlush (Join_sources w))) else wresult (Inr ())) (\<lambda>_.
                    if finalized
                    then wbind (wmodify (\<lambda>s. putPub (forget c (nodePub s)) s)) (\<lambda>_. ignoring (fromIo (coDelete (Join_sources w) c)))
                    else wresult (Inr ())) s) s'))"

datatype joinQueue = AccountsQueue | ResultsQueue

definition Join_Start :: "join \<Rightarrow> fs \<Rightarrow> net \<Rightarrow> joinState wnode" where
  "Join_Start w = bootNode (jnCfg w) (Join_sources w) newJoinState"

definition Join_Run :: "join \<Rightarrow> (joinQueue \<times> Message \<times> nat) list \<Rightarrow> joinState wnode \<Rightarrow> joinState wnode" where
  "Join_Run w = fold (\<lambda>(q, m, ack). joinProcess w
     (case q of AccountsQueue \<Rightarrow> handleAccountsMessage w | ResultsQueue \<Rightarrow> Join_handleTransactionMessage w) m ack)"

section \<open>The duplicate filter\<close>

lemma Join_quiet: "quietSources (Join_sources w)"
  unfolding Join_sources_def by (intro plainSources_quiet ownSource_pure) (simp add: Join_SnapshotClient_def)

lemma seen_ownAction [keeps_seen]: "seenOf (snd (ownAction f s)) = seenOf s"
  by (auto simp: ownAction_def split: prod.split)

lemma seen_joinAndEmit [keeps_seen]: "seenOf (snd (joinAndEmit c i txs m s)) = seenOf s"
  by (auto simp: joinAndEmit_def Let_def intro!: keeps_seen)

lemma seen_emitCached [keeps_seen]: "seenOf (snd (emitCached c m cbs s)) = seenOf s"
  by (induction cbs arbitrary: s) (auto intro!: keeps_seen)

lemma seen_finalizeClient [keeps_seen]: "seenOf (snd (finalizeClient w c s)) = seenOf s"
  unfolding finalizeClient_def by (intro keeps_seen)

interpretation joinAccounts: publisher_host nodePub putPub "joinAccountsHandlers w"
  by (rule publisher_hostI)
    (auto simp: joinAccountsHandlers_def handleAccountsBatch_def handleAccountsEOF_def Let_def intro!: keeps_seen)

interpretation joinTransactions: publisher_host nodePub putPub "joinTransactionHandlers w"
  by (rule publisher_hostI)
    (auto simp: joinTransactionHandlers_def handleTransactionBatch_def handleTransactionsEOF_def Let_def
        intro!: keeps_seen Join_quiet)

section \<open>What the join publishes\<close>

text \<open>
  The messages of one client, as their handlers get them, and the orders in which they may come: the
  accounts end once, after all accounts; \<open>k\<close> ends of the transactions are due, and no transactions
  come after the last of them. The two queues may interleave in any way.
\<close>

datatype joinEvent =
    JoinAccounts InternalEnvelope | JoinAccountsEnd InternalEnvelope
  | JoinTxs InternalEnvelope | JoinTxsEnd InternalEnvelope

fun joinStep :: "join \<Rightarrow> joinEvent \<Rightarrow> joinState wnode \<Rightarrow> joinState wnode" where
  "joinStep w (JoinAccounts env) s = snd (handleAccountsBatch env s)"
| "joinStep w (JoinAccountsEnd env) s = snd (handleAccountsEOF w env s)"
| "joinStep w (JoinTxs env) s = snd (handleTransactionBatch env s)"
| "joinStep w (JoinTxsEnd env) s = snd (handleTransactionsEOF w env s)"

fun feedOk :: "bool \<Rightarrow> nat \<Rightarrow> joinEvent list \<Rightarrow> bool" where
  "feedOk ended k [] = (ended \<and> k = 0)"
| "feedOk ended k (JoinAccounts env # evs) = (\<not> ended \<and> feedOk ended k evs)"
| "feedOk ended k (JoinAccountsEnd env # evs) = (\<not> ended \<and> feedOk True k evs)"
| "feedOk ended k (JoinTxs env # evs) = (0 < k \<and> feedOk ended k evs)"
| "feedOk ended k (JoinTxsEnd env # evs) = (0 < k \<and> feedOk ended (k - 1) evs)"

fun joinEventOk :: "uuid \<Rightarrow> joinEvent \<Rightarrow> bool" where
  "joinEventOk c (JoinAccounts env) = (ClientId env = c \<and> \<not> isl (DecodeAccountBatch (Payload env)))"
| "joinEventOk c (JoinAccountsEnd env) = (ClientId env = c)"
| "joinEventOk c (JoinTxs env) = (ClientId env = c \<and> \<not> isl (DecodeTransactionBatch (Payload env)))"
| "joinEventOk c (JoinTxsEnd env) = (ClientId env = c)"

text \<open>The table of banks and the batches of transactions in a list of events.\<close>

fun addBanks :: "joinEvent \<Rightarrow> (string, string) gomap \<Rightarrow> (string, string) gomap" where
  "addBanks (JoinAccounts env) m = fold addBank (projr (DecodeAccountBatch (Payload env))) m"
| "addBanks ev m = m"

fun batchIn :: "joinEvent \<Rightarrow> cachedBatch list" where
  "batchIn (JoinTxs env) = [\<lparr>cbMsgID = MsgID env, cbTxs = projr (DecodeTransactionBatch (Payload env))\<rparr>]"
| "batchIn ev = []"

definition batchesIn :: "joinEvent list \<Rightarrow> cachedBatch list" where
  "batchesIn evs = concat (map batchIn evs)"

text \<open>The specification: one message for every batch that joins with some bank, in the order of arrival.\<close>

definition joinMessage :: "uuid \<Rightarrow> (string, string) gomap \<Rightarrow> cachedBatch \<Rightarrow> Message list" where
  "joinMessage c m cb =
     (let results = joinResults m (cbTxs cb) in
      if results = [] then []
      else [internalMessage c MsgQuery2Result KeyNil (projr (EncodeQuery2ResultBatch results)) (DeriveMsgID (cbMsgID cb) ''q2result'' 0)])"

definition joinMessages :: "uuid \<Rightarrow> (string, string) gomap \<Rightarrow> cachedBatch list \<Rightarrow> Message list" where
  "joinMessages c m cbs = concat (map (joinMessage c m) cbs)"

definition joinEnd :: "join \<Rightarrow> uuid \<Rightarrow> Message" where
  "joinEnd w c = internalMessage c MsgQuery2ResultEOF KeyNil [] (StageMsgID c (WorkerPrefix (jnCfg w)) ''eof'' 0)"

lemma joinResults_encode:
  assumes "\<forall>tx \<in> set txs. wireTx tx"
  shows "\<exists>b. EncodeQuery2ResultBatch (joinResults m txs) = Inr b"
proof -
  have "\<exists>b. encodeQuery2Result q = Inr b \<and> length b \<le> MaxUint16" if "q \<in> set (joinResults m txs)" for q
    using assms that
    by (auto simp: joinResults_def toQuery2Result_def wireTx_def encodeQuery2Result_def encodeTransactionAccount_def writeString_def
        writeFloat64_def MaxUint16_def split: option.splits)
  thus ?thesis using encodeItems_ok [of "joinResults m txs" encodeQuery2Result "''result''" 0]
    by (auto simp: EncodeQuery2ResultBatch_def encodeBatch_def)
qed

definition brokerUp :: "'x wnode \<Rightarrow> bool" where
  "brokerUp s \<longleftrightarrow> outcomes (nodeNet s) = []"

lemma joinAndEmit_brokerUp:
  assumes "\<forall>tx \<in> set txs. wireTx tx" "brokerUp s"
  shows "\<exists>s'. joinAndEmit c i txs m s = (Inr (), s') \<and> brokerUp s' \<and> own s' = own s
    \<and> outbox s' = outbox s @ joinMessage c m \<lparr>cbMsgID = i, cbTxs = txs\<rparr>"
proof (cases "joinResults m txs = []")
  case False
  obtain b where b: "EncodeQuery2ResultBatch (joinResults m txs) = Inr b" using joinResults_encode [OF assms(1)] by blast
  obtain s' where "publishWithID c MsgQuery2Result KeyNil b (DeriveMsgID i ''q2result'' 0) s = (Inr (), s')" "own s' = own s"
    "outbox s' = outbox s @ [internalMessage c MsgQuery2Result KeyNil b (DeriveMsgID i ''q2result'' 0)]" "brokerUp s'"
    using publishWithID_works [of s c MsgQuery2Result KeyNil b "DeriveMsgID i ''q2result'' 0"] assms(2)
    by (auto simp: brokerUp_def)
  thus ?thesis using False b by (simp add: joinAndEmit_def joinMessage_def Let_def wbind_def wresult_def)
qed (simp_all add: assms joinAndEmit_def joinMessage_def Let_def wresult_def)

lemma emitCached_brokerUp:
  assumes "\<forall>cb \<in> set cbs. \<forall>tx \<in> set (cbTxs cb). wireTx tx" "brokerUp s"
  shows "\<exists>s'. emitCached c m cbs s = (Inr (), s') \<and> brokerUp s' \<and> own s' = own s
    \<and> outbox s' = outbox s @ joinMessages c m cbs"
  using assms
proof (induction cbs arbitrary: s)
  case (Cons cb cbs)
  obtain s1 where s1: "joinAndEmit c (cbMsgID cb) (cbTxs cb) m s = (Inr (), s1)" "brokerUp s1" "own s1 = own s"
    "outbox s1 = outbox s @ joinMessage c m cb"
    using joinAndEmit_brokerUp [of "cbTxs cb" s c "cbMsgID cb" m] Cons.prems by (cases cb) auto
  thus ?case using Cons.IH [of s1] Cons.prems by (auto simp: wbind_def joinMessages_def)
qed (simp add: wresult_def joinMessages_def)

lemma finalize_brokerUp:
  assumes "brokerUp s"
  shows "outbox (snd (finalizeClient w c s)) = outbox s @ [joinEnd w c]"
  using publishWithID_works [of s c MsgQuery2ResultEOF KeyNil "[]" "StageMsgID c (WorkerPrefix (jnCfg w)) ''eof'' 0"] assms
  by (auto simp: brokerUp_def finalizeClient_def wbind_def wmodify_def joinEnd_def)

text \<open>
  Where the worker stands after the events \<open>p\<close>: \<open>ended\<close> tells whether the accounts have ended, \<open>k\<close> ends
  of the transactions are missing, and \<open>out\<close> was published before.
\<close>

definition joinReached :: "join \<Rightarrow> uuid \<Rightarrow> Message list \<Rightarrow> bool \<Rightarrow> nat \<Rightarrow> joinEvent list \<Rightarrow> joinState wnode \<Rightarrow> bool" where
  "joinReached w c out ended k p s \<longleftrightarrow>
     (if ended \<and> k = 0 then outbox s = out @ joinMessages c (fold addBanks p []) (batchesIn p) @ [joinEnd w c]
      else brokerUp s \<and> \<not> mgetd False (jnFinalized (own s)) c
       \<and> mgetd 0 (jnEofs (own s)) c + int k = PrevWorkerAmount (jnCfg w)
       \<and> mgetd False (jnAccountsEof (own s)) c = ended \<and> mgetd [] (jnBanks (own s)) c = fold addBanks p []
       \<and> (if ended then mgetd [] (jnCache (own s)) c = [] \<and> outbox s = out @ joinMessages c (fold addBanks p []) (batchesIn p)
          else mgetd [] (jnCache (own s)) c = batchesIn p \<and> outbox s = out))"

lemma brokerUp_updOwn [simp]: "brokerUp (updOwn f s) = brokerUp s"
  by (simp add: brokerUp_def)

lemma batchesIn_append [simp]: "batchesIn (p @ q) = batchesIn p @ batchesIn q"
  and batchesIn_one [simp]: "batchesIn [ev] = batchIn ev"
  and joinMessages_append [simp]: "joinMessages c m (cbs @ cbs') = joinMessages c m cbs @ joinMessages c m cbs'"
  by (simp_all add: batchesIn_def joinMessages_def)

lemma batchesIn_wire:
  "\<forall>ev \<in> set p. joinEventOk c ev \<Longrightarrow> \<forall>cb \<in> set (batchesIn p). \<forall>tx \<in> set (cbTxs cb). wireTx tx"
proof (induction p)
  case (Cons ev p)
  have "\<forall>cb \<in> set (batchIn ev). \<forall>tx \<in> set (cbTxs cb). wireTx tx"
  proof (cases ev)
    case (JoinTxs env)
    then obtain txs where "DecodeTransactionBatch (Payload env) = Inr txs"
      using Cons.prems by (cases "DecodeTransactionBatch (Payload env)") auto
    thus ?thesis using DecodeTransactionBatch_wire JoinTxs by auto
  qed simp_all
  thus ?case using Cons by (auto simp: batchesIn_def)
qed (simp add: batchesIn_def)

lemma reached_accounts:
  assumes "joinReached w c out False k p s" "joinEventOk c (JoinAccounts env)"
  shows "joinReached w c out False k (p @ [JoinAccounts env]) (joinStep w (JoinAccounts env) s)"
proof -
  obtain accounts where "DecodeAccountBatch (Payload env) = Inr accounts"
    using assms(2) by (cases "DecodeAccountBatch (Payload env)") auto
  thus ?thesis
    using assms by (auto simp: joinReached_def handleAccountsBatch_def wbind_def wresult_def wmodify_def Let_def)
qed

lemma flush_brokerUp: "brokerUp s \<Longrightarrow> brokerUp (snd (fromIo (coFlush (Join_sources w)) s))"
proof -
  have "sameWork (coHost s) (coHost (snd (coFlush (Join_sources w) s)))"
    using quiet_flush [OF Join_quiet] unfolding keepsWork_def by blast
  thus "brokerUp s \<Longrightarrow> brokerUp (snd (fromIo (coFlush (Join_sources w)) s))"
    by (auto simp: fromIo_def sameWork_def wpanic_def stopNode_def updHost_def brokerUp_def split: prod.splits io.splits)
qed

lemma reached_end:
  assumes "joinReached w c out ended (Suc k) p s" and env: "ClientId env = c"
  shows "joinReached w c out ended k (p @ [JoinTxsEnd env]) (joinStep w (JoinTxsEnd env) s)"
proof -
  let ?s = "updOwn (\<lambda>x. x\<lparr>jnEofs := mput c (mgetd 0 (jnEofs x) c + 1) (jnEofs x)\<rparr>) s"
  let ?f = "snd (fromIo (coFlush (Join_sources w)) ?s)"
  note flushed = outbox_flush [OF Join_quiet, of w ?s] flush_brokerUp [of ?s w]
  show ?thesis
  proof (cases "ended \<and> k = 0")
    case True
    let ?t = "updOwn (\<lambda>_. (own ?s)\<lparr>jnFinalized := mput c True (jnFinalized (own ?s))\<rparr>) ?s"
    have "joinStep w (JoinTxsEnd env) s = snd (finalizeClient w c ?t)"
      using assms True by (simp add: env joinReached_def handleTransactionsEOF_def wbind_def wmodify_def ownAction_def shouldFinalize_def Let_def)
    thus ?thesis using assms True finalize_brokerUp [of ?t w c] by (simp add: joinReached_def)
  next
    case False
    hence "ownAction (shouldFinalize w c) ?s = (Inr False, ?s)"
      using assms updOwn_same [of ?s] by (auto simp: joinReached_def ownAction_def shouldFinalize_def)
    hence "joinStep w (JoinTxsEnd env) s = ?f"
      by (simp add: env handleTransactionsEOF_def wbind_def wmodify_def Let_def)
    thus ?thesis using assms False flushed by (auto simp: joinReached_def)
  qed
qed

lemma reached_txs:
  assumes "joinReached w c out ended (Suc k) p s" "joinEventOk c (JoinTxs env)"
  shows "joinReached w c out ended (Suc k) (p @ [JoinTxs env]) (joinStep w (JoinTxs env) s)"
proof -
  obtain txs where txs: "DecodeTransactionBatch (Payload env) = Inr txs"
    using assms(2) by (cases "DecodeTransactionBatch (Payload env)") auto
  show ?thesis
  proof (cases ended)
    case True
    have "brokerUp s" using assms(1) by (simp add: joinReached_def)
    then obtain s' where "joinAndEmit c (MsgID env) txs (fold addBanks p []) s = (Inr (), s')" "brokerUp s'" "own s' = own s"
      "outbox s' = outbox s @ joinMessage c (fold addBanks p []) \<lparr>cbMsgID = MsgID env, cbTxs = txs\<rparr>"
      using joinAndEmit_brokerUp [of txs s c "MsgID env"] DecodeTransactionBatch_wire [OF txs] by blast
    thus ?thesis using assms txs True
      by (simp add: joinReached_def handleTransactionBatch_def wbind_def wresult_def Let_def joinMessages_def)
  next
    case False
    thus ?thesis using assms txs
      by (simp add: joinReached_def handleTransactionBatch_def wbind_def wresult_def Let_def)
  qed
qed

lemma reached_accountsEnd:
  assumes "joinReached w c out False k p s" "ClientId env = c" "\<forall>ev \<in> set p. joinEventOk c ev"
  shows "joinReached w c out True k (p @ [JoinAccountsEnd env]) (joinStep w (JoinAccountsEnd env) s)"
proof -
  let ?m = "fold addBanks p []" and ?cbs = "batchesIn p"
  let ?s = "updOwn (\<lambda>x. x\<lparr>jnAccountsEof := mput c True (jnAccountsEof x)\<rparr>) s"
  have st: "brokerUp s" "\<not> mgetd False (jnFinalized (own s)) c" "mgetd 0 (jnEofs (own s)) c + int k = PrevWorkerAmount (jnCfg w)"
    "mgetd [] (jnBanks (own s)) c = ?m" "mgetd [] (jnCache (own s)) c = ?cbs" "outbox s = out"
    using assms(1) by (auto simp: joinReached_def)
  obtain s1 where s1: "emitCached c ?m ?cbs ?s = (Inr (), s1)" "brokerUp s1" "own s1 = own ?s" "outbox s1 = out @ joinMessages c ?m ?cbs"
    using emitCached_brokerUp [OF batchesIn_wire [OF assms(3)], of ?s c ?m] st by auto
  let ?t = "updOwn (\<lambda>x. x\<lparr>jnCache := mdel c (jnCache x)\<rparr>) s1"
  have run: "joinStep w (JoinAccountsEnd env) s =
      snd (wbind (ownAction (shouldFinalize w c)) (\<lambda>final. if final then finalizeClient w c else wresult (Inr ())) ?t)"
    using s1(1) by (simp add: handleAccountsEOF_def assms(2) st Let_def wbind_def wmodify_def)
  show ?thesis
  proof (cases "k = 0")
    case True
    hence "ownAction (shouldFinalize w c) ?t = (Inr True, updOwn (\<lambda>_. (own ?t)\<lparr>jnFinalized := mput c True (jnFinalized (own ?t))\<rparr>) ?t)"
      using st s1(3) by (simp add: ownAction_def shouldFinalize_def)
    thus ?thesis using True s1 run
        finalize_brokerUp [of "updOwn (\<lambda>_. (own ?t)\<lparr>jnFinalized := mput c True (jnFinalized (own ?t))\<rparr>) ?t" w c]
      by (simp add: joinReached_def wbind_def del: updOwn_updOwn)
  next
    case False
    hence "ownAction (shouldFinalize w c) ?t = (Inr False, ?t)"
      using st s1(3) updOwn_same [of ?t] by (simp add: ownAction_def shouldFinalize_def)
    thus ?thesis using False st s1 run by (simp add: joinReached_def wbind_def wresult_def)
  qed
qed

lemma feed_reaches_end:
  assumes "feedOk ended k evs" "joinReached w c out ended k p s" "\<forall>ev \<in> set (p @ evs). joinEventOk c ev"
  shows "joinReached w c out True 0 (p @ evs) (fold (joinStep w) evs s)"
  using assms
proof (induction evs arbitrary: ended k p s)
  case (Cons ev evs)
  have ok: "joinEventOk c ev" "\<forall>e \<in> set p. joinEventOk c e" "\<forall>e \<in> set ((p @ [ev]) @ evs). joinEventOk c e" using Cons.prems(3) by auto
  obtain ended' k' where next': "feedOk ended' k' evs" "joinReached w c out ended' k' (p @ [ev]) (joinStep w ev s)"
  proof (cases ev)
    case (JoinAccounts env)
    thus ?thesis using that [of False k] reached_accounts [of w c out k p s env] Cons.prems ok by auto
  next
    case (JoinAccountsEnd env)
    thus ?thesis using that [of True k] reached_accountsEnd [of w c out k p s env] Cons.prems ok by auto
  next
    case (JoinTxs env)
    moreover from this obtain k0 where "k = Suc k0" using Cons.prems(1) by (cases k) auto
    ultimately show ?thesis using that [of ended k] reached_txs [of w c out ended k0 p s env] Cons.prems ok by auto
  next
    case (JoinTxsEnd env)
    moreover from this obtain k0 where "k = Suc k0" using Cons.prems(1) by (cases k) auto
    ultimately show ?thesis using that [of ended k0] reached_end [of w c out ended k0 p s env] Cons.prems ok by auto
  qed
  show ?case using Cons.IH [OF next' ok(3)] by simp
qed simp

text \<open>
  C4. Query 2 is the join of its two inputs: however the accounts and the transactions of a client
  interleave, the join publishes one message for every batch with a known bank, in the order the batches
  came, with the names of the complete table and under an id of the batch, and then the end of the query
  exactly once. Faults of the disk change none of it.
\<close>

theorem join_publishes_the_join:
  assumes "feedOk False (nat (PrevWorkerAmount (jnCfg w))) evs" "0 \<le> PrevWorkerAmount (jnCfg w)"
    and "\<forall>ev \<in> set evs. joinEventOk c ev" "own s = newJoinState" "brokerUp s"
  shows "outbox (fold (joinStep w) evs s) = outbox s @ joinMessages c (fold addBanks evs []) (batchesIn evs) @ [joinEnd w c]"
proof -
  have "joinReached w c (outbox s) False (nat (PrevWorkerAmount (jnCfg w))) [] s"
    using assms(2,4,5) by (simp add: joinReached_def newJoinState_def mgetd_def batchesIn_def)
  from feed_reaches_end [OF assms(1) this] assms(3) show ?thesis by (simp add: joinReached_def)
qed

definition exampleJoin :: join where
  "exampleJoin = \<lparr>jnCfg = exampleCfg\<lparr>PrevWorkerAmount := 2\<rparr>, jnMarshal = (\<lambda>_. Inr []), jnUnmarshal = (\<lambda>_. Inl ErrEOF)\<rparr>"

definition joinEnv :: "bytes \<Rightarrow> InternalEnvelope" where
  "joinEnv payload = \<lparr>MsgType = 0, ClientId = replicate 16 7, MsgID = replicate 16 1, Payload = payload\<rparr>"

definition exampleAccount :: AccountData where
  "exampleAccount = \<lparr>adBankName = ''First Bank'', adBankID = ''10'', adAccountNumber = ''8000EBD30'', adEntityID = ''1'', adEntityName = ''A''\<rparr>"

definition exampleFeed :: "bytes \<Rightarrow> joinEvent list" where
  "exampleFeed accounts =
     [JoinTxs (joinEnv exampleBatch), JoinTxsEnd (joinEnv []), JoinAccounts (joinEnv accounts), JoinAccountsEnd (joinEnv []),
      JoinTxs (joinEnv exampleBatch), JoinTxsEnd (joinEnv [])]"

definition freshJoin :: "joinState wnode" where
  "freshJoin = NewCoordinator (newHost exampleCfg newJoinState \<lparr>outcomes = [], sent = []\<rparr>) \<lparr>files = [], script = [EvErr 0]\<rparr> 1"

lemma exampleAccounts: "\<exists>b. EncodeAccountBatch [exampleAccount] = Inr b \<and> DecodeAccountBatch b = Inr [exampleAccount]"
proof -
  have "\<exists>b. EncodeAccountBatch [exampleAccount] = Inr b"
    by (simp add: EncodeAccountBatch_def encodeBatch_def encodeAccountData_def exampleAccount_def writeString_def MaxUint16_def)
  thus ?thesis using accountData.decodeBatch_encodeBatch_exact [of "[exampleAccount]"]
    by (auto simp: EncodeAccountBatch_def DecodeAccountBatch_def)
qed

lemma join_publishes_the_join_witness:
  "\<exists>accounts. length (outbox (fold (joinStep exampleJoin) (exampleFeed accounts) freshJoin)) = 3"
proof -
  obtain accounts where a: "DecodeAccountBatch accounts = Inr [exampleAccount]" using exampleAccounts by blast
  have batch: "DecodeTransactionBatch exampleBatch = Inr [exampleTx]" by (rule exampleBatch(2))
  have ok: "\<forall>ev \<in> set (exampleFeed accounts). joinEventOk (replicate 16 7) ev"
    by (simp add: exampleFeed_def joinEnv_def batch a)
  have "joinResults [(''10'', n)] [exampleTx] \<noteq> []" for n by (simp add: joinResults_def exampleTx_def)
  hence "length (joinMessage c [(''10'', n)] \<lparr>cbMsgID = i, cbTxs = [exampleTx]\<rparr>) = 1" for c n i
    by (simp add: joinMessage_def Let_def)
  hence ms: "length (joinMessages (replicate 16 7) (fold addBanks (exampleFeed accounts) []) (batchesIn (exampleFeed accounts))) = 2"
    by (simp add: exampleFeed_def batchesIn_def joinMessages_def joinEnv_def batch a addBank_def exampleAccount_def)
  have prev: "PrevWorkerAmount (jnCfg exampleJoin) = 2" by (simp add: exampleJoin_def)
  have fresh: "own freshJoin = newJoinState" "brokerUp freshJoin" "outbox freshJoin = []"
    by (simp_all add: freshJoin_def own_def brokerUp_def outbox_def NewCoordinator_def newHost_def)
  have "feedOk False 2 (exampleFeed accounts)" by (simp add: exampleFeed_def)
  hence "length (outbox (fold (joinStep exampleJoin) (exampleFeed accounts) freshJoin)) = 3"
    using join_publishes_the_join [of exampleJoin "exampleFeed accounts" "replicate 16 7" freshJoin] ok ms prev fresh by simp
  thus ?thesis ..
qed

section \<open>A failed end\<close>

lemma finalized_stays:
  assumes "mgetd False (jnFinalized (own s)) c" "\<forall>env \<in> set envs. ClientId env = c"
  shows "outbox (fold (\<lambda>env s. snd (handleTransactionsEOF w env s)) envs s) = outbox s"
  using assms
proof (induction envs arbitrary: s)
  case (Cons env envs)
  let ?s = "updOwn (\<lambda>x. x\<lparr>jnEofs := mput c (mgetd 0 (jnEofs x) c + 1) (jnEofs x)\<rparr>) s"
  have "ownAction (shouldFinalize w c) ?s = (Inr False, ?s)"
    using Cons.prems(1) updOwn_same [of ?s] by (simp add: ownAction_def shouldFinalize_def)
  hence "snd (handleTransactionsEOF w env s) = snd (fromIo (coFlush (Join_sources w)) ?s)"
    using Cons.prems(2) by (simp add: handleTransactionsEOF_def wbind_def wmodify_def Let_def)
  thus ?case using Cons.IH [of "snd (handleTransactionsEOF w env s)"] Cons.prems outbox_flush [OF Join_quiet, of w ?s] by simp
qed simp

text \<open>
  C20. The end of query 2 can be lost: the worker claims the client before it publishes the end, so when
  the broker refuses that one message the handler reports an error with nothing sent, and however often
  the EOF is delivered again nothing is ever sent for it.
\<close>

theorem join_loses_end_on_failed_publish:
  assumes "mgetd 0 (jnEofs (own s)) (ClientId env) + 1 = PrevWorkerAmount (jnCfg w)"
    and "mgetd False (jnAccountsEof (own s)) (ClientId env)" "\<not> mgetd False (jnFinalized (own s)) (ClientId env)"
    and "outcomes (nodeNet s) = False # os"
  shows "\<exists>e s1. handleTransactionsEOF w env s = (Inl e, s1)
   \<and> outbox (fold (\<lambda>env s. snd (handleTransactionsEOF w env s)) (replicate n env) s1) = outbox s"
proof -
  let ?c = "ClientId env"
  let ?s = "updOwn (\<lambda>x. x\<lparr>jnEofs := mput ?c (mgetd 0 (jnEofs x) ?c + 1) (jnEofs x)\<rparr>) s"
  let ?t = "updOwn (\<lambda>_. (own ?s)\<lparr>jnFinalized := mput ?c True (jnFinalized (own ?s))\<rparr>) ?s"
  have claim: "ownAction (shouldFinalize w ?c) ?s = (Inr True, ?t)"
    using assms(1-3) by (simp add: ownAction_def shouldFinalize_def)
  obtain e s1 where s1: "publishWithID ?c MsgQuery2ResultEOF KeyNil [] (StageMsgID ?c (WorkerPrefix (jnCfg w)) ''eof'' 0) ?t = (Inl e, s1)"
    "own s1 = own ?t" "outbox s1 = outbox s"
    using publishWithID_fails [of ?t os ?c MsgQuery2ResultEOF KeyNil "[]" "StageMsgID ?c (WorkerPrefix (jnCfg w)) ''eof'' 0"] assms(4) by auto
  have "handleTransactionsEOF w env s = (Inl e, s1)"
    using claim s1(1) by (simp add: handleTransactionsEOF_def finalizeClient_def wbind_def wmodify_def Let_def del: updOwn_updOwn)
  moreover have "outbox (fold (\<lambda>env s. snd (handleTransactionsEOF w env s)) (replicate n env) s1) = outbox s1"
    using s1(2) by (intro finalized_stays [of _ ?c]) (simp_all del: updOwn_updOwn)
  ultimately show ?thesis using s1(3) by auto
qed

definition lastEofDue :: "joinState wnode" where
  "lastEofDue = NewCoordinator (newHost exampleCfg
     (newJoinState\<lparr>jnEofs := [(replicate 16 7, 1)], jnAccountsEof := [(replicate 16 7, True)]\<rparr>)
     \<lparr>outcomes = [False], sent = []\<rparr>) \<lparr>files = [], script = []\<rparr> 1"

lemma join_loses_end_on_failed_publish_witness:
  "outbox (snd (handleTransactionsEOF exampleJoin (joinEnv []) (snd (handleTransactionsEOF exampleJoin (joinEnv []) lastEofDue)))) = []"
  using join_loses_end_on_failed_publish [of lastEofDue "joinEnv []" exampleJoin "[]" 1]
  by (auto simp: lastEofDue_def own_def outbox_def NewCoordinator_def newHost_def newJoinState_def joinEnv_def exampleJoin_def mgetd_def)

end
