(* ===== verification/Query5.thy ===== *)
theory Query5
  imports Barrier Constructors
begin

text \<open>
  \<open>workers/filter/q5_filter.go\<close>: the filter in front of query 5. It counts what it receives and sends for
  a client and, after the EOF of every replica of the previous stage, announces what it sent. \<open>Q5Filter\<close>
  implements \<open>Checkpointable\<close>, but \<open>Run\<close> hands the coordinator no state source.
\<close>

section \<open>State\<close>

record q5State =
  q5Eofs :: "(uuid, int) gomap"
  q5Received :: "(uuid, goint) gomap"
  q5Sent :: "(uuid, goint) gomap"
  q5Expected :: "(uuid, goint) gomap"

record q5Checkpoint =
  qcWorkerEof :: int
  qcReceived :: goint
  qcSent :: goint
  qcExpected :: goint

record q5Filter =
  q5Cfg :: workerCfg
  q5Type :: string
  q5Operator :: string
  q5Float :: float64
  q5Strings :: "string list"

definition newQ5State :: q5State where
  "newQ5State = \<lparr>q5Eofs = [], q5Received = [], q5Sent = [], q5Expected = []\<rparr>"

definition NewQ5Filter :: "workerCfg \<Rightarrow> q5Filter result" where
  "NewQ5Filter cfg =
     rbind (stringParam (Errorf ''Invalid type parameter for Q5Filter'' []) cfg ''type'') (\<lambda>type.
     rbind (stringParam (Errorf ''Invalid field parameter for Q5Filter'' []) cfg ''field'') (\<lambda>_.
     rbind (stringParam (Errorf ''Invalid operator parameter for Q5Filter'' []) cfg ''operator'') (\<lambda>operator.
     rbind (floatParam (Errorf ''Invalid value_float parameter for Q5Filter'' []) cfg ''value_float'') (\<lambda>x.
     rbind (parseValueStrings (mget (Params cfg) ''value_string'')) (\<lambda>values.
     if PrevWorkerAmount cfg \<le> 0 then Inl (Errorf ''Q5Filter requires PREV_WORKER_AMOUNT to be set'' [])
     else Inr \<lparr>q5Cfg = cfg, q5Type = type, q5Operator = operator, q5Float = x, q5Strings = values\<rparr>)))))"

definition Q5_SnapshotClient :: "(q5Checkpoint \<Rightarrow> bytes result) \<Rightarrow> uuid \<Rightarrow> q5State \<Rightarrow> bytes result \<times> q5State" where
  "Q5_SnapshotClient marshal c x =
     (marshal \<lparr>qcWorkerEof = mgetd 0 (q5Eofs x) c, qcReceived = mgetd 0 (q5Received x) c, qcSent = mgetd 0 (q5Sent x) c,
               qcExpected = mgetd 0 (q5Expected x) c\<rparr>, x)"

definition Q5_RestoreClient :: "(bytes \<Rightarrow> q5Checkpoint result) \<Rightarrow> uuid \<Rightarrow> bytes \<Rightarrow> q5State \<Rightarrow> unit result \<times> q5State" where
  "Q5_RestoreClient unmarshal c data x =
     (if data = [] then (Inr (), x)
      else case unmarshal data of
        Inl e \<Rightarrow> (Inl e, x)
      | Inr cp \<Rightarrow>
          (Inr (), x\<lparr>q5Eofs := mput c (qcWorkerEof cp) (q5Eofs x), q5Received := mput c (qcReceived cp) (q5Received x),
                     q5Sent := mput c (qcSent cp) (q5Sent x), q5Expected := mput c (qcExpected cp) (q5Expected x)\<rparr>))"

definition Q5_sources :: "q5Filter \<Rightarrow> q5State worker_scheme sources" where
  "Q5_sources w = plainSources (q5Cfg w) None"

definition q5Forget :: "uuid \<Rightarrow> q5State \<Rightarrow> q5State" where
  "q5Forget c x = x\<lparr>q5Eofs := mdel c (q5Eofs x), q5Received := mdel c (q5Received x),
     q5Sent := mdel c (q5Sent x), q5Expected := mdel c (q5Expected x)\<rparr>"

section \<open>Handlers\<close>

definition Q5_encodeAndSendBatch :: "uuid \<Rightarrow> MsgType \<Rightarrow> bytes \<Rightarrow> nat \<Rightarrow> MsgID \<Rightarrow> (q5State, unit) act" where
  "Q5_encodeAndSendBatch c t payload batchLength i =
     wbind (publishWithID c t KeyNil payload i) (\<lambda>_.
     wmodify (updOwn (\<lambda>x. x\<lparr>q5Sent := mput c (mgetd 0 (q5Sent x) c + word_of_nat batchLength) (q5Sent x)\<rparr>)))"

definition Q5_handleTransactionMessage :: "q5Filter \<Rightarrow> q5State wnode handler" where
  "Q5_handleTransactionMessage w env =
     (let c = ClientId env in
      wbind (wresult (DecodeTransactionBatch (Payload env))) (\<lambda>txs.
      wbind (wmodify (updOwn (\<lambda>x. x\<lparr>q5Received := mput c (mgetd 0 (q5Received x) c + word_of_nat (length txs)) (q5Received x)\<rparr>))) (\<lambda>_.
      let filtered = filter (\<lambda>tx. filterTransaction tx (q5Type w) (q5Operator w) (q5Float w) (q5Strings w)) txs in
      if filtered = [] then wresult (Inr ())
      else wbind (wresult (wrapf ''encoding filtered transaction batch'' [] (EncodeTransactionBatch filtered))) (\<lambda>payload.
           Q5_encodeAndSendBatch c MsgTransactionsBatch payload (length filtered) (DeriveMsgID (MsgID env) KeyNil 0)))))"

text \<open>A mismatch between the received and the announced count is only logged.\<close>

definition Q5_close :: "q5Filter \<Rightarrow> uuid \<Rightarrow> (q5State, unit) act" where
  "Q5_close w c s =
     wbind (wresult (wrapf ''encoding EOF counts for EOF envelope'' [] (EncodeEOFCounts [(KeyNil, mgetd 0 (q5Sent (own s)) c)]))) (\<lambda>payload.
     wbind (wwrap ''sending EOF message to broker'' (publishWithID c MsgTransactionsEOF KeyControlEOF payload (eofMsgID (q5Cfg w) c))) (\<lambda>_.
     wmodify (updOwn (q5Forget c)))) s"

definition Q5_handleEOFMessage :: "q5Filter \<Rightarrow> q5State wnode handler" where
  "Q5_handleEOFMessage w env =
     (let c = ClientId env in
      wbind (wresult (DecodeEOFCounts (Payload env))) (\<lambda>counts.
      if IsFlushEOF counts
      then wbind (wmodify (updOwn (q5Forget c))) (\<lambda>_. forwardFlushEOF (q5Cfg w) (Q5_sources w) c)
      else wbind (wmodify (updOwn (\<lambda>x. x\<lparr>q5Eofs := mput c (mgetd 0 (q5Eofs x) c + 1) (q5Eofs x),
               q5Expected := mput c (mgetd 0 (q5Expected x) c + mgetd 0 counts KeyNil) (q5Expected x)\<rparr>))) (\<lambda>_ s.
           wbind (if mgetd 0 (q5Eofs (own s)) c = PrevWorkerAmount (q5Cfg w) then Q5_close w c else wresult (Inr ())) (\<lambda>_.
           fromIo (coFlush (Q5_sources w))) s)))"

definition Q5_handlers :: "q5Filter \<Rightarrow> (MsgType, q5State wnode handler) gomap" where
  "Q5_handlers w = [(MsgTransactionsBatch, Q5_handleTransactionMessage w), (MsgTransactionsEOF, Q5_handleEOFMessage w)]"

definition Q5_handleMessage :: "q5Filter \<Rightarrow> q5State dispatcher" where
  "Q5_handleMessage w msg ack = Dispatch nodePub putPub (Q5_handlers w) msg"

definition Q5_counting :: "uuid \<Rightarrow> q5State \<Rightarrow> bool" where
  "Q5_counting c x \<longleftrightarrow> mhas (q5Eofs x) c"

definition Q5_Start :: "q5Filter \<Rightarrow> fs \<Rightarrow> net \<Rightarrow> q5State wnode" where
  "Q5_Start w = bootNode (q5Cfg w) (Q5_sources w) newQ5State"

definition Q5_Run :: "q5Filter \<Rightarrow> (Message \<times> nat) list \<Rightarrow> q5State wnode \<Rightarrow> q5State wnode" where
  "Q5_Run w = fold (\<lambda>(m, ack). consumeEof (Q5_sources w) (Q5_handleMessage w) Q5_counting noCleanup m ack)"

section \<open>Contracts\<close>

lemma Q5_quiet: "quietSources (Q5_sources w)"
  unfolding Q5_sources_def by (intro plainSources_quiet) (simp add: pureState_def)

interpretation q5: publisher_host nodePub putPub "Q5_handlers w"
  by (rule publisher_hostI)
    (auto simp: Q5_handlers_def Q5_handleTransactionMessage_def Q5_handleEOFMessage_def Let_def Q5_close_def
        Q5_encodeAndSendBatch_def forwardFlushEOF_def intro!: keeps_seen Q5_quiet)

lemma Q5_waits:
  assumes "DecodeEOFCounts (Payload env) = Inr counts" "\<not> IsFlushEOF counts"
    and "mgetd 0 (q5Eofs (own s)) (ClientId env) + 1 < PrevWorkerAmount (q5Cfg w)"
  shows "outbox (snd (Q5_handleEOFMessage w env s)) = outbox s
    \<and> mgetd 0 (q5Eofs (own (snd (Q5_handleEOFMessage w env s)))) (ClientId env) = mgetd 0 (q5Eofs (own s)) (ClientId env) + 1"
  using assms by (simp add: Q5_handleEOFMessage_def Let_def wbind_def wresult_def wmodify_def outbox_flush [OF Q5_quiet])

text \<open>
  When the announcement cannot be published the counter stays at its target, and no later EOF can make
  it equal the target again: the client never ends.
\<close>

lemma Q5_stuck:
  assumes "PrevWorkerAmount (q5Cfg w) \<le> mgetd 0 (q5Eofs (own s)) c"
    and "\<forall>env \<in> set envs. ClientId env = c \<and> (\<exists>counts. DecodeEOFCounts (Payload env) = Inr counts \<and> \<not> IsFlushEOF counts)"
  shows "outbox (fold (\<lambda>env s. snd (Q5_handleEOFMessage w env s)) envs s) = outbox s"
  using assms
proof (induction envs arbitrary: s)
  case (Cons env envs)
  then obtain counts where env: "ClientId env = c" "DecodeEOFCounts (Payload env) = Inr counts" "\<not> IsFlushEOF counts" by auto
  let ?s = "updOwn (\<lambda>x. x\<lparr>q5Eofs := mput c (mgetd 0 (q5Eofs x) c + 1) (q5Eofs x),
               q5Expected := mput c (mgetd 0 (q5Expected x) c + mgetd 0 counts KeyNil) (q5Expected x)\<rparr>) s"
  have "snd (Q5_handleEOFMessage w env s) = snd (fromIo (coFlush (Q5_sources w)) ?s)"
    using env Cons.prems(1) by (simp add: Q5_handleEOFMessage_def Let_def wbind_def wresult_def wmodify_def)
  thus ?case using Cons.IH [of "snd (Q5_handleEOFMessage w env s)"] Cons.prems outbox_flush [OF Q5_quiet, of w ?s] by simp
qed simp

end
