(* ===== verification/SendBuffer.thy ===== *)
theory SendBuffer
  imports Models
begin

text \<open>
  \<open>common/batch/buffer.go\<close>: items are collected per client and routing key and handed to a flush function
  in batches. The flush function works on a state of its own; \<open>order\<close> is the order in which Go iterates a
  map.
\<close>

record 'a sendBuffer =
  bufSize :: int
  buckets :: "(uuid, (KeyType, 'a list) gomap) gomap"

type_synonym ('a, 's) flushFunc = "uuid \<Rightarrow> KeyType \<Rightarrow> 'a list \<Rightarrow> 's \<Rightarrow> unit result \<times> 's"

definition NewBuffer :: "int \<Rightarrow> 'a sendBuffer" where
  "NewBuffer sz = \<lparr>bufSize = (if sz \<le> 0 then 100 else sz), buckets = []\<rparr>"

definition bufAdd :: "('a, 's) flushFunc \<Rightarrow> uuid \<Rightarrow> KeyType \<Rightarrow> 'a \<Rightarrow> 'a sendBuffer \<Rightarrow> 's \<Rightarrow> unit result \<times> 'a sendBuffer \<times> 's" where
  "bufAdd flush c key item b s =
     (let byKey = mgetd [] (buckets b) c; items = mgetd [] byKey key @ [item] in
      if bufSize b \<le> int (length items)
      then case flush c key items s of (r, s) \<Rightarrow> (r, b\<lparr>buckets := mput c (mdel key byKey) (buckets b)\<rparr>, s)
      else (Inr (), b\<lparr>buckets := mput c (mput key items byKey) (buckets b)\<rparr>, s))"

definition bufSnapshot :: "uuid \<Rightarrow> 'a sendBuffer \<Rightarrow> (KeyType, 'a list) gomap option" where
  "bufSnapshot c b =
     (let out = filter (\<lambda>(k, items). items \<noteq> []) (mgetd [] (buckets b) c) in if out = [] then None else Some out)"

definition bufRestore :: "uuid \<Rightarrow> (KeyType, 'a list) gomap \<Rightarrow> 'a sendBuffer \<Rightarrow> 'a sendBuffer" where
  "bufRestore c byKey b =
     (let dst = filter (\<lambda>(k, items). items \<noteq> []) byKey in
      if dst = [] then b else b\<lparr>buckets := mput c dst (buckets b)\<rparr>)"

fun flushAll :: "('a, 's) flushFunc \<Rightarrow> uuid \<Rightarrow> (KeyType, 'a list) gomap \<Rightarrow> 's \<Rightarrow> unit result \<times> 's" where
  "flushAll flush c [] s = (Inr (), s)"
| "flushAll flush c ((key, items) # rest) s =
     (if items = [] then flushAll flush c rest s
      else case flush c key items s of
        (Inl e, s) \<Rightarrow> (Inl e, s)
      | (Inr _, s) \<Rightarrow> flushAll flush c rest s)"

definition bufFlushClient ::
  "((KeyType, 'a list) gomap \<Rightarrow> (KeyType, 'a list) gomap) \<Rightarrow> ('a, 's) flushFunc \<Rightarrow> uuid \<Rightarrow> 'a sendBuffer \<Rightarrow> 's
    \<Rightarrow> unit result \<times> 'a sendBuffer \<times> 's" where
  "bufFlushClient order flush c b s =
     (case mget (buckets b) c of
        None \<Rightarrow> (Inr (), b, s)
      | Some byKey \<Rightarrow> (case flushAll flush c (order byKey) s of (r, s) \<Rightarrow> (r, b\<lparr>buckets := mdel c (buckets b)\<rparr>, s)))"

section \<open>Conservation\<close>

text \<open>The items of a key that a flush function which only records has been given.\<close>

definition recording :: "('a, (uuid \<times> KeyType \<times> 'a list) list) flushFunc" where
  "recording c key items s = (Inr (), s @ [(c, key, items)])"

definition flushedItems :: "uuid \<Rightarrow> KeyType \<Rightarrow> (uuid \<times> KeyType \<times> 'a list) list \<Rightarrow> 'a list" where
  "flushedItems c key s = concat (map (\<lambda>(c', k, items). if c' = c \<and> k = key then items else []) s)"

definition bufferedItems :: "uuid \<Rightarrow> KeyType \<Rightarrow> 'a sendBuffer \<Rightarrow> 'a list" where
  "bufferedItems c key b = mgetd [] (mgetd [] (buckets b) c) key"

lemma flushedItems_append [simp]: "flushedItems c key (s @ t) = flushedItems c key s @ flushedItems c key t"
  by (simp add: flushedItems_def)

lemma bufAdd_conserves:
  assumes "bufAdd recording c key item b s = (r, b', s')"
  shows "flushedItems c' key' s' @ bufferedItems c' key' b' =
      flushedItems c' key' s @ bufferedItems c' key' b @ (if (c', key') = (c, key) then [item] else [])"
  using assms by (auto simp: bufAdd_def Let_def recording_def flushedItems_def bufferedItems_def mgetd_def split: if_splits)

text \<open>
  However items are added, what was flushed for a client and key followed by what is still buffered is
  what was added for them, in order.
\<close>

fun bufAddAll :: "(uuid \<times> KeyType \<times> 'a) list \<Rightarrow> 'a sendBuffer \<times> (uuid \<times> KeyType \<times> 'a list) list
    \<Rightarrow> 'a sendBuffer \<times> (uuid \<times> KeyType \<times> 'a list) list" where
  "bufAddAll [] st = st"
| "bufAddAll ((c, key, item) # rest) (b, s) = (case bufAdd recording c key item b s of (r, b, s) \<Rightarrow> bufAddAll rest (b, s))"

lemma bufAddAll_conserves:
  assumes "bufAddAll added (b, s) = (b', s')"
  shows "flushedItems c key s' @ bufferedItems c key b' =
    flushedItems c key s @ bufferedItems c key b @ concat (map (\<lambda>(c', k, x). if (c, key) = (c', k) then [x] else []) added)"
  using assms
proof (induction added arbitrary: b s)
  case (Cons a added)
  obtain c' k x where a: "a = (c', k, x)" by (cases a)
  obtain r b1 s1 where one: "bufAdd recording c' k x b s = (r, b1, s1)" by (metis prod_cases3)
  show ?case using Cons.IH [of b1 s1] Cons.prems bufAdd_conserves [OF one, of c key] by (simp add: a one)
qed simp

lemma flushAll_records: "flushAll recording c m s = (Inr (), s @ map (\<lambda>(k, items). (c, k, items)) (filter (\<lambda>e. snd e \<noteq> []) m))"
  by (induction m arbitrary: s) (auto simp: recording_def)

lemma flushed_bucket:
  "distinct (map fst m) \<Longrightarrow> flushedItems c key (map (\<lambda>(k, items). (c, k, items)) (filter (\<lambda>e. snd e \<noteq> []) m)) = mgetd [] m key"
proof (induction m)
  case (Cons e m)
  have "flushedItems c key (map (\<lambda>(k, items). (c, k, items)) (filter (\<lambda>e. snd e \<noteq> []) m)) = []" if "key \<notin> fst ` set m"
    using that by (force simp: flushedItems_def)
  thus ?case using Cons by (cases e) (auto simp: flushedItems_def mgetd_def)
qed (simp add: flushedItems_def mgetd_def)

text \<open>\<open>FlushClient\<close> hands over everything of the client, and nothing stays behind.\<close>

lemma bufFlushClient_empties:
  assumes "bufFlushClient order recording c b s = (r, b', s')" "\<And>m. mset (order m) = mset m"
    and "distinct (map fst (mgetd [] (buckets b) c))"
  shows "r = Inr () \<and> flushedItems c key s' = flushedItems c key s @ bufferedItems c key b \<and> bufferedItems c key b' = []"
proof (cases "mget (buckets b) c")
  case None
  thus ?thesis using assms(1) by (auto simp: bufFlushClient_def bufferedItems_def mgetd_def)
next
  case (Some m)
  have d: "distinct (map fst (order m))"
  proof -
    have "mset (map fst (order m)) = mset (map fst m)" by (simp add: assms(2))
    thus ?thesis using assms(3) Some mset_eq_imp_distinct_iff by (fastforce simp: mgetd_def)
  qed
  have "map_of (order m) = map_of m"
    using map_of_inject_set [OF d, of m] assms(3) Some mset_eq_setD [OF assms(2) [of m]] by (simp add: mgetd_def)
  hence "mget (order m) key = mget m key" by simp
  hence "mgetd [] (order m) key = mgetd [] m key" by (simp add: mgetd_def)
  thus ?thesis using assms(1) Some flushed_bucket [OF d, of c key]
    by (auto simp: bufFlushClient_def flushAll_records bufferedItems_def mgetd_def)
qed

end
