(* ===== verification/Bully.thy ===== *)
theory Bully
  imports Prelude GoStd
begin

text \<open>
  \<open>common/bully\<close>: the election among the monitors, in which the lowest id wins. A node is the record of
  \<open>Bully\<close>; a handler gets the message of one connection and returns the new node, the bytes it replies
  and whether it starts an election. \<open>net\<close> is the environment: a call either fails (no connection, a
  failed write, a timeout) or yields the bytes that were read. An address stands for the node with that
  id. Together they form a transition system whose state holds the nodes, the elections their goroutines
  have yet to run and the coordinator messages in flight.
\<close>

section \<open>Messages (protocol.go)\<close>

definition bPing :: byte where "bPing = 0"
definition bPong :: byte where "bPong = 1"
definition bAlive :: byte where "bAlive = 2"
definition bElection :: byte where "bElection = 3"
definition bCoordinator :: byte where "bCoordinator = 4"

record bullyMessage =
  bmType :: byte
  bmSender :: int
  bmLeader :: int

definition bully_Encode :: "bullyMessage \<Rightarrow> bytes" where
  "bully_Encode m = [bmType m, word_of_int (bmSender m), word_of_int (bmLeader m)]"

definition bully_Decode :: "bytes \<Rightarrow> bullyMessage result" where
  "bully_Decode bs =
     (if length bs < 3 then Inl (Errorf ''bully: message too short'' [length bs])
      else Inr \<lparr>bmType = bs ! 0, bmSender = uint (bs ! 1), bmLeader = uint (bs ! 2)\<rparr>)"

definition bullyType_String :: "byte \<Rightarrow> string" where
  "bullyType_String t =
     (if t = bPing then ''Ping'' else if t = bPong then ''Pong'' else if t = bAlive then ''Alive''
      else if t = bElection then ''Election'' else if t = bCoordinator then ''Coordinator''
      else ''Unknown('' @ itoa (unat t) @ '')'')"

section \<open>Nodes (bully.go)\<close>

record peerState =
  psId :: int
  psAlive :: bool
  psMissed :: int

record bully =
  bPeers :: "peerState list"
  bSelfID :: int
  bLeaderID :: int
  bIsLeader :: bool

definition bully_New :: "int \<Rightarrow> int list \<Rightarrow> bully" where
  "bully_New self peers =
     \<lparr>bPeers = map (\<lambda>i. \<lparr>psId = i, psAlive = True, psMissed = 0\<rparr>) peers, bSelfID = self, bLeaderID = 0, bIsLeader = (self = 0)\<rparr>"

text \<open>The loops over \<open>b.peers\<close> change the first peer with the given id.\<close>

fun updatePeer :: "int \<Rightarrow> (peerState \<Rightarrow> peerState) \<Rightarrow> peerState list \<Rightarrow> peerState list" where
  "updatePeer i f [] = []"
| "updatePeer i f (p # ps) = (if psId p = i then f p # ps else p # updatePeer i f ps)"

definition markAlive :: "int \<Rightarrow> bully \<Rightarrow> bully" where
  "markAlive i b = b\<lparr>bPeers := updatePeer i (\<lambda>p. p\<lparr>psAlive := True, psMissed := 0\<rparr>) (bPeers b)\<rparr>"

section \<open>Connections\<close>

text \<open>The new node, the reply if there is one, and whether an election is started.\<close>

type_synonym reaction = "bully \<times> bytes option \<times> bool"

definition handlePing :: "bully \<Rightarrow> bullyMessage \<Rightarrow> reaction" where
  "handlePing b m =
     (let b = markAlive (bmSender m) b in
      (b, Some (bully_Encode \<lparr>bmType = bPong, bmSender = bSelfID b, bmLeader = bLeaderID b\<rparr>),
       0 \<le> bmLeader m \<and> bmLeader m \<noteq> bLeaderID b))"

definition handleElection :: "bully \<Rightarrow> bullyMessage \<Rightarrow> reaction" where
  "handleElection b m =
     (if bSelfID b < bmSender m
      then (b, Some (bully_Encode \<lparr>bmType = bAlive, bmSender = bSelfID b, bmLeader = bLeaderID b\<rparr>), True)
      else (b, None, False))"

definition handleCoordinator :: "bully \<Rightarrow> bullyMessage \<Rightarrow> reaction" where
  "handleCoordinator b m = (b\<lparr>bLeaderID := bmLeader m, bIsLeader := (bmLeader m = bSelfID b)\<rparr>, None, False)"

definition handleAlive :: "bully \<Rightarrow> bullyMessage \<Rightarrow> reaction" where
  "handleAlive b m =
     (let b = markAlive (bmSender m) b in
      (b, Some (bully_Encode \<lparr>bmType = bCoordinator, bmSender = bSelfID b, bmLeader = bLeaderID b\<rparr>), False))"

definition handleConn :: "bytes option \<Rightarrow> bully \<Rightarrow> reaction" where
  "handleConn input b =
     (case input of
        None \<Rightarrow> (b, None, False)
      | Some bs \<Rightarrow>
         (case bully_Decode bs of
            Inl e \<Rightarrow> (b, None, False)
          | Inr m \<Rightarrow>
             if bmType m = bPing then handlePing b m
             else if bmType m = bElection then handleElection b m
             else if bmType m = bCoordinator then handleCoordinator b m
             else if bmType m = bAlive then handleAlive b m
             else (b, None, False)))"

section \<open>Pings\<close>

text \<open>The first peer with the id misses a ping; the third in a row declares it dead.\<close>

definition markPeerDead :: "int \<Rightarrow> bully \<Rightarrow> bully \<times> bool" where
  "markPeerDead i b =
     (case find (\<lambda>p. psId p = i) (bPeers b) of
        None \<Rightarrow> (b, False)
      | Some p \<Rightarrow>
         let missed = psMissed p + 1; dead = (3 \<le> missed \<and> psAlive p) in
         (b\<lparr>bPeers := updatePeer i (\<lambda>p. p\<lparr>psMissed := missed, psAlive := (if dead then False else psAlive p)\<rparr>) (bPeers b)\<rparr>,
          dead \<and> i = bLeaderID b))"

text \<open>\<open>answer\<close> is what the peer sent back; the last component tells whether an election is started.\<close>

definition pingPeer :: "int \<Rightarrow> bytes option \<Rightarrow> bully \<Rightarrow> bully \<times> bool \<times> bool" where
  "pingPeer i answer b =
     (case (case answer of None \<Rightarrow> None
            | Some bs \<Rightarrow> (case bully_Decode bs of Inl e \<Rightarrow> None | Inr m \<Rightarrow> if bmType m = bPong then Some m else None)) of
        Some m \<Rightarrow> (markAlive i b, True, False)
      | None \<Rightarrow> (case markPeerDead i b of (b, elect) \<Rightarrow> (b, False, elect)))"

text \<open>
  One round of pings, in some order of its goroutines: whether some peer answered, and the number of
  elections run.
\<close>

fun pingPeers :: "(int \<times> bytes option) list \<Rightarrow> bully \<Rightarrow> bully \<times> bool \<times> nat" where
  "pingPeers [] b = (b, False, 0)"
| "pingPeers ((i, answer) # rest) b =
     (case pingPeer i answer b of (b, alive, elect) \<Rightarrow>
      case pingPeers rest b of (b, anyAlive, n) \<Rightarrow> (b, alive \<or> anyAlive, (if elect then 1 else 0) + n))"

section \<open>Elections\<close>

definition candidates :: "bully \<Rightarrow> int list" where
  "candidates b = map psId (filter (\<lambda>p. psId p < bSelfID b \<and> psAlive p) (bPeers b))"

definition electionMessage :: "bully \<Rightarrow> bytes" where
  "electionMessage b = bully_Encode \<lparr>bmType = bElection, bmSender = bSelfID b, bmLeader = bLeaderID b\<rparr>"

text \<open>\<open>resp, _ := Decode(buf)\<close>: the zero message of a failed decoding is not an \<open>Alive\<close>.\<close>

definition sendElection :: "bytes option \<Rightarrow> bool" where
  "sendElection answer \<longleftrightarrow>
     (case answer of None \<Rightarrow> False
      | Some bs \<Rightarrow> length bs \<ge> 3 \<and> (case bully_Decode bs of Inl e \<Rightarrow> False | Inr m \<Rightarrow> bmType m = bAlive))"

definition becomeLeader :: "bully \<Rightarrow> bully \<times> (int \<times> bytes) list" where
  "becomeLeader b =
     (b\<lparr>bLeaderID := bSelfID b, bIsLeader := True\<rparr>,
      map (\<lambda>p. (psId p, bully_Encode \<lparr>bmType = bCoordinator, bmSender = bSelfID b, bmLeader = bSelfID b\<rparr>)) (bPeers b))"

section \<open>The cluster\<close>

record monitors =
  clNodes :: "int \<Rightarrow> bully"
  clUp :: "int list"
  clElections :: "int list"
  clMail :: "(int \<times> bytes) list"

text \<open>
  A connection to a node that is up is answered, one to another fails. \<open>call\<close> is one connection: the
  answer, and the cluster after it. An election a handler starts is added to those to be run.
\<close>

definition call :: "int \<Rightarrow> bytes \<Rightarrow> monitors \<Rightarrow> bytes option \<times> monitors" where
  "call i bs cl =
     (if i \<in> set (clUp cl) then
        case handleConn (Some bs) (clNodes cl i) of (b, reply, elect) \<Rightarrow>
          (reply, cl\<lparr>clNodes := (clNodes cl)(i := b), clElections := (if elect then clElections cl @ [i] else clElections cl)\<rparr>)
      else (None, cl))"

text \<open>\<open>startElection\<close>: the candidates are asked in turn until one answers.\<close>

fun askCandidates :: "int \<Rightarrow> int list \<Rightarrow> monitors \<Rightarrow> bool \<times> monitors" where
  "askCandidates i [] cl = (False, cl)"
| "askCandidates i (c # cs) cl =
     (case call c (electionMessage (clNodes cl i)) cl of (answer, cl) \<Rightarrow>
      if sendElection answer then (True, cl) else askCandidates i cs cl)"

definition startElection :: "int \<Rightarrow> monitors \<Rightarrow> monitors" where
  "startElection i cl =
     (case askCandidates i (candidates (clNodes cl i)) cl of (deferred, cl) \<Rightarrow>
      if deferred then cl
      else case becomeLeader (clNodes cl i) of (b, mail) \<Rightarrow>
        cl\<lparr>clNodes := (clNodes cl)(i := b), clMail := clMail cl @ mail\<rparr>)"

definition runElection :: "int \<Rightarrow> monitors \<Rightarrow> monitors" where
  "runElection i cl = startElection i (cl\<lparr>clElections := remove1 i (clElections cl)\<rparr>)"

definition deliver :: "int \<times> bytes \<Rightarrow> monitors \<Rightarrow> monitors" where
  "deliver m cl = snd (call (fst m) (snd m) (cl\<lparr>clMail := remove1 m (clMail cl)\<rparr>))"

inductive bullyStep :: "monitors \<Rightarrow> monitors \<Rightarrow> bool" where
  elect: "i \<in> set (clElections cl) \<Longrightarrow> bullyStep cl (runElection i cl)"
| mail: "m \<in> set (clMail cl) \<Longrightarrow> bullyStep cl (deliver m cl)"

inductive_cases bullyStep_cases: "bullyStep cl cl'"

section \<open>The lowest live id wins\<close>

text \<open>
  A cluster of \<open>n\<close> monitors with ids from 0, as \<open>newBully\<close> configures them: everyone lists everyone
  else, no live node is suspected, and only live nodes run elections.
\<close>

definition trusting :: "nat \<Rightarrow> monitors \<Rightarrow> bool" where
  "trusting n cl \<longleftrightarrow> n \<le> 256 \<and> clUp cl \<noteq> [] \<and> set (clUp cl) \<subseteq> {0..<int n} \<and> set (clElections cl) \<subseteq> set (clUp cl)
     \<and> (\<forall>i \<in> set (clUp cl). bSelfID (clNodes cl i) = i
          \<and> map psId (bPeers (clNodes cl i)) = filter (\<lambda>j. j \<noteq> i) [0..int n - 1]
          \<and> (\<forall>p \<in> set (bPeers (clNodes cl i)). psId p \<in> set (clUp cl) \<longrightarrow> psAlive p))"

definition lowest :: "monitors \<Rightarrow> int" where
  "lowest cl = Min (set (clUp cl))"

definition victory :: "int \<Rightarrow> bytes" where
  "victory i = bully_Encode \<lparr>bmType = bCoordinator, bmSender = i, bmLeader = i\<rparr>"

text \<open>The announcement of the lowest node has reached everyone or is on its way.\<close>

definition announcing :: "monitors \<Rightarrow> bool" where
  "announcing cl \<longleftrightarrow> bLeaderID (clNodes cl (lowest cl)) = lowest cl \<and> bIsLeader (clNodes cl (lowest cl))
     \<and> (\<forall>j \<in> set (clUp cl). j \<noteq> lowest cl \<longrightarrow>
          bLeaderID (clNodes cl j) = lowest cl \<and> \<not> bIsLeader (clNodes cl j) \<or> (j, victory (lowest cl)) \<in> set (clMail cl))"

definition electing :: "nat \<Rightarrow> monitors \<Rightarrow> bool" where
  "electing n cl \<longleftrightarrow> trusting n cl \<and> snd ` set (clMail cl) \<subseteq> {victory (lowest cl)} \<and> (clElections cl \<noteq> [] \<or> announcing cl)"

text \<open>What the elections and messages of a cluster can still cause.\<close>

definition work :: "nat \<Rightarrow> monitors \<Rightarrow> nat" where
  "work n cl = sum_list (map (\<lambda>i. nat i + n + 1) (clElections cl)) + length (clMail cl)"

lemma uint_id: "0 \<le> i \<Longrightarrow> i < 256 \<Longrightarrow> uint (word_of_int i :: byte) = i"
  by (simp add: uint_word_of_int)

lemma lowest_up: "trusting n cl \<Longrightarrow> lowest cl \<in> set (clUp cl)"
  and lowest_le: "j \<in> set (clUp cl) \<Longrightarrow> lowest cl \<le> j"
  by (auto simp: trusting_def lowest_def intro!: Min_in)

lemma trusting_id: "trusting n cl \<Longrightarrow> i \<in> set (clUp cl) \<Longrightarrow> 0 \<le> i \<and> i < 256 \<and> i < int n \<and> bSelfID (clNodes cl i) = i"
  by (fastforce simp: trusting_def)

lemma call_election:
  assumes "trusting n cl" "i \<in> set (clUp cl)" "c < i"
  shows "call c (electionMessage (clNodes cl i)) cl =
    (if c \<in> set (clUp cl)
     then (Some (bully_Encode \<lparr>bmType = bAlive, bmSender = c, bmLeader = bLeaderID (clNodes cl c)\<rparr>), cl\<lparr>clElections := clElections cl @ [c]\<rparr>)
     else (None, cl))"
proof -
  have "uint (word_of_int (bSelfID (clNodes cl i)) :: byte) = i" using trusting_id [OF assms(1,2)] uint_id by auto
  thus ?thesis using trusting_id [OF assms(1), of c] assms(3)
    by (auto simp: call_def handleConn_def electionMessage_def bully_Decode_def bully_Encode_def handleElection_def
        bElection_def bPing_def)
qed

lemma askCandidates_find:
  assumes "trusting n cl" "i \<in> set (clUp cl)" "\<forall>c \<in> set cs. c < i"
  shows "askCandidates i cs cl =
    (case find (\<lambda>c. c \<in> set (clUp cl)) cs of None \<Rightarrow> (False, cl) | Some c \<Rightarrow> (True, cl\<lparr>clElections := clElections cl @ [c]\<rparr>))"
  using assms(3)
proof (induction cs)
  case (Cons c cs)
  have "sendElection (Some (bully_Encode \<lparr>bmType = bAlive, bmSender = x, bmLeader = y\<rparr>))" for x y
    by (simp add: sendElection_def bully_Decode_def bully_Encode_def)
  moreover have "\<not> sendElection None" by (simp add: sendElection_def)
  ultimately show ?case using Cons call_election [OF assms(1,2), of c] by simp
qed simp

lemma candidates_trusting:
  assumes "trusting n cl" "i \<in> set (clUp cl)"
  shows "\<forall>c \<in> set (candidates (clNodes cl i)). c < i"
    and "i \<noteq> lowest cl \<Longrightarrow> lowest cl \<in> set (candidates (clNodes cl i))"
proof -
  show "\<forall>c \<in> set (candidates (clNodes cl i)). c < i" using trusting_id [OF assms] by (auto simp: candidates_def)
  assume "i \<noteq> lowest cl"
  hence less: "lowest cl < i" using lowest_le [OF assms(2)] by simp
  have "lowest cl \<in> set (map psId (bPeers (clNodes cl i)))"
    using assms less trusting_id [OF assms(1) lowest_up [OF assms(1)]] by (auto simp: trusting_def)
  then obtain p where "p \<in> set (bPeers (clNodes cl i))" "psId p = lowest cl" by auto
  moreover from this have "psAlive p" using assms lowest_up [OF assms(1)] by (auto simp: trusting_def)
  ultimately show "lowest cl \<in> set (candidates (clNodes cl i))"
    using less trusting_id [OF assms] by (force simp: candidates_def)
qed

text \<open>A node that is not the lowest defers to a lower one; the lowest announces itself.\<close>

lemma startElection_defers:
  assumes "trusting n cl" "i \<in> set (clUp cl)" "i \<noteq> lowest cl"
  shows "\<exists>c \<in> set (clUp cl). c < i \<and> startElection i cl = cl\<lparr>clElections := clElections cl @ [c]\<rparr>"
proof -
  let ?cs = "candidates (clNodes cl i)"
  note cand = candidates_trusting [OF assms(1,2)]
  have "find (\<lambda>c. c \<in> set (clUp cl)) ?cs \<noteq> None"
    using cand(2) [OF assms(3)] lowest_up [OF assms(1)] by (auto simp: find_None_iff)
  then obtain c where c: "find (\<lambda>c. c \<in> set (clUp cl)) ?cs = Some c" by auto
  hence "c \<in> set ?cs" "c \<in> set (clUp cl)" by (auto simp: find_Some_iff)
  thus ?thesis using cand(1) askCandidates_find [OF assms(1,2) cand(1)] c by (auto simp: startElection_def)
qed

lemma startElection_lowest:
  assumes "trusting n cl" "i = lowest cl"
  shows "startElection i cl = cl\<lparr>clNodes := (clNodes cl)(i := (clNodes cl i)\<lparr>bLeaderID := i, bIsLeader := True\<rparr>),
    clMail := clMail cl @ map (\<lambda>p. (psId p, victory i)) (bPeers (clNodes cl i))\<rparr>"
proof -
  have up: "i \<in> set (clUp cl)" using lowest_up [OF assms(1)] assms(2) by simp
  note cand = candidates_trusting [OF assms(1) up]
  have "find (\<lambda>c. c \<in> set (clUp cl)) (candidates (clNodes cl i)) = None"
    using cand(1) lowest_le assms(2) by (fastforce simp: find_None_iff)
  thus ?thesis using askCandidates_find [OF assms(1) up cand(1)] trusting_id [OF assms(1) up]
    by (simp add: startElection_def becomeLeader_def victory_def)
qed

lemma trusting_elections:
  "trusting n cl \<Longrightarrow> set es \<subseteq> set (clUp cl) \<Longrightarrow> trusting n (cl\<lparr>clElections := es\<rparr>)"
  by (simp add: trusting_def)

lemma lowest_keeps [simp]:
  "lowest (cl\<lparr>clElections := es\<rparr>) = lowest cl" "lowest (cl\<lparr>clMail := ms\<rparr>) = lowest cl" "lowest (cl\<lparr>clNodes := f\<rparr>) = lowest cl"
  by (simp_all add: lowest_def)

lemma sum_list_remove1: "(x::'a) \<in> set xs \<Longrightarrow> sum_list (map f xs) = f x + (sum_list (map f (remove1 x xs)) :: nat)"
  by (induction xs) auto

lemma electing_run:
  assumes "electing n cl" "i \<in> set (clElections cl)"
  shows "electing n (runElection i cl) \<and> work n (runElection i cl) < work n cl \<and> clUp (runElection i cl) = clUp cl"
proof -
  let ?cl = "cl\<lparr>clElections := remove1 i (clElections cl)\<rparr>"
  have t: "trusting n ?cl" and mail: "snd ` set (clMail cl) \<subseteq> {victory (lowest cl)}"
    using assms(1) set_remove1_subset [of i "clElections cl"] trusting_elections [of n cl "remove1 i (clElections cl)"]
    by (auto simp: electing_def trusting_def)
  have i: "i \<in> set (clUp ?cl)" using assms by (auto simp: electing_def trusting_def)
  have w: "work n cl = nat i + n + 1 + work n ?cl" using sum_list_remove1 [OF assms(2)] by (simp add: work_def)
  show ?thesis
  proof (cases "i = lowest cl")
    case False
    then obtain c where c: "c \<in> set (clUp cl)" "c < i" "runElection i cl = ?cl\<lparr>clElections := clElections ?cl @ [c]\<rparr>"
      using startElection_defers [OF t i] by (auto simp: runElection_def)
    have "trusting n (runElection i cl)" unfolding c(3)
      using trusting_elections [OF t, of "clElections ?cl @ [c]"] c(1) t by (simp add: trusting_def)
    moreover have "0 \<le> c" using trusting_id [OF t, of c] c(1) by simp
    ultimately show ?thesis using c mail w by (simp add: electing_def work_def)
  next
    case True
    let ?b = "(clNodes cl i)\<lparr>bLeaderID := i, bIsLeader := True\<rparr>"
    have r: "runElection i cl = ?cl\<lparr>clNodes := (clNodes cl)(i := ?b),
        clMail := clMail cl @ map (\<lambda>p. (psId p, victory i)) (bPeers (clNodes cl i))\<rparr>"
      using startElection_lowest [OF t] True by (simp add: runElection_def)
    have peers: "map psId (bPeers (clNodes cl i)) = filter (\<lambda>j. j \<noteq> i) [0..int n - 1]" using t i by (simp add: trusting_def)
    hence "length (bPeers (clNodes cl i)) \<le> n"
      using length_filter_le [of "\<lambda>j. j \<noteq> i" "[0..int n - 1]"] by (metis length_map length_upto add_0 diff_add_cancel diff_zero nat_int)
    hence "work n (runElection i cl) < work n cl" using w by (simp add: r work_def)
    moreover have "trusting n (runElection i cl)" using t by (auto simp: r trusting_def)
    moreover have "announcing (runElection i cl)"
    proof -
      have "(j, victory i) \<in> set (clMail (runElection i cl))" if "j \<in> set (clUp cl)" "j \<noteq> i" for j
      proof -
        have "j \<in> set (map psId (bPeers (clNodes cl i)))" using that t unfolding peers by (auto simp: trusting_def)
        thus ?thesis by (auto simp: r)
      qed
      thus ?thesis unfolding announcing_def r by (auto simp: True [symmetric])
    qed
    ultimately show ?thesis using mail unfolding electing_def by (auto simp: r True [symmetric])
  qed
qed

lemma deliver_victory:
  assumes "trusting n cl"
  shows "deliver (j, victory (lowest cl)) cl =
    (let cl = cl\<lparr>clMail := remove1 (j, victory (lowest cl)) (clMail cl)\<rparr> in
     if j \<in> set (clUp cl)
     then cl\<lparr>clNodes := (clNodes cl)(j := (clNodes cl j)\<lparr>bLeaderID := lowest cl, bIsLeader := (lowest cl = j)\<rparr>)\<rparr> else cl)"
proof -
  have "uint (word_of_int (lowest cl) :: byte) = lowest cl"
    using trusting_id [OF assms lowest_up [OF assms]] uint_id by auto
  thus ?thesis using trusting_id [OF assms, of j]
    by (auto simp: deliver_def call_def handleConn_def victory_def bully_Decode_def bully_Encode_def handleCoordinator_def
        bCoordinator_def bPing_def bElection_def Let_def)
qed

lemma electing_deliver:
  assumes "electing n cl" "m \<in> set (clMail cl)"
  shows "electing n (deliver m cl) \<and> work n (deliver m cl) < work n cl \<and> clUp (deliver m cl) = clUp cl"
proof -
  obtain j where m: "m = (j, victory (lowest cl))" using assms by (cases m) (auto simp: electing_def)
  have t: "trusting n cl" using assms(1) by (simp add: electing_def)
  note d = deliver_victory [OF t, of j]
  have "trusting n (deliver m cl)" using t by (auto simp: d m trusting_def Let_def)
  moreover have "announcing (deliver m cl)" if "announcing cl"
  proof -
    have rem: "(ja, v) \<in> set (remove1 (j, v') ms) \<longleftrightarrow> (ja, v) \<in> set ms" if "ja \<noteq> j" for ja v v' and ms :: "(int \<times> bytes) list"
      using that by (simp add: in_set_remove1)
    show ?thesis using that by (auto simp: d announcing_def Let_def m) (metis rem)+
  qed
  moreover have "work n (deliver m cl) < work n cl"
    using length_remove1 [of m "clMail cl"] assms(2) length_pos_if_in_set [OF assms(2)] by (auto simp: d work_def Let_def m)
  ultimately show ?thesis using assms(1) set_remove1_subset [of m "clMail cl"]
    by (auto simp: electing_def d m Let_def)
qed

lemma electing_step: "bullyStep cl cl' \<Longrightarrow> electing n cl \<Longrightarrow> electing n cl' \<and> work n cl' < work n cl \<and> clUp cl' = clUp cl"
  by (elim bullyStep_cases) (use electing_run electing_deliver in blast)+

lemma electing_runs: "(bullyStep ^^ k) cl cl' \<Longrightarrow> electing n cl \<Longrightarrow> electing n cl' \<and> k + work n cl' \<le> work n cl \<and> clUp cl' = clUp cl"
proof (induction k arbitrary: cl')
  case (Suc k)
  then obtain x where "(bullyStep ^^ k) cl x" "bullyStep x cl'" by auto
  thus ?case using Suc.IH [of x] Suc.prems(2) electing_step [of x cl' n] by auto
qed simp

text \<open>
  C5. An election ends, and the lowest live monitor wins it: in a cluster without false suspicions, however
  the elections and messages that are under way interleave, there are only finitely many steps (a bound
  is given), and when nothing is left to do every live monitor has the lowest live id as its leader and
  that monitor alone takes itself for the leader.
\<close>

theorem bully_elects_lowest:
  assumes "trusting n cl" "clElections cl \<noteq> []" "clMail cl = []"
  shows "(\<forall>k cl'. (bullyStep ^^ k) cl cl' \<longrightarrow> k \<le> work n cl)
   \<and> (\<forall>cl'. bullyStep\<^sup>*\<^sup>* cl cl' \<and> (\<forall>cl''. \<not> bullyStep cl' cl'') \<longrightarrow>
        (\<forall>i \<in> set (clUp cl). bLeaderID (clNodes cl' i) = lowest cl \<and> (bIsLeader (clNodes cl' i) \<longleftrightarrow> i = lowest cl)))"
proof (intro conjI allI impI)
  have e: "electing n cl" using assms by (simp add: electing_def)
  show "k \<le> work n cl" if "(bullyStep ^^ k) cl cl'" for k cl' using electing_runs [OF that e] by simp
  fix cl'
  assume run: "bullyStep\<^sup>*\<^sup>* cl cl' \<and> (\<forall>cl''. \<not> bullyStep cl' cl'')"
  then obtain k where "(bullyStep ^^ k) cl cl'" using rtranclp_imp_relpowp by metis
  from electing_runs [OF this e] have e': "electing n cl'" "clUp cl' = clUp cl" by auto
  have "clElections cl' = []" using run bullyStep.elect [of "hd (clElections cl')" cl'] by (cases "clElections cl'") auto
  moreover have "clMail cl' = []" using run bullyStep.mail [of "hd (clMail cl')" cl'] by (cases "clMail cl'") auto
  ultimately show "\<forall>i \<in> set (clUp cl). bLeaderID (clNodes cl' i) = lowest cl \<and> (bIsLeader (clNodes cl' i) \<longleftrightarrow> i = lowest cl)"
    using e' by (auto simp: electing_def announcing_def lowest_def)
qed

text \<open>Three monitors; the leader 0 is down, and 2 has noticed.\<close>

definition leaderDown :: monitors where
  "leaderDown = \<lparr>clNodes = (\<lambda>i. bully_New i (filter (\<lambda>j. j \<noteq> i) [0..2])), clUp = [1, 2], clElections = [2], clMail = []\<rparr>"

definition leaderDown_end :: monitors where
  "leaderDown_end = fold deliver [(0, victory 1), (2, victory 1)] (runElection 1 (runElection 2 leaderDown))"

lemma map_psId [simp]: "map psId (map (\<lambda>i. \<lparr>psId = i, psAlive = True, psMissed = 0\<rparr>) xs) = xs"
  by (induction xs) auto

lemma leaderDown_trusting: "trusting 3 leaderDown"
  by (auto simp: trusting_def leaderDown_def bully_New_def comp_def)

lemma bully_elects_lowest_witness:
  "bLeaderID (clNodes leaderDown_end 2) = 1 \<and> bIsLeader (clNodes leaderDown_end 1) \<and> \<not> bIsLeader (clNodes leaderDown_end 2)"
proof -
  have facts: "clElections leaderDown = [2]" "clMail leaderDown = []" "clUp leaderDown = [1, 2]" "lowest leaderDown = 1"
    by (simp_all add: leaderDown_def lowest_def)
  have "2 \<in> set (clElections leaderDown)" "1 \<in> set (clElections (runElection 2 leaderDown))"
    "(0, victory 1) \<in> set (clMail (runElection 1 (runElection 2 leaderDown)))"
    "(2, victory 1) \<in> set (clMail (deliver (0, victory 1) (runElection 1 (runElection 2 leaderDown))))"
    "clElections leaderDown_end = []" "clMail leaderDown_end = []"
    by code_simp+
  note steps = elect [OF this(1)] elect [OF this(2)] mail [OF this(3)] mail [OF this(4)] and quiet = this(5,6)
  have "bullyStep\<^sup>*\<^sup>* leaderDown leaderDown_end"
    unfolding leaderDown_end_def using steps by (simp add: converse_rtranclp_into_rtranclp r_into_rtranclp)
  moreover have "\<not> bullyStep leaderDown_end x" for x using quiet by (auto elim: bullyStep_cases)
  ultimately have "\<forall>i \<in> {1, 2}. bLeaderID (clNodes leaderDown_end i) = 1 \<and> (bIsLeader (clNodes leaderDown_end i) \<longleftrightarrow> i = 1)"
    using bully_elects_lowest [OF leaderDown_trusting] facts by auto
  thus ?thesis by simp
qed

end
