(* ===== verification/Monitor.thy ===== *)
theory Monitor
  imports Bully
begin

text \<open>
  \<open>workers/monitor\<close> with \<open>common/monitoring\<close>: the leader of the monitors pings every worker over UDP and
  restarts the container of a worker that has not answered \<open>failureThreshold\<close> pings in a row. Durations
  are parsed by \<open>time.ParseDuration\<close>, a parameter; the workers file, the sockets and \<open>docker start\<close> are
  the environment (\<open>moRestarted\<close> lists the containers it was called for).
\<close>

section \<open>Heartbeats (listener.go, pinger.go)\<close>

definition listenPayload :: "string \<Rightarrow> int \<Rightarrow> bytes" where
  "listenPayload prefix i = PutUint16 (word_of_nat (length prefix)) @ str_bytes prefix @ PutUint32 (word_of_int i)"

text \<open>The reply of a worker to a datagram; anything of six bytes or more is ignored.\<close>

definition listenReply :: "string \<Rightarrow> int \<Rightarrow> bytes \<Rightarrow> bytes option" where
  "listenReply prefix i datagram = (if length datagram < 6 then Some (listenPayload prefix i) else None)"

text \<open>
  What \<open>pingWorker\<close> makes of the first 256 bytes of an answer (\<open>None\<close>: no connection, no write or no
  answer in time): the key it reports and whether the worker is alive.
\<close>

definition pingResult :: "string \<Rightarrow> bytes option \<Rightarrow> string \<times> bool" where
  "pingResult worker answer =
     (case answer of
        None \<Rightarrow> (worker, False)
      | Some bs \<Rightarrow>
         let d = take 256 bs; n = unat (Uint16 (take 2 d)) in
         if length d < 6 \<or> length d < 2 + n + 4 then (worker, False)
         else (bytes_str (take n (drop 2 d)) @ ''_'' @ itoa (unat (Uint32 (take 4 (drop (2 + n) d)))), True))"

section \<open>Monitor (monitor.go)\<close>

record bullyParams =
  TcpHost :: string
  TcpPort :: int
  bpPingInterval :: string
  bpPingTimeout :: string

record monitoringParams =
  UdpPort :: int
  mpPingInterval :: string
  mpPingTimeout :: string
  FailureThreshold :: int

record monitorParams =
  mpBully :: bullyParams
  mpMonitoring :: monitoringParams

record monitor =
  moParams :: monitorParams
  moFailures :: "(string, int) gomap"
  moBully :: bully
  moPinger :: "string list option"
  moSelfKey :: string
  moSelfID :: int
  moThreshold :: int
  moRestarted :: "string list"

definition orDefault :: "'a \<Rightarrow> 'a \<Rightarrow> 'a \<Rightarrow> 'a" where
  "orDefault zero d x = (if x = zero then d else x)"

definition monitorDefaults :: "monitorParams \<Rightarrow> monitorParams" where
  "monitorDefaults mp =
     (let b = mpBully mp; m = mpMonitoring mp in
      \<lparr>mpBully = \<lparr>TcpHost = orDefault '''' ''0.0.0.0'' (TcpHost b), TcpPort = orDefault 0 9001 (TcpPort b),
         bpPingInterval = orDefault '''' ''1.5s'' (bpPingInterval b), bpPingTimeout = orDefault '''' ''500ms'' (bpPingTimeout b)\<rparr>,
       mpMonitoring = \<lparr>UdpPort = orDefault 0 9000 (UdpPort m), mpPingInterval = orDefault '''' ''3s'' (mpPingInterval m),
         mpPingTimeout = orDefault '''' ''2s'' (mpPingTimeout m), FailureThreshold = orDefault 0 3 (FailureThreshold m)\<rparr>\<rparr>)"

definition newBully :: "(string \<Rightarrow> int result) \<Rightarrow> bullyParams \<Rightarrow> int \<Rightarrow> int \<Rightarrow> bully result" where
  "newBully parseDuration bp workerAmount self =
     rbind (wrapf ''invalid bully.ping_interval'' [] (parseDuration (bpPingInterval bp))) (\<lambda>_.
     rbind (wrapf ''invalid bully.ping_timeout'' [] (parseDuration (bpPingTimeout bp))) (\<lambda>_.
     Inr (bully_New self (filter (\<lambda>i. i \<noteq> self) [0..workerAmount - 1]))))"

definition monitor_New :: "(string \<Rightarrow> int result) \<Rightarrow> monitorParams \<Rightarrow> string \<Rightarrow> int \<Rightarrow> int \<Rightarrow> monitor result" where
  "monitor_New parseDuration mp selfKey self workerAmount =
     (let mp = monitorDefaults mp in
      rbind (newBully parseDuration (mpBully mp) workerAmount self) (\<lambda>b.
      Inr \<lparr>moParams = mp, moFailures = [], moBully = b, moPinger = None, moSelfKey = selfKey, moSelfID = self,
           moThreshold = FailureThreshold (mpMonitoring mp), moRestarted = []\<rparr>))"

text \<open>The workers a leader pings: all of the file but itself, and the gateway.\<close>

definition pingedWorkers :: "string \<Rightarrow> string list \<Rightarrow> string list" where
  "pingedWorkers selfKey workers =
     (let ws = filter (\<lambda>w. w \<noteq> selfKey) workers in
      if ''gateway'' \<in> set ws then ws else ws @ [''gateway''])"

text \<open>One tick of \<open>leaderLoop\<close>.\<close>

definition leaderTick :: "string list \<Rightarrow> monitor \<Rightarrow> monitor" where
  "leaderTick workers m =
     (if bIsLeader (moBully m) \<and> moPinger m = None then m\<lparr>moPinger := Some (pingedWorkers (moSelfKey m) workers)\<rparr>
      else if \<not> bIsLeader (moBully m) \<and> moPinger m \<noteq> None then m\<lparr>moPinger := None\<rparr>
      else m)"

definition normalizeMonitorKey :: "string \<Rightarrow> string" where
  "normalizeMonitorKey key = (if key = ''gateway_0'' then ''gateway'' else key)"

definition restartContainer :: "string \<Rightarrow> monitor \<Rightarrow> monitor" where
  "restartContainer key m = m\<lparr>moRestarted := moRestarted m @ [key]\<rparr>"

definition handleResult :: "string \<times> bool \<Rightarrow> monitor \<Rightarrow> monitor" where
  "handleResult = (\<lambda>(key, ok) m.
     let key = normalizeMonitorKey key in
     if ok then m\<lparr>moFailures := mput key 0 (moFailures m)\<rparr>
     else
       let m = m\<lparr>moFailures := mput key (mgetd 0 (moFailures m) key + 1) (moFailures m)\<rparr> in
       if moThreshold m \<le> mgetd 0 (moFailures m) key
       then restartContainer key (m\<lparr>moFailures := mdel key (moFailures m)\<rparr>)
       else m)"

section \<open>Properties\<close>

text \<open>The key of a heartbeat is the name and id of the worker that sent it.\<close>

lemma heartbeat_roundtrip:
  assumes "length prefix \<le> 250" "0 \<le> i" "i < 2 ^ 32"
  shows "pingResult worker (Some (listenPayload prefix i)) = (prefix @ ''_'' @ itoa (nat i), True)"
proof -
  have "unat (word_of_nat (length prefix) :: 16 word) = length prefix"
    using assms(1) by (simp add: unsigned_of_nat take_bit_nat_eq_self)
  moreover have "unat (word_of_int i :: 32 word) = nat i"
    using assms(2,3) by (simp add: unat_eq_nat_uint uint_word_of_int)
  ultimately show ?thesis using assms(1) by (simp add: pingResult_def listenPayload_def Let_def)
qed

text \<open>The number of restarts of one container for the outcomes of its pings, after \<open>n\<close> failures in a row.\<close>

fun restartsDue :: "int \<Rightarrow> int \<Rightarrow> bool list \<Rightarrow> nat" where
  "restartsDue t n [] = 0"
| "restartsDue t n (True # rs) = restartsDue t 0 rs"
| "restartsDue t n (False # rs) = (if t \<le> n + 1 then Suc (restartsDue t 0 rs) else restartsDue t (n + 1) rs)"

definition resultsOf :: "string \<Rightarrow> (string \<times> bool) list \<Rightarrow> bool list" where
  "resultsOf key rs = map snd (filter (\<lambda>r. normalizeMonitorKey (fst r) = key) rs)"

lemma handleResult_keeps:
  "moThreshold (handleResult r m) = moThreshold m"
  "normalizeMonitorKey (fst r) \<noteq> key \<Longrightarrow> mgetd 0 (moFailures (handleResult r m)) key = mgetd 0 (moFailures m) key
     \<and> count_list (moRestarted (handleResult r m)) key = count_list (moRestarted m) key"
  by (auto simp: handleResult_def restartContainer_def Let_def split: prod.splits)

text \<open>
  C18. A container is restarted exactly when \<open>failureThreshold\<close> of its pings in a row have failed, counted
  anew after every answer and every restart, whatever the other workers' pings do in between.
\<close>

theorem monitor_restarts_silent_workers:
  "count_list (moRestarted (fold handleResult rs m)) key =
     count_list (moRestarted m) key + restartsDue (moThreshold m) (mgetd 0 (moFailures m) key) (resultsOf key rs)"
proof (induction rs arbitrary: m)
  case (Cons r rs)
  show ?case
  proof (cases "normalizeMonitorKey (fst r) = key")
    case True
    thus ?thesis using Cons [of "handleResult r m"]
      by (cases r; cases "snd r") (auto simp: resultsOf_def handleResult_def restartContainer_def Let_def)
  next
    case False
    thus ?thesis using Cons [of "handleResult r m"] handleResult_keeps [of r] by (simp add: resultsOf_def)
  qed
qed (simp add: resultsOf_def)

end
