(* ===== verification/Gateway.thy ===== *)
theory Gateway
  imports Barrier
begin

text \<open>
  \<open>gateway/internal\<close>: the gateway accepts clients, turns their stream of external envelopes into messages
  on the broker under ids of its own, announces how much it forwarded, and sends the results back. It is
  a host of the checkpoint coordinator like the workers (its publisher and EOF controller are unused);
  what it checkpoints is only that a client exists, so that after a restart the streams of the clients
  that were connected can be ended. A TCP connection is the bytes still to be read and a script of the
  outcomes of its sends.
\<close>

section \<open>Connections (clientconnection.go, external.go)\<close>

record connection =
  cnOutcomes :: "bool list"
  cnSent :: "bytes list"
  cnEOFSent :: "(MsgType, bool) gomap"
  cnDone :: bool

definition queryEOFs :: "MsgType list" where
  "queryEOFs = [MsgQuery1ResultEOF, MsgQuery2ResultEOF, MsgQuery3ResultEOF, MsgQuery4ResultEOF, MsgQuery5ResultEOF]"

definition NewClientConnection :: "bool list \<Rightarrow> connection" where
  "NewClientConnection outs =
     \<lparr>cnOutcomes = outs, cnSent = [], cnEOFSent = map (\<lambda>t. (t, False)) queryEOFs, cnDone = False\<rparr>"

definition connSend :: "bytes \<Rightarrow> connection \<Rightarrow> unit result \<times> connection" where
  "connSend data cn =
     (case cnOutcomes cn of
        False # os \<Rightarrow> (Inl (Errorf ''write'' []), cn\<lparr>cnOutcomes := os\<rparr>)
      | os \<Rightarrow> (Inr (), cn\<lparr>cnOutcomes := tl os, cnSent := cnSent cn @ [data]\<rparr>))"

text \<open>\<open>Receive(size)\<close> reads exactly \<open>size\<close> bytes, or fails when the peer closes before.\<close>

definition receive :: "nat \<Rightarrow> bytes \<Rightarrow> (bytes \<times> bytes) option" where
  "receive n stream = (if length stream < n then None else Some (take n stream, drop n stream))"

definition allEOFSent :: "connection \<Rightarrow> bool" where
  "allEOFSent cn \<longleftrightarrow> list_all snd (cnEOFSent cn)"

definition ForwardEnvelope :: "ExternalEnvelope \<Rightarrow> connection \<Rightarrow> unit result \<times> connection" where
  "ForwardEnvelope e cn =
     (case connSend (EncodeExternalEnvelope e) cn of
        (Inl err, cn) \<Rightarrow> (Inl (Wrapf ''forwarding envelope'' [] err), cn)
      | (Inr _, cn) \<Rightarrow>
          let cn = (if mhas (cnEOFSent cn) (eMsgType e) then cn\<lparr>cnEOFSent := mput (eMsgType e) True (cnEOFSent cn)\<rparr> else cn) in
          (Inr (), if allEOFSent cn then cn\<lparr>cnDone := True\<rparr> else cn))"

section \<open>State (gateway.go, state_checkpoint.go)\<close>

record gwClient =
  txCount :: goint
  txUsdCount :: goint
  txSeq :: "64 word"
  accSeq :: "64 word"

record gwState =
  gwClients :: "(uuid, gwClient) gomap"
  gwRegistry :: "(uuid, connection) gomap"
  gwSeen :: "(uuid, MsgID list) gomap"
  gwAccounts :: "net option"

type_synonym gwNode = "gwState wnode"

definition newClient :: gwClient where
  "newClient = \<lparr>txCount = 0, txUsdCount = 0, txSeq = 0, accSeq = 0\<rparr>"

definition newGwState :: "net option \<Rightarrow> gwState" where
  "newGwState accounts = \<lparr>gwClients = [], gwRegistry = [], gwSeen = [], gwAccounts = accounts\<rparr>"

definition gw_SnapshotClient :: "uuid \<Rightarrow> gwState \<Rightarrow> bytes result \<times> gwState" where
  "gw_SnapshotClient c x = (Inr [1], x)"

definition gw_RestoreClient :: "uuid \<Rightarrow> bytes \<Rightarrow> gwState \<Rightarrow> unit result \<times> gwState" where
  "gw_RestoreClient c data x = (Inr (), x\<lparr>gwClients := mput c newClient (gwClients x)\<rparr>)"

definition noopAppendSource :: "'w AppendSource" where
  "noopAppendSource = \<lparr>srcDrain = (\<lambda>c w. (Inr [], w)), srcCommit = (\<lambda>c w. (Inr (), w)), srcReplay = (\<lambda>c data w. (Inr (), w))\<rparr>"

definition Gateway_sources :: "workerCfg \<Rightarrow> gwState worker_scheme sources" where
  "Gateway_sources cfg =
     \<lparr>srcSeen = noopAppendSource, srcEof = None, srcState = Some (ownSource gw_SnapshotClient gw_RestoreClient),
      uuidString = cfgUuidString cfg, uuidParse = cfgUuidParse cfg\<rparr>"

definition updClient :: "uuid \<Rightarrow> (gwClient \<Rightarrow> gwClient) \<Rightarrow> gwNode \<Rightarrow> gwNode" where
  "updClient c f = updOwn (\<lambda>x. case mget (gwClients x) c of None \<Rightarrow> x | Some cl \<Rightarrow> x\<lparr>gwClients := mput c (f cl) (gwClients x)\<rparr>)"

definition forgetClient :: "uuid \<Rightarrow> gwNode \<Rightarrow> gwNode" where
  "forgetClient c = updOwn (\<lambda>x. x\<lparr>gwClients := mdel c (gwClients x)\<rparr>)"

definition registryRemove :: "uuid \<Rightarrow> gwNode \<Rightarrow> gwNode" where
  "registryRemove c = updOwn (\<lambda>x. x\<lparr>gwRegistry := mdel c (gwRegistry x)\<rparr>)"

definition registryAdd :: "uuid \<Rightarrow> connection \<Rightarrow> gwNode \<Rightarrow> gwNode" where
  "registryAdd c cn = updOwn (\<lambda>x. x\<lparr>gwRegistry := mput c cn (gwRegistry x)\<rparr>)"

section \<open>Sending\<close>

definition isAccountsMessage :: "MsgType \<Rightarrow> bool" where
  "isAccountsMessage t \<longleftrightarrow> t = MsgAccountsBatch \<or> t = MsgAccountsEOF"

definition nextSourceMsgID :: "uuid \<Rightarrow> MsgType \<Rightarrow> gwNode \<Rightarrow> MsgID \<times> gwNode" where
  "nextSourceMsgID c t s =
     (let stream = (if isAccountsMessage t then StreamAccounts else StreamTransactions) in
      case mget (gwClients (own s)) c of
        None \<Rightarrow> (SourceMsgID c stream 0, s)
      | Some cl \<Rightarrow>
          if stream = StreamAccounts then (SourceMsgID c stream (accSeq cl), updClient c (accSeq_update (\<lambda>n. n + 1)) s)
          else (SourceMsgID c stream (txSeq cl), updClient c (txSeq_update (\<lambda>n. n + 1)) s))"

definition brokerSend :: "Message \<Rightarrow> gwNode \<Rightarrow> bool \<times> gwNode" where
  "brokerSend m s = (case netSend m (nodeNet s) of (r, n) \<Rightarrow> (r = Inr (), updHost (\<lambda>w. w\<lparr>wNet := n\<rparr>) s))"

definition accountsSend :: "Message \<Rightarrow> gwNode \<Rightarrow> bool \<times> gwNode" where
  "accountsSend m s =
     (case gwAccounts (own s) of
        None \<Rightarrow> (False, s)
      | Some n \<Rightarrow> (case netSend m n of (r, n) \<Rightarrow> (r = Inr (), updOwn (\<lambda>x. x\<lparr>gwAccounts := Some n\<rparr>) s)))"

definition sendMessageToBroker :: "MsgType \<Rightarrow> uuid \<Rightarrow> bytes \<Rightarrow> KeyType \<Rightarrow> gwNode \<Rightarrow> bool \<times> gwNode" where
  "sendMessageToBroker t c payload key s =
     (case nextSourceMsgID c t s of (i, s) \<Rightarrow>
      (if isAccountsMessage t then accountsSend else brokerSend) (internalMessage c t key payload i) s)"

definition gw_sendTransactionBatch :: "uuid \<Rightarrow> Transaction list \<Rightarrow> KeyType \<Rightarrow> gwNode \<Rightarrow> bool \<times> gwNode" where
  "gw_sendTransactionBatch c txs key s =
     (if txs = [] then (True, s)
      else case EncodeTransactionBatch txs of
        Inl e \<Rightarrow> (False, s)
      | Inr payload \<Rightarrow> sendMessageToBroker MsgTransactionsBatch c payload key s)"

text \<open>The zero id of the flush EOF keeps it out of the duplicate filters.\<close>

definition flushEOFCounts :: "(KeyType, goint) gomap" where
  "flushEOFCounts = [(KeyNil, -1), (KeyDollarTransaction, -1), (KeyNonDollarTransaction, -1), (KeyAllTransaction, -1)]"

definition sendFlushEOF :: "uuid \<Rightarrow> gwNode \<Rightarrow> bool \<times> gwNode" where
  "sendFlushEOF c s =
     (case EncodeEOFCounts flushEOFCounts of
        Inl e \<Rightarrow> (False, s)
      | Inr payload \<Rightarrow> brokerSend (internalMessage c MsgTransactionsEOF KeyControlEOF payload zeroMsgID) s)"

section \<open>Checkpoints\<close>

definition persistClientState :: "workerCfg \<Rightarrow> uuid \<Rightarrow> gwNode \<Rightarrow> bool \<times> gwNode" where
  "persistClientState cfg c s = (case fromIo (SaveClient (Gateway_sources cfg) c) s of (r, s) \<Rightarrow> (r = Inr (), s))"

definition tryDeleteCheckpoint :: "workerCfg \<Rightarrow> uuid \<Rightarrow> gwNode \<Rightarrow> gwNode" where
  "tryDeleteCheckpoint cfg c s = (if nodeDown s then s else snd (ignoring (fromIo (coDelete (Gateway_sources cfg) c)) s))"

section \<open>Requests\<close>

definition gw_handleTransactionsBatch :: "uuid \<Rightarrow> bytes \<Rightarrow> gwNode \<Rightarrow> bool \<times> gwNode" where
  "gw_handleTransactionsBatch c payload s =
     (case DecodeTransactionBatch payload of
        Inl e \<Rightarrow> (False, s)
      | Inr txs \<Rightarrow>
         let dollarTx = filter (\<lambda>t. PaymentCurrency t = Dollar) txs;
             nonDollarTx = filter (\<lambda>t. PaymentCurrency t \<noteq> Dollar) txs in
         case gw_sendTransactionBatch c dollarTx KeyDollarTransaction s of
           (False, s) \<Rightarrow> (False, s)
         | (True, s) \<Rightarrow>
            (case gw_sendTransactionBatch c nonDollarTx KeyNonDollarTransaction s of
               (False, s) \<Rightarrow> (False, s)
             | (True, s) \<Rightarrow>
                (True, updClient c (\<lambda>cl. cl\<lparr>txCount := txCount cl + word_of_nat (length txs),
                                           txUsdCount := txUsdCount cl + word_of_nat (length dollarTx)\<rparr>) s)))"

definition gwCounts :: "goint \<Rightarrow> goint \<Rightarrow> (KeyType, goint) gomap" where
  "gwCounts n usd = [(KeyNil, n), (KeyDollarTransaction, usd), (KeyNonDollarTransaction, n - usd), (KeyAllTransaction, n)]"

definition gw_handleTransactionsEOF :: "workerCfg \<Rightarrow> uuid \<Rightarrow> gwNode \<Rightarrow> bool \<times> gwNode" where
  "gw_handleTransactionsEOF cfg c s =
     (case mget (gwClients (own s)) c of
        None \<Rightarrow> (False, s)
      | Some cl \<Rightarrow>
         (case EncodeEOFCounts (gwCounts (txCount cl) (txUsdCount cl)) of
            Inl e \<Rightarrow> (False, s)
          | Inr payload \<Rightarrow>
             (case sendMessageToBroker MsgTransactionsEOF c payload KeyControlEOF s of
                (False, s) \<Rightarrow> (False, s)
              | (True, s) \<Rightarrow> (True, tryDeleteCheckpoint cfg c s))))"

text \<open>
  \<open>handleRequest\<close> is the switch of the loop in \<open>HandleClientRequest\<close>. The loop itself runs over the bytes
  a client sends: false when the connection breaks, a message cannot be handled or its type is unknown;
  true after the EOF of the transactions.
\<close>

definition handleRequest :: "workerCfg \<Rightarrow> uuid \<Rightarrow> MsgType \<Rightarrow> bytes \<Rightarrow> gwNode \<Rightarrow> bool \<times> gwNode" where
  "handleRequest cfg c t payload s =
     (if t = MsgAccountsBatch then sendMessageToBroker MsgAccountsBatch c payload KeyNil s
      else if t = MsgAccountsEOF then sendMessageToBroker MsgAccountsEOF c [] KeyNil s
      else if t = MsgTransactionsBatch then gw_handleTransactionsBatch c payload s
      else if t = MsgTransactionsEOF then gw_handleTransactionsEOF cfg c s
      else (False, s))"

function HandleClientRequest :: "workerCfg \<Rightarrow> uuid \<Rightarrow> bytes \<Rightarrow> gwNode \<Rightarrow> bool \<times> gwNode" where
  "HandleClientRequest cfg c stream s =
     (case receive ExternalHeaderSize stream of
        None \<Rightarrow> (False, s)
      | Some (header, rest) \<Rightarrow>
         let (t, sz) = the (DecodeExternalHeader header) in
         case receive (unat sz) rest of
           None \<Rightarrow> (False, s)
         | Some (payload, rest) \<Rightarrow>
            (case handleRequest cfg c t payload s of
               (False, s) \<Rightarrow> (False, s)
             | (True, s) \<Rightarrow> if t = MsgTransactionsEOF then (True, s) else HandleClientRequest cfg c rest s))"
  by pat_completeness auto
termination
  by (relation "measure (\<lambda>(cfg, c, stream, s). length stream)")
    (auto simp: receive_def ExternalHeaderSize_def split: if_splits)

declare HandleClientRequest.simps [simp del]

definition handleClientDisconnect :: "workerCfg \<Rightarrow> uuid \<Rightarrow> gwNode \<Rightarrow> bool \<times> gwNode" where
  "handleClientDisconnect cfg c s =
     (case sendMessageToBroker MsgAccountsEOF c [] KeyNil s of
        (ok, s) \<Rightarrow> (case sendFlushEOF c s of (ok', s) \<Rightarrow> (ok' \<and> ok, tryDeleteCheckpoint cfg c s)))"

section \<open>Clients come and go\<close>

definition acceptClient :: "workerCfg \<Rightarrow> uuid \<Rightarrow> bool list \<Rightarrow> gwNode \<Rightarrow> gwNode" where
  "acceptClient cfg c outs s =
     (case persistClientState cfg c (updOwn (\<lambda>x. x\<lparr>gwClients := mput c newClient (gwClients x)\<rparr>)
             (registryAdd c (NewClientConnection outs) s)) of
        (True, s) \<Rightarrow> s
      | (False, s) \<Rightarrow> registryRemove c (forgetClient c s))"

text \<open>The deferred calls of a connection's goroutine, last one first.\<close>

definition endClient :: "workerCfg \<Rightarrow> uuid \<Rightarrow> gwNode \<Rightarrow> gwNode" where
  "endClient cfg c s = tryDeleteCheckpoint cfg c (forgetClient c (registryRemove c s))"

definition recoverClient :: "workerCfg \<Rightarrow> uuid \<Rightarrow> gwNode \<Rightarrow> gwNode" where
  "recoverClient cfg c s =
     (if nodeDown s then s
      else forgetClient c (tryDeleteCheckpoint cfg c
             (snd (sendFlushEOF c (snd (sendMessageToBroker MsgAccountsEOF c [] KeyNil s))))))"

text \<open>The ids come out of a map range, in any order.\<close>

definition recoverPendingClients :: "workerCfg \<Rightarrow> uuid list \<Rightarrow> gwNode \<Rightarrow> gwNode" where
  "recoverPendingClients cfg ids s = fold (recoverClient cfg) ids s"

definition Gateway_Start :: "workerCfg \<Rightarrow> (uuid list \<Rightarrow> uuid list) \<Rightarrow> net option \<Rightarrow> fs \<Rightarrow> net \<Rightarrow> gwNode" where
  "Gateway_Start cfg order accounts f n =
     (let s = bootNode cfg (Gateway_sources cfg) (newGwState accounts) f n in
      recoverPendingClients cfg (order (map fst (gwClients (own s)))) s)"

section \<open>Results\<close>

definition dropSeen :: "uuid \<Rightarrow> gwNode \<Rightarrow> gwNode" where
  "dropSeen c = updOwn (\<lambda>x. x\<lparr>gwSeen := mdel c (gwSeen x)\<rparr>)"

definition forwardTo :: "workerCfg \<Rightarrow> InternalEnvelope \<Rightarrow> connection \<Rightarrow> gwNode \<Rightarrow> gwNode" where
  "forwardTo cfg env cn s =
     (let c = ClientId env in
      case ForwardEnvelope \<lparr>eMsgType = MsgType env, ePayload = Payload env\<rparr> cn of
        (Inl err, cn) \<Rightarrow> dropSeen c (forgetClient c (registryRemove c (snd (handleClientDisconnect cfg c s))))
      | (Inr _, cn) \<Rightarrow>
          let s = registryAdd c cn s;
              s = (if MsgID env = zeroMsgID then s
                   else updOwn (\<lambda>x. x\<lparr>gwSeen := mput c (List.insert (MsgID env) (mgetd [] (gwSeen x) c)) (gwSeen x)\<rparr>) s) in
          if allEOFSent cn then dropSeen c s else s)"

definition ackUp :: "nat \<Rightarrow> gwNode \<Rightarrow> gwNode" where
  "ackUp ack s = (if nodeDown s then s else callAck ack s)"

text \<open>A malformed result, one forwarded before and one for an unknown client are acknowledged and dropped.\<close>

definition forwardResponse :: "workerCfg \<Rightarrow> Message \<Rightarrow> nat \<Rightarrow> gwNode \<Rightarrow> gwNode" where
  "forwardResponse cfg msg ack s =
     (case DecodeInternalEnvelope (Body msg) of
        None \<Rightarrow> stopNode s
      | Some (Inl e) \<Rightarrow> callAck ack s
      | Some (Inr env) \<Rightarrow>
         if MsgID env \<noteq> zeroMsgID \<and> MsgID env \<in> set (mgetd [] (gwSeen (own s)) (ClientId env)) then callAck ack s
         else case mget (gwRegistry (own s)) (ClientId env) of
             None \<Rightarrow> callAck ack (dropSeen (ClientId env) s)
           | Some cn \<Rightarrow> ackUp ack (forwardTo cfg env cn s))"

definition handleClientResponse :: "workerCfg \<Rightarrow> Message \<Rightarrow> nat \<Rightarrow> gwNode \<Rightarrow> gwNode" where
  "handleClientResponse cfg msg ack s =
     (if ContentType msg = ContentTypeBinary then forwardResponse cfg msg ack s else s)"

section \<open>Interleaving\<close>

text \<open>
  The accept loop, the goroutines of the connections and the consumer of the results as events, each one
  pass through the corresponding loop. A client whose results are complete has finished.
\<close>

datatype gwEvent =
    Accepted uuid "bool list" | Request uuid MsgType bytes | HungUp uuid | Finished uuid | Response Message nat

definition hangUp :: "workerCfg \<Rightarrow> uuid \<Rightarrow> gwNode \<Rightarrow> gwNode" where
  "hangUp cfg c s = endClient cfg c (snd (handleClientDisconnect cfg c s))"

fun gwEvent_step :: "workerCfg \<Rightarrow> gwEvent \<Rightarrow> gwNode \<Rightarrow> gwNode" where
  "gwEvent_step cfg (Accepted c outs) s = acceptClient cfg c outs s"
| "gwEvent_step cfg (Request c t payload) s =
     (case handleRequest cfg c t payload s of (True, s) \<Rightarrow> s | (False, s) \<Rightarrow> hangUp cfg c s)"
| "gwEvent_step cfg (HungUp c) s = hangUp cfg c s"
| "gwEvent_step cfg (Finished c) s =
     (case mget (gwRegistry (own s)) c of
        None \<Rightarrow> s
      | Some cn \<Rightarrow> if cnDone cn then endClient cfg c s else s)"
| "gwEvent_step cfg (Response msg ack) s = handleClientResponse cfg msg ack s"

definition gwStep :: "workerCfg \<Rightarrow> gwEvent \<Rightarrow> gwNode \<Rightarrow> gwNode" where
  "gwStep cfg e s = (if nodeDown s then s else gwEvent_step cfg e s)"

definition Gateway_Run :: "workerCfg \<Rightarrow> gwEvent list \<Rightarrow> gwNode \<Rightarrow> gwNode" where
  "Gateway_Run cfg = fold (gwStep cfg)"

section \<open>What the operations leave alone\<close>

lemma Gateway_quiet: "quietSources (Gateway_sources cfg)"
  by (auto simp: quietSources_def slots_def Gateway_sources_def noopAppendSource_def ownSource_def gw_SnapshotClient_def sameWork_def)

lemma keepsWork_delete: "keepsWork (coDelete src c)"
proof -
  have "keepsWork (\<lambda>co. (IOk (), co\<lparr>coGen := mdel c (coGen co), coDirty := removeAll c (coDirty co)\<rparr>))"
    by (simp add: keepsWork_def)
  thus ?thesis unfolding coDelete_def Let_def by (intro keepsWork_iobind) auto
qed

lemma keeps_fromIo:
  assumes "keepsWork m"
  shows "own (snd (fromIo m s)) = own s" "nodeNet (snd (fromIo m s)) = nodeNet s"
proof -
  have "sameWork (coHost s) (coHost (snd (m s)))" using assms by (simp add: keepsWork_def)
  thus "own (snd (fromIo m s)) = own s" "nodeNet (snd (fromIo m s)) = nodeNet s"
    by (auto simp: fromIo_def sameWork_def wpanic_def stopNode_def updHost_def own_def split: prod.splits io.splits)
qed

lemma persist_keeps [simp]:
  "own (snd (persistClientState cfg c s)) = own s" "nodeNet (snd (persistClientState cfg c s)) = nodeNet s"
  using keeps_fromIo [OF quiet_checkpoint [OF Gateway_quiet], of cfg c s]
  by (auto simp: persistClientState_def SaveClient_def split: prod.splits)

lemma ignoring_keeps [simp]: "own (snd (ignoring m s)) = own (snd (m s))" "nodeNet (snd (ignoring m s)) = nodeNet (snd (m s))"
  by (auto simp: ignoring_def wpanic_def stopNode_def updHost_def own_def split: prod.splits)

lemma tryDelete_keeps [simp]:
  "own (tryDeleteCheckpoint cfg c s) = own s" "nodeNet (tryDeleteCheckpoint cfg c s) = nodeNet s"
  by (simp_all add: tryDeleteCheckpoint_def keeps_fromIo [OF keepsWork_delete])

text \<open>The part of the state that the results depend on.\<close>

definition gwView :: "uuid \<Rightarrow> gwNode \<Rightarrow> connection option \<times> MsgID list" where
  "gwView c s = (mget (gwRegistry (own s)) c, mgetd [] (gwSeen (own s)) c)"

lemma own_setNet [simp]: "own (updHost (\<lambda>w. w\<lparr>wNet := n\<rparr>) s) = own s"
  by (simp add: own_def updHost_def)

lemma gwView_simps [simp]:
  "gwView c (updClient d f s) = gwView c s" "gwView c (forgetClient d s) = gwView c s"
  "gwView c (tryDeleteCheckpoint cfg d s) = gwView c s" "gwView c (snd (persistClientState cfg d s)) = gwView c s"
  "gwView c (snd (nextSourceMsgID d t s)) = gwView c s" "gwView c (snd (brokerSend m s)) = gwView c s"
  "gwView c (snd (accountsSend m s)) = gwView c s"
  "gwView c (callAck a s) = gwView c s" "gwView c (ackUp a s) = gwView c s" "gwView c (stopNode s) = gwView c s"
  by (auto simp: gwView_def updClient_def forgetClient_def nextSourceMsgID_def brokerSend_def accountsSend_def ackUp_def
      Let_def simp del: own_simps(1) split: option.splits prod.splits)

lemma gwView_result:
  "gwView c (snd x) = v \<Longrightarrow> x = (b, s') \<Longrightarrow> gwView c s' = v"
  by simp

lemma gwView_send [simp]:
  "gwView c (snd (sendMessageToBroker t d payload key s)) = gwView c s"
  "gwView c (snd (sendFlushEOF d s)) = gwView c s"
  "gwView c (snd (gw_sendTransactionBatch d txs key s)) = gwView c s"
proof -
  show send: "gwView c (snd (sendMessageToBroker t d payload key s)) = gwView c s" for t d payload key s
    by (auto simp: sendMessageToBroker_def gwView_result [OF gwView_simps(5)] split: prod.split)
  show "gwView c (snd (sendFlushEOF d s)) = gwView c s"
    by (simp add: sendFlushEOF_def split: sum.split)
  show "gwView c (snd (gw_sendTransactionBatch d txs key s)) = gwView c s"
    by (simp add: gw_sendTransactionBatch_def send split: sum.split)
qed

lemma gwView_sent: "sendMessageToBroker t d payload key s = (b, s') \<Longrightarrow> gwView c s' = gwView c s"
  "gw_sendTransactionBatch d txs key s = (b, s') \<Longrightarrow> gwView c s' = gwView c s"
  by (rule gwView_result [OF gwView_send(1)], assumption) (rule gwView_result [OF gwView_send(3)])

lemma gwView_transactions:
  "gwView c (snd (gw_handleTransactionsBatch d payload s)) = gwView c s"
  "gwView c (snd (gw_handleTransactionsEOF cfg d s)) = gwView c s"
  by (auto simp: gw_handleTransactionsBatch_def gw_handleTransactionsEOF_def Let_def
      split: sum.split prod.split option.split bool.split dest!: gwView_sent(1) [where c = c] gwView_sent(2) [where c = c])

lemma gwView_handleRequest [simp]: "gwView c (snd (handleRequest cfg d t payload s)) = gwView c s"
  by (simp add: handleRequest_def gwView_transactions)

lemma gwView_disconnect [simp]: "gwView c (snd (handleClientDisconnect cfg d s)) = gwView c s"
  by (auto simp: handleClientDisconnect_def split: prod.split
      dest!: gwView_result [OF gwView_send(1) [of c]] gwView_result [OF gwView_send(2) [of c]])

lemma gwView_registry [simp]:
  "gwView c (registryRemove d s) = (if c = d then (None, snd (gwView c s)) else gwView c s)"
  "gwView c (registryAdd d cn s) = (if c = d then (Some cn, snd (gwView c s)) else gwView c s)"
  "gwView c (dropSeen d s) = (if c = d then (fst (gwView c s), []) else gwView c s)"
  "gwView c (updOwn (\<lambda>x. x\<lparr>gwClients := f x\<rparr>) s) = gwView c s"
  by (simp_all add: gwView_def registryRemove_def registryAdd_def dropSeen_def mgetd_def)

lemma gwView_leaves:
  "gwView c (endClient cfg d s) = (if c = d then (None, snd (gwView c s)) else gwView c s)"
  "gwView c (hangUp cfg d s) = (if c = d then (None, snd (gwView c s)) else gwView c s)"
  by (simp_all add: endClient_def hangUp_def)

lemma gwView_accept: "c \<noteq> d \<Longrightarrow> gwView c (acceptClient cfg d outs s) = gwView c s"
  by (auto simp: acceptClient_def split: prod.split bool.split dest!: gwView_result [OF gwView_simps(4) [of c]])

section \<open>Every result reaches its client once\<close>

text \<open>
  The results for a client among the events, the first copies of these, and the frame a result becomes.
  A result with the zero id is never a copy.
\<close>

fun resultsFor :: "uuid \<Rightarrow> gwEvent \<Rightarrow> InternalEnvelope list" where
  "resultsFor c (Response msg ack) =
     (if ContentType msg = ContentTypeBinary
      then case DecodeInternalEnvelope (Body msg) of
             Some (Inr env) \<Rightarrow> if ClientId env = c then [env] else []
           | _ \<Rightarrow> []
      else [])"
| "resultsFor c _ = []"

definition firstCopy :: "InternalEnvelope \<Rightarrow> InternalEnvelope list \<Rightarrow> InternalEnvelope list" where
  "firstCopy env acc = (if MsgID env \<noteq> zeroMsgID \<and> MsgID env \<in> MsgID ` set acc then acc else acc @ [env])"

definition resultFrame :: "InternalEnvelope \<Rightarrow> bytes" where
  "resultFrame env = EncodeExternalEnvelope \<lparr>eMsgType = MsgType env, ePayload = Payload env\<rparr>"

lemma all_mput_True: "list_all snd m \<Longrightarrow> list_all snd (mput k True m)"
  by (induction m) auto

lemma ForwardEnvelope_ok:
  "ForwardEnvelope e cn = (Inr u, cn') \<Longrightarrow> cnSent cn' = cnSent cn @ [EncodeExternalEnvelope e] \<and> (allEOFSent cn \<longrightarrow> allEOFSent cn')"
  by (auto simp: ForwardEnvelope_def connSend_def Let_def allEOFSent_def all_mput_True
      split: if_splits list.splits bool.splits sum.splits prod.splits)

definition oneResult :: "InternalEnvelope list \<Rightarrow> connection \<times> MsgID list \<Rightarrow> connection \<times> MsgID list \<Rightarrow> bool" where
  "oneResult es v v' \<longleftrightarrow>
     (case es of
        [] \<Rightarrow> v' = v
      | env # _ \<Rightarrow>
          if MsgID env \<noteq> zeroMsgID \<and> MsgID env \<in> set (snd v) then v' = v
          else cnSent (fst v') = cnSent (fst v) @ [resultFrame env]
             \<and> set (snd v') = (if MsgID env = zeroMsgID then set (snd v) else insert (MsgID env) (set (snd v))))"

lemma gwView_markSeen:
  "gwView c (updOwn (\<lambda>x. x\<lparr>gwSeen := mput d (List.insert i (mgetd [] (gwSeen x) d)) (gwSeen x)\<rparr>) s)
     = (if c = d then (fst (gwView c s), List.insert i (snd (gwView c s))) else gwView c s)"
  by (simp add: gwView_def)

lemma forwardTo_view:
  "gwView c (forwardTo cfg env cn s) =
     (if c \<noteq> ClientId env then gwView c s
      else case ForwardEnvelope \<lparr>eMsgType = MsgType env, ePayload = Payload env\<rparr> cn of
        (Inl e, _) \<Rightarrow> (None, [])
      | (Inr _, cn') \<Rightarrow>
          (Some cn', if allEOFSent cn' then []
                     else if MsgID env = zeroMsgID then snd (gwView c s) else List.insert (MsgID env) (snd (gwView c s))))"
  by (simp add: forwardTo_def Let_def gwView_markSeen split: prod.split sum.split)

lemma forwardResponse_one:
  assumes "gwView c (forwardResponse cfg msg ack s) = (Some cn', ids')" "\<not> allEOFSent cn'"
    "ContentType msg = ContentTypeBinary"
  shows "\<exists>cn ids. gwView c s = (Some cn, ids) \<and> \<not> allEOFSent cn \<and> oneResult (resultsFor c (Response msg ack)) (cn, ids) (cn', ids')"
proof (cases "\<exists>env. DecodeInternalEnvelope (Body msg) = Some (Inr env)")
  case False
  with assms show ?thesis
    by (auto simp: forwardResponse_def oneResult_def split: option.splits sum.splits)
next
  case True
  then obtain env where env: "DecodeInternalEnvelope (Body msg) = Some (Inr env)" by blast
  show ?thesis
  proof (cases "MsgID env \<noteq> zeroMsgID \<and> MsgID env \<in> set (mgetd [] (gwSeen (own s)) (ClientId env))")
    case True
    with env assms show ?thesis by (auto simp: forwardResponse_def oneResult_def gwView_def)
  next
    case False
    show ?thesis
    proof (cases "mget (gwRegistry (own s)) (ClientId env)")
      case None
      hence "fst (gwView (ClientId env) s) = None" by (simp add: gwView_def)
      with None env assms False show ?thesis by (auto simp: forwardResponse_def oneResult_def split: if_splits)
    next
      case (Some cn)
      with env False assms
      have v: "gwView c (forwardTo cfg env cn s) = (Some cn', ids')" by (auto simp: forwardResponse_def)
      show ?thesis
      proof (cases "c = ClientId env")
        case False
        with v assms env show ?thesis by (auto simp: forwardTo_view oneResult_def)
      next
        case True
        with v assms(2) obtain u where "ForwardEnvelope \<lparr>eMsgType = MsgType env, ePayload = Payload env\<rparr> cn = (Inr u, cn')"
            "ids' = (if MsgID env = zeroMsgID then snd (gwView c s) else List.insert (MsgID env) (snd (gwView c s)))"
          by (auto simp: forwardTo_view split: prod.splits sum.splits)
        with ForwardEnvelope_ok [OF this(1)] assms(2,3) True env Some False show ?thesis
          by (auto simp: oneResult_def resultFrame_def gwView_def)
      qed
    qed
  qed
qed

lemma gwStep_one:
  assumes "gwView c (gwStep cfg e s) = (Some cn', ids')" "\<not> allEOFSent cn'" "\<not> nodeDown s" "\<forall>outs. e \<noteq> Accepted c outs"
  shows "\<exists>cn ids. gwView c s = (Some cn, ids) \<and> \<not> allEOFSent cn \<and> oneResult (resultsFor c e) (cn, ids) (cn', ids')"
proof (cases e)
  case (Response msg ack)
  show ?thesis
  proof (cases "ContentType msg = ContentTypeBinary")
    case True
    with forwardResponse_one [of c cfg msg ack s] assms show ?thesis
      by (simp add: Response gwStep_def handleClientResponse_def)
  next
    case False
    with assms show ?thesis by (simp add: Response gwStep_def handleClientResponse_def oneResult_def)
  qed
next
  case (Request d t payload)
  obtain b s1 where h: "handleRequest cfg d t payload s = (b, s1)" by fastforce
  from gwView_result [OF gwView_handleRequest h, of c] have "gwView c s1 = gwView c s" by simp
  with assms h show ?thesis
    by (auto simp: Request gwStep_def oneResult_def gwView_leaves split: bool.splits if_splits)
qed (use assms in \<open>auto simp: gwStep_def oneResult_def gwView_leaves gwView_accept split: if_splits option.splits\<close>)

text \<open>
  C34. A client that stays connected gets every result once: over every interleaving of clients coming,
  sending, breaking off and finishing with the deliveries of results to any of them, and whatever the
  broker, the disk and the other connections do, the frames sent to a client whose results are not
  complete yet are the first copies of the results delivered for it, in their order, and results with
  the zero id each time.
\<close>

theorem gateway_forwards_each_result_once:
  assumes "gwView c s = (Some cn, [])" "\<forall>outs. Accepted c outs \<notin> set es"
    and "\<not> nodeDown (Gateway_Run cfg es s)" "mget (gwRegistry (own (Gateway_Run cfg es s))) c = Some cn'" "\<not> allEOFSent cn'"
  shows "cnSent cn' = cnSent cn @ map resultFrame (fold firstCopy (concat (map (resultsFor c) es)) [])"
proof -
  have len: "length (resultsFor c e) \<le> 1" for e by (cases e) (auto split: option.split sum.split)
  have "cnSent cn' = cnSent cn @ map resultFrame acc \<and> set ids' = MsgID ` set acc - {zeroMsgID}"
    if "gwView c (Gateway_Run cfg es s) = (Some cn', ids')" "\<forall>outs. Accepted c outs \<notin> set es"
       "\<not> nodeDown (Gateway_Run cfg es s)" "\<not> allEOFSent cn'" "acc = fold firstCopy (concat (map (resultsFor c) es)) []"
    for acc ids' using that
  proof (induction es arbitrary: cn' ids' acc rule: rev_induct)
    case Nil
    with assms(1) show ?case by (simp add: Gateway_Run_def)
  next
    case (snoc e es)
    let ?s = "Gateway_Run cfg es s"
    have run: "Gateway_Run cfg (es @ [e]) s = gwStep cfg e ?s" by (simp add: Gateway_Run_def)
    have up: "\<not> nodeDown ?s" using snoc.prems(3) by (auto simp: run gwStep_def)
    from snoc.prems run gwStep_one [of c cfg e ?s cn' ids'] up obtain cn1 ids1
      where v: "gwView c ?s = (Some cn1, ids1)" "\<not> allEOFSent cn1" "oneResult (resultsFor c e) (cn1, ids1) (cn', ids')"
      by auto
    define prev where "prev = fold firstCopy (concat (map (resultsFor c) es)) []"
    from snoc.IH [OF v(1) _ up v(2) prev_def] snoc.prems(2)
    have ih: "cnSent cn1 = cnSent cn @ map resultFrame prev" "set ids1 = MsgID ` set prev - {zeroMsgID}" by auto
    from len [of e] obtain env where "resultsFor c e = [] \<or> resultsFor c e = [env]"
      by (cases "resultsFor c e") auto
    moreover have "acc = fold firstCopy (resultsFor c e) prev" using snoc.prems(5) by (simp add: prev_def)
    ultimately show ?case using v(3) ih
      by (auto simp: oneResult_def firstCopy_def split: if_splits)
  qed
  thus ?thesis using assms by (simp add: gwView_def)
qed

end
