(* ===== verification/GatewayRuns.thy ===== *)
theory GatewayRuns
  imports Gateway BankJoin
begin

text \<open>
  What the gateway makes of the stream of a client: the messages it puts on the broker, their ids and the
  counts it announces; and what becomes of the end of a client's accounts when the gateway restarts, seen
  from the join that receives it.
\<close>

section \<open>Requests of a client\<close>

datatype gwRequest = SendAccounts bytes | EndAccounts | SendTransactions "Transaction list"

definition txPayload :: "Transaction list \<Rightarrow> bytes" where
  "txPayload txs = projr (EncodeTransactionBatch txs)"

fun requestFrame :: "gwRequest \<Rightarrow> ExternalEnvelope" where
  "requestFrame (SendAccounts p) = \<lparr>eMsgType = MsgAccountsBatch, ePayload = p\<rparr>"
| "requestFrame EndAccounts = \<lparr>eMsgType = MsgAccountsEOF, ePayload = []\<rparr>"
| "requestFrame (SendTransactions txs) = \<lparr>eMsgType = MsgTransactionsBatch, ePayload = txPayload txs\<rparr>"

definition clientFrames :: "gwRequest list \<Rightarrow> bytes" where
  "clientFrames rs = concat (map (\<lambda>r. EncodeExternalEnvelope (requestFrame r)) rs)"

definition clientStream :: "gwRequest list \<Rightarrow> bytes" where
  "clientStream rs =
     clientFrames rs @ EncodeExternalEnvelope \<lparr>eMsgType = MsgTransactionsEOF, ePayload = []\<rparr>"

fun requestOk :: "gwRequest \<Rightarrow> bool" where
  "requestOk (SendAccounts p) \<longleftrightarrow> length p < 2 ^ 32"
| "requestOk EndAccounts \<longleftrightarrow> True"
| "requestOk (SendTransactions txs) \<longleftrightarrow> (\<forall>tx \<in> set txs. wireTx tx) \<and> length txs < 2 ^ 32 \<and> length (txPayload txs) < 2 ^ 32"

section \<open>What they become\<close>

definition isDollar :: "Transaction \<Rightarrow> bool" where
  "isDollar tx \<longleftrightarrow> PaymentCurrency tx = Dollar"

text \<open>The transactions of a request by routing key, none of them empty, and the messages on each exchange.\<close>

fun txGroups :: "gwRequest \<Rightarrow> (KeyType \<times> Transaction list) list" where
  "txGroups (SendTransactions txs) =
     filter (\<lambda>g. snd g \<noteq> []) [(KeyDollarTransaction, filter isDollar txs), (KeyNonDollarTransaction, filter (Not \<circ> isDollar) txs)]"
| "txGroups _ = []"

fun accountParts :: "gwRequest \<Rightarrow> (MsgType \<times> KeyType \<times> bytes) list" where
  "accountParts (SendAccounts p) = [(MsgAccountsBatch, KeyNil, p)]"
| "accountParts EndAccounts = [(MsgAccountsEOF, KeyNil, [])]"
| "accountParts (SendTransactions txs) = []"

definition groupPart :: "KeyType \<times> Transaction list \<Rightarrow> MsgType \<times> KeyType \<times> bytes" where
  "groupPart g = (MsgTransactionsBatch, fst g, txPayload (snd g))"

text \<open>Messages of one stream of a client, numbered from \<open>n\<close>.\<close>

fun sourced :: "uuid \<Rightarrow> byte \<Rightarrow> 64 word \<Rightarrow> (MsgType \<times> KeyType \<times> bytes) list \<Rightarrow> Message list" where
  "sourced c st n [] = []"
| "sourced c st n ((t, k, p) # ps) = internalMessage c t k p (SourceMsgID c st n) # sourced c st (n + 1) ps"

lemma sourced_append: "sourced c st n (ps @ qs) = sourced c st n ps @ sourced c st (n + word_of_nat (length ps)) qs"
  by (induction c st n ps rule: sourced.induct) (simp_all add: algebra_simps)

text \<open>The counts of the transactions in a list of groups, per key and in all.\<close>

definition groupCount :: "(KeyType \<Rightarrow> bool) \<Rightarrow> (KeyType \<times> Transaction list) list \<Rightarrow> goint" where
  "groupCount p gs = word_of_nat (\<Sum>g \<leftarrow> filter (p \<circ> fst) gs. length (snd g))"

definition announcedCounts :: "(KeyType \<times> Transaction list) list \<Rightarrow> (KeyType, goint) gomap" where
  "announcedCounts gs =
     [(KeyNil, groupCount (\<lambda>_. True) gs), (KeyDollarTransaction, groupCount (\<lambda>k. k = KeyDollarTransaction) gs),
      (KeyNonDollarTransaction, groupCount (\<lambda>k. k = KeyNonDollarTransaction) gs), (KeyAllTransaction, groupCount (\<lambda>_. True) gs)]"

lemma groupCount_append: "groupCount p (gs @ hs) = groupCount p gs + groupCount p hs"
  by (simp add: groupCount_def)

lemma groupCount_split:
  "\<forall>g \<in> set gs. fst g = KeyDollarTransaction \<or> fst g = KeyNonDollarTransaction
   \<Longrightarrow> groupCount (\<lambda>_. True) gs = groupCount (\<lambda>k. k = KeyDollarTransaction) gs + groupCount (\<lambda>k. k = KeyNonDollarTransaction) gs"
  by (induction gs) (auto simp: groupCount_def KeyType_defs)

section \<open>Sending over a healthy broker\<close>

definition gwAt :: "uuid \<Rightarrow> gwClient \<Rightarrow> net \<Rightarrow> gwNode \<Rightarrow> bool" where
  "gwAt c cl n s \<longleftrightarrow> mget (gwClients (own s)) c = Some cl \<and> gwAccounts (own s) = Some n \<and> outcomes n = [] \<and> outcomes (nodeNet s) = []"

lemma gwAt_updClient: "gwAt c cl n s \<Longrightarrow> gwAt c (f cl) n (updClient c f s)"
  by (simp add: gwAt_def updClient_def)

lemma outbox_updClient [simp]: "outbox (updClient c f s) = outbox s"
  by (simp add: updClient_def)

lemma brokerSend_healthy:
  "outcomes (nodeNet s) = [] \<Longrightarrow> \<exists>s'. brokerSend m s = (True, s') \<and> own s' = own s \<and> outcomes (nodeNet s') = []
     \<and> outbox s' = outbox s @ [m]"
  by (simp add: brokerSend_def netSend_def outbox_def) (simp add: updHost_def own_def)

lemma send_transactions:
  assumes "gwAt c cl n s" "\<not> isAccountsMessage t"
  shows "\<exists>s'. sendMessageToBroker t c p k s = (True, s') \<and> gwAt c (cl\<lparr>txSeq := txSeq cl + 1\<rparr>) n s'
    \<and> outbox s' = outbox s @ sourced c StreamTransactions (txSeq cl) [(t, k, p)]"
proof -
  let ?s = "updClient c (txSeq_update (\<lambda>n. n + 1)) s"
  have "txSeq_update (\<lambda>n. n + 1) cl = cl\<lparr>txSeq := txSeq cl + 1\<rparr>" by (cases cl) simp
  with gwAt_updClient [OF assms(1), of "txSeq_update (\<lambda>n. n + 1)"] have "gwAt c (cl\<lparr>txSeq := txSeq cl + 1\<rparr>) n ?s" by simp
  moreover have "nextSourceMsgID c t s = (SourceMsgID c StreamTransactions (txSeq cl), ?s)"
    using assms by (simp add: nextSourceMsgID_def gwAt_def StreamTransactions_def StreamAccounts_def)
  ultimately show ?thesis
    using brokerSend_healthy [of ?s "internalMessage c t k p (SourceMsgID c StreamTransactions (txSeq cl))"] assms(2)
    by (auto simp: sendMessageToBroker_def gwAt_def)
qed

lemma send_accounts:
  assumes "gwAt c cl n s" "isAccountsMessage t"
  shows "\<exists>s'. sendMessageToBroker t c p k s = (True, s')
    \<and> gwAt c (cl\<lparr>accSeq := accSeq cl + 1\<rparr>) (n\<lparr>sent := sent n @ sourced c StreamAccounts (accSeq cl) [(t, k, p)]\<rparr>) s'
    \<and> outbox s' = outbox s"
proof -
  let ?s = "updClient c (accSeq_update (\<lambda>n. n + 1)) s"
  have "accSeq_update (\<lambda>n. n + 1) cl = cl\<lparr>accSeq := accSeq cl + 1\<rparr>" by (cases cl) simp
  with gwAt_updClient [OF assms(1), of "accSeq_update (\<lambda>n. n + 1)"] have "gwAt c (cl\<lparr>accSeq := accSeq cl + 1\<rparr>) n ?s" by simp
  moreover have "nextSourceMsgID c t s = (SourceMsgID c StreamAccounts (accSeq cl), ?s)"
    using assms by (simp add: nextSourceMsgID_def gwAt_def)
  ultimately show ?thesis using assms(2)
    by (auto simp: sendMessageToBroker_def accountsSend_def netSend_def gwAt_def)
qed

lemma send_group:
  assumes "gwAt c cl n s" "\<forall>tx \<in> set txs. wireTx tx"
  shows "\<exists>s'. gw_sendTransactionBatch c txs k s = (True, s')
    \<and> gwAt c (cl\<lparr>txSeq := txSeq cl + (if txs = [] then 0 else 1)\<rparr>) n s'
    \<and> outbox s' = outbox s @ sourced c StreamTransactions (txSeq cl) (if txs = [] then [] else [groupPart (k, txs)])"
proof (cases "txs = []")
  case False
  moreover obtain p where "EncodeTransactionBatch txs = Inr p" using EncodeTransactionBatch_ok assms(2) by blast
  moreover have "\<not> isAccountsMessage MsgTransactionsBatch" by (simp add: isAccountsMessage_def MsgType_defs)
  ultimately show ?thesis
    using send_transactions [OF assms(1), of MsgTransactionsBatch p k]
    by (auto simp: gw_sendTransactionBatch_def groupPart_def txPayload_def)
qed (use assms in \<open>simp add: gw_sendTransactionBatch_def\<close>)

text \<open>The client record after some groups have been sent for it.\<close>

definition sentGroups :: "(KeyType \<times> Transaction list) list \<Rightarrow> gwClient \<Rightarrow> gwClient" where
  "sentGroups gs cl =
     cl\<lparr>txSeq := txSeq cl + word_of_nat (length gs), txCount := txCount cl + groupCount (\<lambda>_. True) gs,
        txUsdCount := txUsdCount cl + groupCount (\<lambda>k. k = KeyDollarTransaction) gs\<rparr>"

lemma send_batch:
  assumes "gwAt c cl n s" "requestOk (SendTransactions txs)"
  shows "\<exists>s'. gw_handleTransactionsBatch c (txPayload txs) s = (True, s')
    \<and> gwAt c (sentGroups (txGroups (SendTransactions txs)) cl) n s'
    \<and> outbox s' = outbox s @ sourced c StreamTransactions (txSeq cl) (map groupPart (txGroups (SendTransactions txs)))"
proof -
  let ?us = "filter isDollar txs" and ?vs = "filter (Not \<circ> isDollar) txs"
  have wire: "\<forall>tx \<in> set txs. wireTx tx" using assms(2) by simp
  obtain p where p: "EncodeTransactionBatch txs = Inr p" using EncodeTransactionBatch_ok wire by blast
  hence dec: "DecodeTransactionBatch (txPayload txs) = Inr txs"
    using batch_arrives assms(2) by (simp add: txPayload_def)
  obtain s1 where s1: "gw_sendTransactionBatch c ?us KeyDollarTransaction s = (True, s1)"
      "gwAt c (cl\<lparr>txSeq := txSeq cl + (if ?us = [] then 0 else 1)\<rparr>) n s1"
      "outbox s1 = outbox s @ sourced c StreamTransactions (txSeq cl) (if ?us = [] then [] else [groupPart (KeyDollarTransaction, ?us)])"
    using send_group [OF assms(1), of ?us KeyDollarTransaction] wire by auto
  obtain s2 where s2: "gw_sendTransactionBatch c ?vs KeyNonDollarTransaction s1 = (True, s2)"
      "gwAt c (cl\<lparr>txSeq := txSeq cl + (if ?us = [] then 0 else 1) + (if ?vs = [] then 0 else 1)\<rparr>) n s2"
      "outbox s2 = outbox s1 @ sourced c StreamTransactions (txSeq cl + (if ?us = [] then 0 else 1))
         (if ?vs = [] then [] else [groupPart (KeyNonDollarTransaction, ?vs)])"
    using send_group [OF s1(2), of ?vs KeyNonDollarTransaction] wire by auto
  let ?f = "\<lambda>cl. cl\<lparr>txCount := txCount cl + word_of_nat (length txs), txUsdCount := txUsdCount cl + word_of_nat (length ?us)\<rparr>"
  have "length txs = length ?us + length ?vs" using sum_length_filter_compl [of isDollar txs] by (simp add: comp_def)
  hence counts: "sentGroups (txGroups (SendTransactions txs)) cl
      = ?f (cl\<lparr>txSeq := txSeq cl + (if ?us = [] then 0 else 1) + (if ?vs = [] then 0 else 1)\<rparr>)"
    by (simp add: sentGroups_def groupCount_def KeyType_defs comp_def)
  have dollar: "filter (\<lambda>t. PaymentCurrency t = Dollar) txs = ?us" "filter (\<lambda>t. PaymentCurrency t \<noteq> Dollar) txs = ?vs"
    by (simp_all add: isDollar_def [abs_def] comp_def)
  show ?thesis
  proof (intro exI conjI)
    show "gw_handleTransactionsBatch c (txPayload txs) s = (True, updClient c ?f s2)"
      using s1(1) s2(1) by (simp add: gw_handleTransactionsBatch_def dec dollar)
    show "gwAt c (sentGroups (txGroups (SendTransactions txs)) cl) n (updClient c ?f s2)"
      unfolding counts by (rule gwAt_updClient [OF s2(2)])
  qed (simp add: s1(3) s2(3) groupPart_def)
qed

section \<open>The stream of a client\<close>

lemma receive_frame:
  assumes "length (ePayload e) < 2 ^ 32"
  shows "HandleClientRequest cfg c (EncodeExternalEnvelope e @ rest) s =
    (case handleRequest cfg c (eMsgType e) (ePayload e) s of
       (False, s) \<Rightarrow> (False, s)
     | (True, s) \<Rightarrow> if eMsgType e = MsgTransactionsEOF then (True, s) else HandleClientRequest cfg c rest s)"
proof -
  let ?h = "eMsgType e # PutUint32 (word_of_nat (length (ePayload e)))"
  have "receive ExternalHeaderSize (EncodeExternalEnvelope e @ rest) = Some (?h, ePayload e @ rest)"
    by (simp add: receive_def ExternalHeaderSize_def EncodeExternalEnvelope_def)
  moreover have "the (DecodeExternalHeader ?h) = (eMsgType e, word_of_nat (length (ePayload e)))"
    by (simp add: DecodeExternalHeader_def slice_def)
  moreover have "unat (word_of_nat (length (ePayload e)) :: 32 word) = length (ePayload e)"
    using assms by (simp add: unat_of_nat)
  ultimately show ?thesis
    by (subst HandleClientRequest.simps) (simp add: receive_def)
qed

lemma EncodeEOFCounts_short:
  assumes "\<forall>k \<in> fst ` set m. length k \<le> 255"
  shows "\<exists>p. EncodeEOFCounts m = Inr p"
proof -
  have "\<forall>k \<in> set ks. length k \<le> 255 \<Longrightarrow> \<exists>b. encodeCountEntries m ks = Inr b" for ks
    by (induction ks) (auto simp: writeString_def)
  from this [of "sort (map fst m)"] assms show ?thesis by (auto simp: EncodeEOFCounts_def)
qed

definition afterRequests :: "gwRequest list \<Rightarrow> gwClient \<Rightarrow> gwClient" where
  "afterRequests rs cl =
     (sentGroups (concat (map txGroups rs)) cl)\<lparr>accSeq := accSeq cl + word_of_nat (length (concat (map accountParts rs)))\<rparr>"

definition sendsOn :: "net \<Rightarrow> Message list \<Rightarrow> net" where
  "sendsOn n ms = n\<lparr>sent := sent n @ ms\<rparr>"

lemma sendsOn_simps [simp]: "sendsOn n [] = n" "sendsOn (sendsOn n ms) ms' = sendsOn n (ms @ ms')" "sent (sendsOn n ms) = sent n @ ms"
  by (simp_all add: sendsOn_def)

lemma afterRequests_simps:
  "afterRequests [] cl = cl" "afterRequests rs (afterRequests [r] cl) = afterRequests (r # rs) cl"
  "txSeq (afterRequests rs cl) = txSeq cl + word_of_nat (length (concat (map txGroups rs)))"
  "accSeq (afterRequests rs cl) = accSeq cl + word_of_nat (length (concat (map accountParts rs)))"
  by (simp_all add: afterRequests_def sentGroups_def groupCount_append algebra_simps) (simp add: groupCount_def)

lemma handle_one:
  assumes "gwAt c cl n s" "requestOk r"
  shows "\<exists>s'. handleRequest cfg c (eMsgType (requestFrame r)) (ePayload (requestFrame r)) s = (True, s')
    \<and> gwAt c (afterRequests [r] cl) (sendsOn n (sourced c StreamAccounts (accSeq cl) (accountParts r))) s'
    \<and> outbox s' = outbox s @ sourced c StreamTransactions (txSeq cl) (map groupPart (txGroups r))"
proof (cases r)
  case (SendAccounts p)
  show ?thesis
    using send_accounts [OF assms(1), of MsgAccountsBatch p KeyNil]
    by (simp add: SendAccounts handleRequest_def isAccountsMessage_def afterRequests_def sentGroups_def groupCount_def sendsOn_def)
next
  case EndAccounts
  show ?thesis
    using send_accounts [OF assms(1), of MsgAccountsEOF "[]" KeyNil]
    by (simp add: EndAccounts handleRequest_def isAccountsMessage_def afterRequests_def sentGroups_def groupCount_def sendsOn_def
        MsgType_defs)
next
  case (SendTransactions txs)
  have "afterRequests [r] cl = sentGroups (txGroups (SendTransactions txs)) cl"
    by (simp add: SendTransactions afterRequests_def sentGroups_def)
  thus ?thesis
    using send_batch [OF assms(1), of txs] assms(2) by (simp add: SendTransactions handleRequest_def MsgType_defs)
qed

lemma requests_run:
  assumes "gwAt c cl n s" "\<forall>r \<in> set rs. requestOk r"
  shows "\<exists>s'. HandleClientRequest cfg c (clientFrames rs @ rest) s = HandleClientRequest cfg c rest s'
    \<and> gwAt c (afterRequests rs cl) (sendsOn n (sourced c StreamAccounts (accSeq cl) (concat (map accountParts rs)))) s'
    \<and> outbox s' = outbox s @ sourced c StreamTransactions (txSeq cl) (map groupPart (concat (map txGroups rs)))"
  using assms
proof (induction rs arbitrary: cl n s)
  case Nil
  thus ?case by (auto simp: afterRequests_simps clientFrames_def)
next
  case (Cons r rs)
  hence ok: "requestOk r" "\<forall>r \<in> set rs. requestOk r" by simp_all
  obtain s1 where s1: "handleRequest cfg c (eMsgType (requestFrame r)) (ePayload (requestFrame r)) s = (True, s1)"
      "gwAt c (afterRequests [r] cl) (sendsOn n (sourced c StreamAccounts (accSeq cl) (accountParts r))) s1"
      "outbox s1 = outbox s @ sourced c StreamTransactions (txSeq cl) (map groupPart (txGroups r))"
    using handle_one [OF Cons.prems(1) ok(1), of cfg] by blast
  have "length (ePayload (requestFrame r)) < 2 ^ 32 \<and> eMsgType (requestFrame r) \<noteq> MsgTransactionsEOF"
    using ok(1) by (cases r) (auto simp: MsgType_defs)
  hence "HandleClientRequest cfg c (clientFrames (r # rs) @ rest) s
      = HandleClientRequest cfg c (clientFrames rs @ rest) s1"
    using s1(1) by (simp add: receive_frame clientFrames_def)
  with Cons.IH [OF s1(2) ok(2)] s1(3) show ?case
    by (simp add: afterRequests_simps sourced_append)
qed

lemma groups_keys: "\<forall>g \<in> set (concat (map txGroups rs)). fst g = KeyDollarTransaction \<or> fst g = KeyNonDollarTransaction"
proof -
  have "g \<in> set (txGroups r) \<Longrightarrow> fst g = KeyDollarTransaction \<or> fst g = KeyNonDollarTransaction" for g r
    by (cases r) (auto split: if_splits)
  thus ?thesis by fastforce
qed

text \<open>
  C33. What the gateway announces is what it forwarded: when a client registers and sends account
  batches, batches of transactions and the ends of both over brokers that work, the gateway puts the dollar and
  the other transactions of each batch on the broker under their keys, under the ids of the
  client's transaction stream numbered without gaps, and ends with an EOF whose counts per key are the
  numbers of transactions it sent under that key; the accounts go out unchanged under a numbering of their own.
\<close>

theorem gateway_announces_what_it_forwarded:
  assumes "gwAt c newClient n s" "\<forall>r \<in> set rs. requestOk r"
  shows "\<exists>s' p. HandleClientRequest cfg c (clientStream rs) s = (True, s')
    \<and> EncodeEOFCounts (announcedCounts (concat (map txGroups rs))) = Inr p
    \<and> outbox s' = outbox s @ sourced c StreamTransactions 0
        (map groupPart (concat (map txGroups rs)) @ [(MsgTransactionsEOF, KeyControlEOF, p)])
    \<and> gwAccounts (own s') = Some (sendsOn n (sourced c StreamAccounts 0 (concat (map accountParts rs))))"
proof -
  let ?gs = "concat (map txGroups rs)" and ?cl = "afterRequests rs newClient"
  let ?fin = "\<lparr>eMsgType = MsgTransactionsEOF, ePayload = []\<rparr>"
  obtain s1 where s1: "HandleClientRequest cfg c (clientStream rs) s = HandleClientRequest cfg c (EncodeExternalEnvelope ?fin) s1"
      "gwAt c ?cl (sendsOn n (sourced c StreamAccounts 0 (concat (map accountParts rs)))) s1"
      "outbox s1 = outbox s @ sourced c StreamTransactions 0 (map groupPart ?gs)"
    using requests_run [OF assms, of cfg "EncodeExternalEnvelope ?fin"] by (auto simp: clientStream_def newClient_def)
  have "txCount ?cl = groupCount (\<lambda>_. True) ?gs" "txUsdCount ?cl = groupCount (\<lambda>k. k = KeyDollarTransaction) ?gs"
    by (simp_all add: afterRequests_def sentGroups_def newClient_def)
  hence counts: "gwCounts (txCount ?cl) (txUsdCount ?cl) = announcedCounts ?gs"
    using groupCount_split [OF groups_keys, of rs] by (simp add: gwCounts_def announcedCounts_def)
  obtain p where p: "EncodeEOFCounts (announcedCounts ?gs) = Inr p"
    using EncodeEOFCounts_short [of "announcedCounts ?gs"] by (auto simp: announcedCounts_def KeyType_defs)
  have notacc: "\<not> isAccountsMessage MsgTransactionsEOF" by (simp add: isAccountsMessage_def MsgType_defs)
  obtain s2 where s2: "sendMessageToBroker MsgTransactionsEOF c p KeyControlEOF s1 = (True, s2)"
      "gwAt c (?cl\<lparr>txSeq := txSeq ?cl + 1\<rparr>) (sendsOn n (sourced c StreamAccounts 0 (concat (map accountParts rs)))) s2"
      "outbox s2 = outbox s1 @ sourced c StreamTransactions (txSeq ?cl) [(MsgTransactionsEOF, KeyControlEOF, p)]"
    using send_transactions [OF s1(2) notacc, of p KeyControlEOF] by blast
  have "handleRequest cfg c MsgTransactionsEOF [] s1 = (True, tryDeleteCheckpoint cfg c s2)"
    using s1(2) s2(1) p counts by (simp add: handleRequest_def gw_handleTransactionsEOF_def gwAt_def MsgType_defs)
  with s1(1) receive_frame [of ?fin cfg c "[]" s1]
  have "HandleClientRequest cfg c (clientStream rs) s = (True, tryDeleteCheckpoint cfg c s2)" by simp
  moreover have "outbox (tryDeleteCheckpoint cfg c s2) = outbox s @ sourced c StreamTransactions 0
      (map groupPart ?gs @ [(MsgTransactionsEOF, KeyControlEOF, p)])"
    using s1(3) s2(3) by (simp add: outbox_def sourced_append afterRequests_simps newClient_def)
  ultimately show ?thesis using p s2(2) by (auto simp: gwAt_def)
qed

definition exampleGateway :: gwNode where
  "exampleGateway = NewCoordinator (newHost exampleCfg ((newGwState (Some \<lparr>outcomes = [], sent = []\<rparr>))\<lparr>gwClients := [(replicate 16 7, newClient)]\<rparr>)
     \<lparr>outcomes = [], sent = []\<rparr>) \<lparr>files = [], script = []\<rparr> 1"

lemma exampleGateway_at: "gwAt (replicate 16 7) newClient \<lparr>outcomes = [], sent = []\<rparr> exampleGateway" "outbox exampleGateway = []"
    "\<not> nodeDown exampleGateway" "outcomes (nodeNet exampleGateway) = []"
  by (simp_all add: gwAt_def exampleGateway_def NewCoordinator_def newHost_def own_def newGwState_def outbox_def)

lemma exampleBatch_short: "length (txPayload [exampleTx]) < 2 ^ 32" "wireTx exampleTx"
  by (simp_all add: txPayload_def EncodeTransactionBatch_def encodeBatch_def encodeTransaction_def exampleTx_def account_wire_defs
      writeString_def MaxUint16_def writeFloat64_def writeBool_def wireTx_def)

lemma gateway_announces_what_it_forwarded_witness:
  "length (outbox (snd (HandleClientRequest exampleCfg (replicate 16 7) (clientStream [SendAccounts [], SendTransactions [exampleTx], EndAccounts])
     exampleGateway))) = 2"
proof -
  let ?rs = "[SendAccounts [], SendTransactions [exampleTx], EndAccounts]"
  have ok: "\<forall>r \<in> set ?rs. requestOk r" using exampleBatch_short by simp
  have "isDollar exampleTx" by (simp add: isDollar_def exampleTx_def Dollar_def)
  hence "length (sourced (replicate 16 7) StreamTransactions 0
      (map groupPart (concat (map txGroups ?rs)) @ [(MsgTransactionsEOF, KeyControlEOF, p)])) = 2" for p
    by (simp add: groupPart_def)
  thus ?thesis
    using gateway_announces_what_it_forwarded [OF exampleGateway_at(1) ok, of exampleCfg] exampleGateway_at(2) by auto
qed

section \<open>The end of a client after a restart\<close>

text \<open>
  C35. After a restart of the gateway the end of a client's accounts is lost: the restored client starts its
  numbering again, so the accounts EOF that recovery sends for it carries the id of the first accounts batch
  it sent before. A join that has handled that batch, whatever it has done since (short of forgetting
  the client), drops the EOF as a duplicate and keeps the client's banks and cached batches.
\<close>

theorem gateway_recovery_end_is_dropped:
  assumes "gwAt c newClient n s" "length c = 16" "length p < 2 ^ 32 - 37" "SourceMsgID c StreamAccounts 0 \<noteq> zeroMsgID"
    and "own t = snd (gw_RestoreClient c data x)" "gwAccounts x = Some n'" "outcomes n' = []" "outcomes (nodeNet t) = []" "\<not> nodeDown t"
  shows "\<exists>m1 m2. gwAccounts (own (snd (handleRequest cfg c MsgAccountsBatch p s))) = Some (sendsOn n [m1])
    \<and> gwAccounts (own (recoverPendingClients cfg [c] t)) = Some (sendsOn n' [m2])
    \<and> (\<forall>j a j' j2 a2. handleAccountsMessage w m1 a j = Some (c, MsgAccountsBatch, None, j') \<and> seenOf j' c \<subseteq> seenOf j2 c
         \<longrightarrow> handleAccountsMessage w m2 a2 j2 = Some (uuid_Nil, MsgAccountsEOF, None, j2))"
proof (intro exI conjI allI impI)
  let ?i = "SourceMsgID c StreamAccounts 0"
  let ?m1 = "internalMessage c MsgAccountsBatch KeyNil p ?i" and ?m2 = "internalMessage c MsgAccountsEOF KeyNil [] ?i"
  have acc: "isAccountsMessage MsgAccountsBatch" "isAccountsMessage MsgAccountsEOF" by (simp_all add: isAccountsMessage_def)
  show "gwAccounts (own (snd (handleRequest cfg c MsgAccountsBatch p s))) = Some (sendsOn n [?m1])"
    using send_accounts [OF assms(1) acc(1), of p KeyNil] by (auto simp: handleRequest_def gwAt_def newClient_def sendsOn_def)
  have t: "gwAt c newClient n' t" using assms by (simp add: gwAt_def gw_RestoreClient_def)
  obtain t1 where t1: "sendMessageToBroker MsgAccountsEOF c [] KeyNil t = (True, t1)" "gwAccounts (own t1) = Some (sendsOn n' [?m2])"
    using send_accounts [OF t acc(2), of "[]" KeyNil] by (auto simp: gwAt_def newClient_def sendsOn_def)
  have "own (snd (sendFlushEOF c t1)) = own t1"
    by (simp add: sendFlushEOF_def brokerSend_def split: sum.split prod.split del: own_simps(1))
  with t1 assms(9) show "gwAccounts (own (recoverPendingClients cfg [c] t)) = Some (sendsOn n' [?m2])"
    by (simp add: recoverPendingClients_def recoverClient_def forgetClient_def)
  fix j j' j2 :: "joinState wnode" and a a2
  assume j: "handleAccountsMessage w ?m1 a j = Some (c, MsgAccountsBatch, None, j') \<and> seenOf j' c \<subseteq> seenOf j2 c"
  have "seenIDs (nodePub (putPub d u)) = seenIDs d" for d and u :: "joinState wnode" by (simp add: putPub_def updHost_def)
  with j assms(2,3,4) have "?i \<in> seenOf j2 c"
    by (auto simp: handleAccountsMessage_def Dispatch_def internalMessage_def DecodeInternalEnvelope_Encode wf_envelope_def
        alreadySeen_def split: option.splits if_splits prod.splits sum.splits)
  with assms(2,4) show "handleAccountsMessage w ?m2 a2 j2 = Some (uuid_Nil, MsgAccountsEOF, None, j2)"
    by (auto simp: handleAccountsMessage_def Dispatch_def internalMessage_def DecodeInternalEnvelope_Encode wf_envelope_def
        alreadySeen_def joinAccountsHandlers_def MsgType_defs)
qed

text \<open>The id of the first accounts message of an example client, computed block by block.\<close>

definition exampleWords :: "32 word list" where
  "exampleWords =
    [117901063, 117901063, 117901063, 117901063, 16777216, 0, 8388608, 0, 0, 0, 0, 0, 0, 0, 0, 200,
     3593877046, 3602069046, 3021894278, 85009545, 4164848400, 3068520067, 2505338242, 636635917,
     2449965905, 554483035, 922197804, 3243066008, 4083418821, 2659424609, 967502340, 1286209463,
     3666254321, 1429445330, 1894151279, 1389292194, 4084870919, 2776834377, 3231001373, 1187907492,
     3041780167, 245521263, 1338641354, 2950460350, 338417770, 3429056645, 815264561, 687002007,
     970199592, 634901195, 2692164403, 343446545, 2153657494, 2550123040, 2285818277, 2126941030,
     3606903729, 1668157015, 3140070369, 401332324, 1325637806, 2224890829, 4074382029, 2305902321]"

definition exampleHalf :: sha_state where
  "exampleHalf = (3395800546, 1148626383, 2955406144, 1260334731, 1441987164, 187961373, 3826275120, 3530813628)"

lemma exampleBytes: "be_bytes 8 0 = replicate 8 0" "be_bytes 8 200 = replicate 7 0 @ [200]"
  "be_bytes 4 0 = replicate 4 0"
  by code_simp+

definition exampleBlock :: bytes where
  "exampleBlock =
    [7, 7, 7, 7, 7, 7, 7, 7, 7, 7, 7, 7, 7, 7, 7, 7, 1, 0, 0, 0, 0, 0, 0, 0, 0, 128, 0, 0, 0, 0, 0, 0,
     0, 0, 0, 0, 0, 0, 0, 0, 0, 0, 0, 0, 0, 0, 0, 0, 0, 0, 0, 0, 0, 0, 0, 0, 0, 0, 0, 0, 0, 0, 0, 200]"

lemma exampleBlock_pieces:
  "exampleBlock = replicate 16 7 @ [1] @ replicate 8 0 @ [128] @ replicate 30 0 @ replicate 7 0 @ [200]"
  by (simp add: exampleBlock_def numeral_eq_Suc)

lemma examplePad: "sha_pad (sourceBuf (replicate 16 7) StreamAccounts 0) = exampleBlock" "length exampleBlock = 64"
  by (simp_all add: sha_pad_def sourceBuf_def exampleBlock_pieces StreamAccounts_def PutUint64_def exampleBytes)

lemma exampleWord0: "sha_words exampleBlock = take 16 exampleWords"
  by (simp add: exampleBlock_def exampleWords_def Uint32_def be_nat_def)

lemma exampleSchedule: "rev (sha_extend 48 (rev (take 16 exampleWords))) = exampleWords"
  by code_simp

lemma exampleRounds:
  "fold sha_round (take 32 (zip sha_K exampleWords)) sha_init = exampleHalf"
  "fold sha_round (drop 32 (zip sha_K exampleWords)) exampleHalf
     = (2005635660, 262475942, 1142953579, 374369337, 1503394532, 1940056027, 298021907, 389727073)"
  by code_simp+

lemma exampleSourceID: "SourceMsgID (replicate 16 7) StreamAccounts 0 \<noteq> zeroMsgID"
proof -
  let ?z = "zip sha_K exampleWords"
  have "sha_blocks sha_init exampleBlock = sha_block sha_init exampleBlock"
    using sha_blocks.simps [of sha_init exampleBlock] sha_blocks.simps [of "sha_block sha_init exampleBlock" "[]"]
    by (simp add: examplePad(2))
  also have "fold sha_round ?z sha_init = fold sha_round (drop 32 ?z) (fold sha_round (take 32 ?z) sha_init)"
    by (metis append_take_drop_id comp_apply fold_append)
  hence "sha_block sha_init exampleBlock = sha_add sha_init (2005635660, 262475942, 1142953579, 374369337, 1503394532, 1940056027, 298021907, 389727073)"
    by (simp add: sha_block_def exampleWord0 exampleSchedule exampleRounds)
  finally have "take 4 (SourceMsgID (replicate 16 7) StreamAccounts 0) = PutUint32 3784669363"
    by (simp add: SourceMsgID_def hash16_def sha256_def examplePad(1)) (simp add: sha_init_def)
  moreover have "PutUint32 3784669363 \<noteq> PutUint32 0" by simp
  moreover have "take 4 zeroMsgID = PutUint32 0" by (simp add: zeroMsgID_def PutUint32_def exampleBytes)
  ultimately show ?thesis by metis
qed


lemma exampleAccounts_short: "\<exists>b as. DecodeAccountBatch b = Inr as \<and> length b < 2 ^ 32 - 37"
proof -
  have "\<exists>b. EncodeAccountBatch [exampleAccount] = Inr b \<and> length b < 2 ^ 32 - 37"
    by (simp add: EncodeAccountBatch_def encodeBatch_def encodeAccountData_def exampleAccount_def writeString_def MaxUint16_def)
  thus ?thesis using exampleAccounts by auto
qed

lemma exampleJoin_handles:
  assumes "DecodeAccountBatch b = Inr as" "length b < 2 ^ 32 - 37"
  shows "\<exists>j. handleAccountsMessage exampleJoin (internalMessage (replicate 16 7) MsgAccountsBatch KeyNil b
      (SourceMsgID (replicate 16 7) StreamAccounts 0)) 0 freshJoin = Some (replicate 16 7, MsgAccountsBatch, None, j)"
proof -
  have "\<not> alreadySeen (nodePub freshJoin) c i" for c i
    by (simp add: freshJoin_def NewCoordinator_def newHost_def alreadySeen_def)
  thus ?thesis using assms
    by (simp add: handleAccountsMessage_def Dispatch_def internalMessage_def DecodeInternalEnvelope_Encode wf_envelope_def
        joinAccountsHandlers_def handleAccountsBatch_def Let_def wbind_def wresult_def wmodify_def MsgType_defs exampleSourceID)
qed

lemma gateway_recovery_end_is_dropped_witness:
  "\<exists>m1 m2 j. handleAccountsMessage exampleJoin m1 0 freshJoin = Some (replicate 16 7, MsgAccountsBatch, None, j)
    \<and> gwAccounts (own (recoverPendingClients exampleCfg [replicate 16 7] exampleGateway)) = Some (sendsOn \<lparr>outcomes = [], sent = []\<rparr> [m2])
    \<and> handleAccountsMessage exampleJoin m2 1 j = Some (uuid_Nil, MsgAccountsEOF, None, j)"
proof -
  let ?c = "replicate 16 7 :: uuid" and ?n = "\<lparr>outcomes = [], sent = []\<rparr> :: net"
  obtain b as where b: "DecodeAccountBatch b = Inr as" "length b < 2 ^ 32 - 37" using exampleAccounts_short by blast
  have restored: "own exampleGateway = snd (gw_RestoreClient ?c [] (newGwState (Some ?n)))"
    by (simp add: exampleGateway_def NewCoordinator_def newHost_def own_def gw_RestoreClient_def newGwState_def)
  have x: "gwAccounts (newGwState (Some ?n)) = Some ?n" "outcomes ?n = []" "length ?c = 16" by (simp_all add: newGwState_def)
  obtain m1 m2 where m: "gwAccounts (own (snd (handleRequest exampleCfg ?c MsgAccountsBatch b exampleGateway))) = Some (sendsOn ?n [m1])"
      "gwAccounts (own (recoverPendingClients exampleCfg [?c] exampleGateway)) = Some (sendsOn ?n [m2])"
      "\<And>j a j' j2 a2. handleAccountsMessage exampleJoin m1 a j = Some (?c, MsgAccountsBatch, None, j') \<and> seenOf j' ?c \<subseteq> seenOf j2 ?c
         \<Longrightarrow> handleAccountsMessage exampleJoin m2 a2 j2 = Some (uuid_Nil, MsgAccountsEOF, None, j2)"
    using gateway_recovery_end_is_dropped [OF exampleGateway_at(1) x(3) b(2) exampleSourceID restored x(1,2) exampleGateway_at(4,3),
        of exampleCfg exampleJoin] by blast
  have "isAccountsMessage MsgAccountsBatch" by (simp add: isAccountsMessage_def)
  from send_accounts [OF exampleGateway_at(1) this, of b KeyNil] m(1)
  have "m1 = internalMessage ?c MsgAccountsBatch KeyNil b (SourceMsgID ?c StreamAccounts 0)"
    by (auto simp: handleRequest_def gwAt_def newClient_def sendsOn_def)
  with exampleJoin_handles [OF b] obtain j where "handleAccountsMessage exampleJoin m1 0 freshJoin = Some (?c, MsgAccountsBatch, None, j)"
    by blast
  with m(2,3) show ?thesis by blast
qed

section \<open>A result delivered twice\<close>

definition exampleServing :: gwNode where
  "exampleServing = registryAdd (replicate 16 7) (NewClientConnection []) exampleGateway"

definition exampleResult :: InternalEnvelope where
  "exampleResult = \<lparr>MsgType = MsgQuery1Result, ClientId = replicate 16 7, MsgID = replicate 16 1, Payload = []\<rparr>"

definition exampleDelivery :: Message where
  "exampleDelivery = \<lparr>RoutingKey = KeyNil, Body = EncodeInternalEnvelope exampleResult, ContentType = ContentTypeBinary\<rparr>"

lemma exampleResult_facts:
  "DecodeInternalEnvelope (Body exampleDelivery) = Some (Inr exampleResult)" "ContentType exampleDelivery = ContentTypeBinary"
  "ClientId exampleResult = replicate 16 7" "MsgID exampleResult = replicate 16 1" "replicate 16 1 \<noteq> zeroMsgID"
  by (simp_all add: exampleDelivery_def exampleResult_def DecodeInternalEnvelope_Encode wf_envelope_def zeroMsgID_def)

lemma exampleServing_view: "gwView (replicate 16 7) exampleServing = (Some (NewClientConnection []), [])"
  by (simp add: exampleServing_def gwView_def registryAdd_def exampleGateway_def NewCoordinator_def newHost_def own_def updOwn_def
      updHost_def newGwState_def mgetd_def)

lemma exampleForward:
  "\<exists>cn. ForwardEnvelope \<lparr>eMsgType = MsgType exampleResult, ePayload = Payload exampleResult\<rparr> (NewClientConnection []) = (Inr (), cn)
     \<and> \<not> allEOFSent cn"
  by (simp add: ForwardEnvelope_def connSend_def NewClientConnection_def exampleResult_def queryEOFs_def MsgType_defs allEOFSent_def)

lemma exampleResult_twice:
  "\<exists>cn. \<not> nodeDown (Gateway_Run exampleCfg [Response exampleDelivery 0, Response exampleDelivery 1] exampleServing)
     \<and> mget (gwRegistry (own (Gateway_Run exampleCfg [Response exampleDelivery 0, Response exampleDelivery 1] exampleServing)))
          (replicate 16 7) = Some cn \<and> \<not> allEOFSent cn"
proof -
  let ?c = "replicate 16 7 :: uuid" and ?s = "forwardTo exampleCfg exampleResult (NewClientConnection []) exampleServing"
  obtain cn where cn: "ForwardEnvelope \<lparr>eMsgType = MsgType exampleResult, ePayload = Payload exampleResult\<rparr> (NewClientConnection []) = (Inr (), cn)"
      "\<not> allEOFSent cn" using exampleForward by blast
  have up: "\<not> nodeDown exampleServing" using exampleGateway_at(3) by (simp add: exampleServing_def registryAdd_def)
  have down: "nodeDown ?s = nodeDown exampleServing"
    using cn by (simp add: forwardTo_def registryAdd_def Let_def)
  have v0: "mget (gwRegistry (own exampleServing)) ?c = Some (NewClientConnection [])" "mgetd [] (gwSeen (own exampleServing)) ?c = []"
    using exampleServing_view by (simp_all add: gwView_def)
  have v1: "gwView ?c ?s = (Some cn, [replicate 16 1])"
    using cn exampleServing_view by (simp add: forwardTo_view exampleResult_facts)
  have "gwStep exampleCfg (Response exampleDelivery 0) exampleServing = callAck 0 ?s"
    using up down v0 by (simp add: gwStep_def handleClientResponse_def forwardResponse_def exampleResult_facts ackUp_def)
  moreover have "gwStep exampleCfg (Response exampleDelivery 1) (callAck 0 ?s) = callAck 1 (callAck 0 ?s)"
    using up down v1 by (simp add: gwStep_def handleClientResponse_def forwardResponse_def exampleResult_facts gwView_def callAck_def)
      (simp add: own_def)
  ultimately show ?thesis
    using up down v1 cn(2) by (simp add: Gateway_Run_def gwView_def callAck_def) (simp add: own_def)
qed

lemma gateway_forwards_each_result_once_witness:
  "\<exists>cn. mget (gwRegistry (own (Gateway_Run exampleCfg [Response exampleDelivery 0, Response exampleDelivery 1] exampleServing)))
      (replicate 16 7) = Some cn \<and> cnSent cn = [resultFrame exampleResult]"
proof -
  let ?es = "[Response exampleDelivery 0, Response exampleDelivery 1]" and ?c = "replicate 16 7 :: uuid"
  obtain cn where cn: "\<not> nodeDown (Gateway_Run exampleCfg ?es exampleServing)" "\<not> allEOFSent cn"
      "mget (gwRegistry (own (Gateway_Run exampleCfg ?es exampleServing))) ?c = Some cn"
    using exampleResult_twice by blast
  have new: "\<forall>outs. Accepted ?c outs \<notin> set ?es" by simp
  have "concat (map (resultsFor ?c) ?es) = [exampleResult, exampleResult]" by (simp add: exampleResult_facts)
  hence "fold firstCopy (concat (map (resultsFor ?c) ?es)) [] = [exampleResult]"
    by (simp add: firstCopy_def exampleResult_facts)
  with gateway_forwards_each_result_once [OF exampleServing_view new cn(1,3,2)] cn(3) show ?thesis
    by (simp add: NewClientConnection_def)
qed

end
