(* ===== verification/Spec2Isabelle.thy ===== *)
theory Spec2Isabelle
  imports TornLog EofNode WireProperties StageRuns Constructors HeavyBarrier Query4Result Aggregation
    Conversion BankJoin Query5 SendBuffer Monitor GatewayRuns
begin

text \<open>
  A verification of \<open>money-laundering-analysis\<close>, a distributed pipeline in Go that answers five queries
  about bank transactions. Clients send accounts and transactions through a gateway; workers connected
  by RabbitMQ queues and exchanges clean, filter, route, convert, aggregate and join them, each stage
  running as several replicas. Every message of a client carries a deterministic id; every worker drops
  ids it has seen, checkpoints its state, acknowledges a delivery only after a checkpoint, and takes part
  in a protocol that decides when a client's stream has ended. A group of monitors elects a leader that
  restarts workers that no longer answer. Paths below are under \<open>src/src\<close>.

  How the parts interact. A delivery reaches the consumer callback of a worker's \<open>Run\<close>; the publisher's
  \<open>Dispatch\<close> decodes the envelope, drops a seen id and calls the handler for the message type; the handler
  changes the worker's state and publishes under ids derived from that of the delivery; \<open>Dispatch\<close> marks
  the id; \<open>Track\<close> hands the acknowledgement to the checkpoint coordinator, which calls it after the next
  checkpoint. An EOF goes to the EOF controller (stateless stages) or is counted (stateful workers).
  After a crash the coordinator rebuilds worker, filter and controller from the disk and the broker
  delivers again what was not acknowledged.

  \<^bold>\<open>Theories and sources.\<close>
  \<^item> \<open>Prelude\<close>, \<open>GoStd\<close>, \<open>Float64\<close>: error results, bytes and big-endian integers, Go maps as association
    lists; SHA-256, CRC-32C, FNV-1a and decimal texts; IEEE-754 doubles on their bit patterns.
  \<^item> \<open>Models\<close>, \<open>MsgId\<close>, \<open>Codec\<close>, \<open>Envelope\<close>, \<open>WireProperties\<close>, \<open>Transit\<close>: \<open>common/protocol\<close>,
    \<open>common/domain\<close> and the keys of \<open>common/broker\<close>; every record, id and encoder. Round trips, rejection
    of truncated input, and the inputs on which the formats fail.
  \<^item> \<open>Messaging\<close>: \<open>common/messaging\<close>, publisher and duplicate filter. A redelivered message has no effect, a
    failed one is retried.
  \<^item> \<open>Store\<close>, \<open>Coordinator\<close>, \<open>CrashSafety\<close>, \<open>Recovery\<close>, \<open>Durability\<close>, \<open>Liveness\<close>, \<open>TornLog\<close>:
    \<open>common/checkpoint\<close>. The two stores on a file system whose every primitive may succeed, fail or crash
    after some bytes. Checkpoints are atomic, recovery is complete, acknowledgements follow durability,
    a healthy disk lets everything be acknowledged; and one defect of the log.
  \<^item> \<open>SyncEOF\<close>, \<open>EofCounting\<close>, \<open>EofNode\<close>, \<open>EofSafety\<close>: \<open>common/eof\<close>. The controller, its counters and
    checkpoints, one node, and the cluster as a transition system with lost and repeated messages,
    crashes and restores: no leader flushes a client before everything announced has been received.
  \<^item> \<open>Worker\<close>, \<open>Stage\<close>, \<open>Nodes\<close>, \<open>StageCounts\<close>, \<open>StageRuns\<close>: what the stream workers share, the consumer
    loop, and the contract of a stateless stage (locale \<open>stage\<close>): what it acknowledges it has
    published, and what it announces is what it published.
  \<^item> \<open>Cleaner\<close>, \<open>Router\<close>, \<open>Filters\<close>, \<open>Constructors\<close>, \<open>StageBatches\<close>: \<open>workers/cleaner\<close>, \<open>workers/router\<close>
    and the stateless filters of \<open>workers/filter\<close>, their construction from a configuration, and what each
    publishes for a batch.
  \<^item> \<open>Barrier\<close>: what the stateful workers share (locale \<open>eof_barrier\<close>). \<open>Aggregation\<close>:
    \<open>workers/aggregator/aggregator.go\<close>, \<open>service.go\<close>. \<open>Conversion\<close>: \<open>workers/converter\<close>. \<open>BankJoin\<close>:
    \<open>workers/join/join.go\<close>. \<open>Query5\<close>: \<open>workers/filter/q5_filter.go\<close>. \<open>SendBuffer\<close>: \<open>common/batch\<close>.
  \<^item> \<open>PhaseOne\<close>, \<open>HeavyAccounts\<close>, \<open>HeavyBarrier\<close>, \<open>PairCounts\<close>, \<open>Query4Graph\<close>, \<open>Query4Result\<close>: query 4.
    Its first phase with the exchange of heavy accounts, the pair accumulator, the threshold filter and
    the collector. Over every interleaving a client is sealed once, when its heavy sets are complete;
    the whole pipeline computes the accounts joined by at least the threshold of two-step paths
    (\<open>query4Spec\<close>).
  \<^item> \<open>Gateway\<close>, \<open>GatewayRuns\<close>: \<open>gateway/internal\<close> and \<open>common/network\<close>. Client streams, the registry, results
    and recovery. What a client sends is forwarded under gap-free ids and announced with the right counts;
    every result reaches its client once, whatever else the gateway does; and the end of a client's accounts is
    lost when the gateway restarts.
  \<^item> \<open>Bully\<close>, \<open>Monitor\<close>: \<open>common/bully\<close>, \<open>workers/monitor\<close>, \<open>common/monitoring\<close>. Elections end and the
    lowest live id wins; a container is restarted after the threshold of failed pings in a row.

  \<^bold>\<open>Correspondence.\<close> A struct is a record, with the fields the code reads; a function keeps its name, with
  the type's as prefix where two clash. A method that can fail returns \<open>gerr + 'a\<close>; one that can panic
  returns an option or stops the node. A worker is the host of its coordinator: record \<open>worker\<close>,
  extended by the worker's own state; its actions have type \<open>act\<close>, a state monad with errors. Go's \<open>int\<close>
  is \<open>goint\<close> (64 bits) where sums are sent or compared with sent ones, and \<open>int\<close> for configuration and
  message counters. Sets are lists without duplicates. Where Go iterates a map the order is a parameter
  that permutes the entries, and theorems hold for every order. JSON, the text form of UUIDs, the
  broker and the web service of the converter are parameters.

  \<^bold>\<open>Environment.\<close> \<open>net\<close> is a script of outcomes, one per send, and the messages the broker accepted; \<open>fs\<close> a
  script of outcomes, one per primitive, and the files. A script that is used up means success, so a
  theorem for all scripts covers every pattern of faults. Recursion is structural or has a measure; no
  definition uses fuel, so every operation is total.

  \<^bold>\<open>Atomicity.\<close> Each consumer callback is one step. Where a worker has several goroutines (the EOF
  controller, the exchange of heavy accounts, the two queues of the join, the monitors, the
  clients and results of the gateway) their steps
  interleave in any order the code allows: under a mutex one callback runs at a time.

  \<^bold>\<open>Not modelled.\<close> The client program (\<open>client\<close>), the gateway's start-up and shutdown, the AMQP connections of
  \<open>common/broker\<close>, \<open>cmd\<close>, \<open>core\<close> and \<open>common/logger\<close> are sockets, goroutines and wiring around the parts
  above; their contracts enter as \<open>net\<close>. \<open>common/config\<close> is modelled as far as the workers read it, not
  the loading of YAML. \<open>workers/filter/avg_format_filter.go\<close> is left out: its transaction consumer blocks
  in the middle of a callback until the other consumer closes a channel, which the one-step model of a
  callback does not cover. \<open>chaos_monkey\<close> is a test tool. Logging has no effect in the model.
\<close>

end
